(* ===== verification/Js_Prelude.thy ===== *)
theory Js_Prelude
  imports Main "HOL-Library.Multiset" "HOL-Library.Code_Target_Nat"
begin

text \<open>
  Shared vocabulary of the development: JavaScript strings as lists of UTF-16
  code units, and the part of the standard library on strings, arrays and sets
  that the modelled TypeScript calls (\<open>trim\<close>, \<open>split\<close>, \<open>join\<close>,
  \<open>includes\<close>, \<open>indexOf\<close>, \<open>startsWith\<close>, \<open>endsWith\<close>, \<open>slice\<close>,
  \<open>new Set\<close>, decimal printing and \<open>parseInt\<close>), with the lemmas the
  component theories use.

  A string is a \<open>nat list\<close>: every element is one code unit, so \<open>length\<close>
  is JavaScript's \<open>length\<close> and no character is out of reach.  An ASCII
  literal is written \<open>js ''abc''\<close>.
\<close>

section \<open>Strings\<close>

named_theorems js_lit \<open>unfolding of string literals into code units\<close>

type_synonym jchar = nat
type_synonym jstr = "jchar list"

definition js :: "string \<Rightarrow> jstr" where
  [js_lit]: "js s = map of_char s"

abbreviation ch :: "char \<Rightarrow> jchar" where
  "ch c \<equiv> of_char c"

datatype js_error = SyntaxError | TypeError | ReferenceError

text \<open>
  White space and line terminators of ECMAScript: what \<open>String.prototype.trim\<close>
  removes and what \<open>\s\<close> matches.
\<close>

definition is_ws :: "jchar \<Rightarrow> bool" where
  "is_ws c \<longleftrightarrow> (9 \<le> c \<and> c \<le> 13) \<or> c = 32 \<or> c = 160 \<or> c = 5760 \<or> (8192 \<le> c \<and> c \<le> 8202)
     \<or> c = 8232 \<or> c = 8233 \<or> c = 8239 \<or> c = 8287 \<or> c = 12288 \<or> c = 65279"

definition is_digit :: "jchar \<Rightarrow> bool" where
  "is_digit c \<longleftrightarrow> 48 \<le> c \<and> c \<le> 57"

definition trim :: "jstr \<Rightarrow> jstr" where
  "trim s = rev (dropWhile is_ws (rev (dropWhile is_ws s)))"

definition starts_with :: "'a list \<Rightarrow> 'a list \<Rightarrow> bool" where
  "starts_with s p \<longleftrightarrow> take (length p) s = p"

definition ends_with :: "'a list \<Rightarrow> 'a list \<Rightarrow> bool" where
  "ends_with s p \<longleftrightarrow> starts_with (rev s) (rev p)"

text \<open>\<open>s.indexOf(p)\<close>; \<open>None\<close> stands for \<open>-1\<close>.\<close>

fun index_of :: "'a list \<Rightarrow> 'a list \<Rightarrow> nat option" where
  "index_of [] p = (if p = [] then Some 0 else None)"
| "index_of (x # xs) p =
     (if starts_with (x # xs) p then Some 0 else map_option Suc (index_of xs p))"

definition str_includes :: "'a list \<Rightarrow> 'a list \<Rightarrow> bool" where
  "str_includes s p \<longleftrightarrow> index_of s p \<noteq> None"

text \<open>\<open>s.split(c)\<close> for a one-character separator, and \<open>xs.join(sep)\<close>.\<close>

fun split_char :: "'a \<Rightarrow> 'a list \<Rightarrow> 'a list list" where
  "split_char c [] = [[]]"
| "split_char c (x # xs) =
     (if x = c then [] # split_char c xs
      else (case split_char c xs of [] \<Rightarrow> [[x]] | y # ys \<Rightarrow> (x # y) # ys))"

fun join :: "'a list \<Rightarrow> 'a list list \<Rightarrow> 'a list" where
  "join sep [] = []"
| "join sep [x] = x"
| "join sep (x # y # zs) = x @ sep @ join sep (y # zs)"

text \<open>\<open>s.split(sep)\<close> for a separator \<open>c # cs\<close> of any length.\<close>

function split_str :: "'a \<Rightarrow> 'a list \<Rightarrow> 'a list \<Rightarrow> 'a list list" where
  "split_str c cs [] = [[]]"
| "split_str c cs (x # xs) =
     (if starts_with (x # xs) (c # cs) then [] # split_str c cs (drop (length cs) xs)
      else (case split_str c cs xs of [] \<Rightarrow> [[x]] | y # ys \<Rightarrow> (x # y) # ys))"
  by pat_completeness auto
termination
  by (relation "measure (\<lambda>(c, cs, xs). length xs)") auto

text \<open>\<open>Array.from(new Set(xs))\<close>: the first occurrence of every element.\<close>

fun dedup :: "'a list \<Rightarrow> 'a list" where
  "dedup [] = []"
| "dedup (x # xs) = x # filter (\<lambda>y. y \<noteq> x) (dedup xs)"

text \<open>Decimal printing of a natural number and its reading (\<open>parseInt(s, 10)\<close> on digits).\<close>

fun nat_str :: "nat \<Rightarrow> jstr" where
  "nat_str n = (if n < 10 then [48 + n] else nat_str (n div 10) @ [48 + n mod 10])"

declare nat_str.simps [simp del]

definition digits_val :: "jstr \<Rightarrow> nat" where
  "digits_val s = foldl (\<lambda>a c. a * 10 + (c - 48)) 0 s"

definition int_str :: "int \<Rightarrow> jstr" where
  "int_str i = (if i < 0 then js ''-'' @ nat_str (nat (- i)) else nat_str (nat i))"

section \<open>Lemmas\<close>

subsection \<open>Literals\<close>

lemma js_inj [simp]: "js a = js b \<longleftrightarrow> a = b"
proof -
  have "inj (of_char :: char \<Rightarrow> nat)" by (rule injI) simp
  then show ?thesis by (simp add: js_def)
qed

subsection \<open>Trimming\<close>

lemma dropWhile_last_id: "xs \<noteq> [] \<Longrightarrow> \<not> P (hd xs) \<Longrightarrow> dropWhile P xs = xs"
  by (cases xs) auto

lemma dropWhile_hd_not: "dropWhile P xs \<noteq> [] \<Longrightarrow> \<not> P (hd (dropWhile P xs))"
  by (induction xs) auto

text \<open>
  Removing the characters of a class at both ends.  The browser and the server each have such a
  function, for different classes.
\<close>

locale trimming =
  fixes space :: "'a \<Rightarrow> bool" and strip :: "'a list \<Rightarrow> 'a list"
  assumes strip_eq: "strip s = rev (dropWhile space (rev (dropWhile space s)))"
begin

lemma strip_fixed: "s = [] \<or> \<not> space (hd s) \<and> \<not> space (last s) \<Longrightarrow> strip s = s"
  by (cases "s = []") (auto simp: strip_eq dropWhile_last_id hd_rev)

lemma strip_Nil: "strip [] = []"
  by (simp add: strip_eq)

lemma strip_blank: "strip s = [] \<longleftrightarrow> (\<forall>c \<in> set s. space c)"
proof
  assume "strip s = []"
  then have "\<forall>c \<in> set (dropWhile space s). space c" by (simp add: strip_eq)
  then have "dropWhile space s = []" by (metis dropWhile_hd_not list.set_sel(1))
  then show "\<forall>c \<in> set s. space c" by simp
next
  assume "\<forall>c \<in> set s. space c"
  then show "strip s = []" by (auto simp: strip_eq dest: set_dropWhileD)
qed

lemma strip_ends: "strip s = [] \<or> \<not> space (hd (strip s)) \<and> \<not> space (last (strip s))"
proof (cases "strip s = []")
  case False
  let ?a = "dropWhile space s"
  let ?b = "dropWhile space (rev ?a)"
  have b: "?b \<noteq> []" using False by (simp add: strip_eq)
  have a: "?a \<noteq> []"
  proof
    assume "?a = []"
    then have "?b = []" by (simp only: rev.simps dropWhile.simps)
    with b show False by blast
  qed
  obtain p where p: "rev ?a = p @ ?b" by (metis takeWhile_dropWhile_id)
  then have "?a = rev ?b @ rev p" by (metis rev_append rev_rev_ident)
  then have "hd (strip s) = hd ?a" using b by (metis hd_append2 rev_is_Nil_conv strip_eq)
  then show ?thesis
    using dropWhile_hd_not [OF a] dropWhile_hd_not [OF b] b by (simp add: strip_eq last_rev)
qed simp

lemma strip_strip: "strip (strip s) = strip s"
  using strip_fixed strip_ends by blast

lemma set_strip: "set (strip s) \<subseteq> set s"
  unfolding strip_eq by (metis set_dropWhileD set_rev subsetI)

lemma length_strip: "length (strip s) \<le> length s"
  unfolding strip_eq by (metis length_dropWhile_le length_rev order_trans)

end

interpretation jtrim: trimming is_ws trim
  by unfold_locales (rule trim_def)

lemmas set_trim = jtrim.set_strip and trim_eq_Nil = jtrim.strip_blank and length_trim = jtrim.length_strip

declare jtrim.strip_Nil [simp] and jtrim.strip_strip [simp]

lemmas trim_trim = jtrim.strip_strip and trim_Nil = jtrim.strip_Nil

definition trimmed :: "jstr \<Rightarrow> bool" where
  "trimmed s \<longleftrightarrow> s = [] \<or> (\<not> is_ws (hd s) \<and> \<not> is_ws (last s))"

lemma trim_id: "trimmed s \<Longrightarrow> trim s = s"
  by (simp add: trimmed_def jtrim.strip_fixed)

lemma trimmed_trim [simp]: "trimmed (trim s)"
  using jtrim.strip_ends [of s] by (auto simp: trimmed_def)

lemma trimmed_no_ws: "list_all (\<lambda>c. \<not> is_ws c) s \<Longrightarrow> trimmed s"
  by (cases "s = []") (auto simp: trimmed_def list_all_iff)

subsection \<open>Prefixes, search\<close>

lemma starts_with_append [simp]: "starts_with (p @ s) p"
  by (simp add: starts_with_def)

lemma starts_with_Nil [simp]: "starts_with s []"
  by (simp add: starts_with_def)

lemma starts_with_Nil2 [simp]: "starts_with [] p \<longleftrightarrow> p = []"
  by (auto simp: starts_with_def)

lemma starts_with_Cons [simp]:
  "starts_with (x # xs) (y # ys) \<longleftrightarrow> x = y \<and> starts_with xs ys"
  by (auto simp: starts_with_def)

lemma starts_with_iff: "starts_with s p \<longleftrightarrow> (\<exists>t. s = p @ t)"
  by (metis append_eq_conv_conj append_take_drop_id starts_with_def)

lemma starts_with_same_append [simp]:
  "starts_with (p @ s) (p @ q) \<longleftrightarrow> starts_with s q"
  by (induction p) auto

lemma ends_with_iff: "ends_with s p \<longleftrightarrow> (\<exists>t. s = t @ p)"
  by (metis ends_with_def rev_append rev_rev_ident starts_with_iff)

lemma index_of_Some:
  "index_of s p = Some i \<Longrightarrow> i \<le> length s \<and> starts_with (drop i s) p \<and>
     (\<forall>j < i. \<not> starts_with (drop j s) p)"
proof (induction s arbitrary: i)
  case Nil
  then show ?case by (auto split: if_splits)
next
  case (Cons x xs)
  show ?case
  proof (cases "starts_with (x # xs) p")
    case True
    with Cons.prems show ?thesis by simp
  next
    case False
    with Cons.prems obtain k where k: "index_of xs p = Some k" "i = Suc k"
      by auto
    from Cons.IH [OF k(1)] k(2) False show ?thesis
      by (auto simp: less_Suc_eq_0_disj)
  qed
qed

lemma index_of_None: "index_of s p = None \<longleftrightarrow> (\<forall>j \<le> length s. \<not> starts_with (drop j s) p)"
proof (induction s)
  case Nil
  then show ?case by auto
next
  case (Cons x xs)
  have "(\<forall>j \<le> length (x # xs). \<not> starts_with (drop j (x # xs)) p) \<longleftrightarrow>
        \<not> starts_with (x # xs) p \<and> (\<forall>j \<le> length xs. \<not> starts_with (drop j xs) p)"
    by (metis Suc_le_mono drop0 drop_Suc_Cons le0 length_Cons not0_implies_Suc)
  then show ?case using Cons.IH by simp
qed

lemma str_includes_iff: "str_includes s p \<longleftrightarrow> (\<exists>a b. s = a @ p @ b)"
proof
  assume "str_includes s p"
  then obtain i where "index_of s p = Some i" by (auto simp: str_includes_def)
  then have "starts_with (drop i s) p" using index_of_Some by blast
  then obtain b where "drop i s = p @ b" by (auto simp: starts_with_iff)
  then have "s = take i s @ p @ b" by (metis append_take_drop_id)
  then show "\<exists>a b. s = a @ p @ b" by blast
next
  assume "\<exists>a b. s = a @ p @ b"
  then obtain a b where s: "s = a @ p @ b" by blast
  then have "starts_with (drop (length a) s) p" by simp
  moreover have "length a \<le> length s" using s by simp
  ultimately show "str_includes s p" by (auto simp: str_includes_def index_of_None)
qed

subsection \<open>Splitting and joining\<close>

lemma split_char_ne [simp]: "split_char c s \<noteq> []"
  by (induction s) (auto split: list.splits)

lemma join_Cons: "xs \<noteq> [] \<Longrightarrow> join sep (x # xs) = x @ sep @ join sep xs"
  by (cases xs) auto

lemma join_split_char: "join [c] (split_char c s) = s"
proof (induction s)
  case Nil
  then show ?case by simp
next
  case (Cons x xs)
  obtain y ys where y: "split_char c xs = y # ys"
    by (meson neq_Nil_conv split_char_ne)
  show ?case
  proof (cases "x = c")
    case True
    then show ?thesis using Cons.IH by (simp add: join_Cons)
  next
    case False
    then show ?thesis using Cons.IH y by (cases ys) auto
  qed
qed

lemma set_join: "set (join sep xs) \<subseteq> set sep \<union> \<Union> (set ` set xs)"
  by (induction sep xs rule: join.induct) auto

lemma split_char_no_sep: "w \<in> set (split_char c s) \<Longrightarrow> c \<notin> set w"
proof (induction s arbitrary: w)
  case Nil
  then show ?case by simp
next
  case (Cons x xs)
  then show ?case by (fastforce split: if_splits list.splits)
qed

lemma split_char_single: "c \<notin> set s \<Longrightarrow> split_char c s = [s]"
  by (induction s) auto

lemma split_char_append: "c \<notin> set a \<Longrightarrow> split_char c (a @ c # b) = a # split_char c b"
  by (induction a) auto

lemma split_join_char:
  assumes "xs \<noteq> []" and "\<And>w. w \<in> set xs \<Longrightarrow> c \<notin> set w"
  shows "split_char c (join [c] xs) = xs"
  using assms
proof (induction "[c]" xs rule: join.induct)
  case (3 x y zs)
  then show ?case by (simp add: split_char_append)
qed (auto simp: split_char_single)

lemma set_split_char: "w \<in> set (split_char c s) \<Longrightarrow> set w \<subseteq> set s"
proof (induction s arbitrary: w)
  case Nil
  then show ?case by simp
next
  case (Cons x xs)
  then show ?case by (fastforce split: if_splits list.splits)
qed

subsection \<open>First occurrences\<close>

lemma set_dedup [simp]: "set (dedup xs) = set xs"
  by (induction xs) auto

lemma distinct_dedup [simp]: "distinct (dedup xs)"
  by (induction xs) auto

lemma filter_dedup: "filter P (dedup xs) = dedup (filter P xs)"
proof (induction xs)
  case Nil
  then show ?case by simp
next
  case (Cons x xs)
  have "filter P (filter (\<lambda>y. y \<noteq> x) (dedup xs)) = filter (\<lambda>y. y \<noteq> x) (filter P (dedup xs))"
    by (simp add: conj_commute)
  moreover have "filter (\<lambda>y. y \<noteq> x) (dedup (filter P xs)) = dedup (filter P xs)" if "\<not> P x"
    using that by (intro filter_True) auto
  ultimately show ?case using Cons.IH by simp
qed

lemma dedup_distinct: "distinct xs \<Longrightarrow> dedup xs = xs"
  by (induction xs) (auto intro: filter_True)

lemma dedup_dedup [simp]: "dedup (dedup xs) = dedup xs"
  by (rule dedup_distinct) simp

lemma dedup_Nil_iff [simp]: "dedup xs = [] \<longleftrightarrow> xs = []"
  by (cases xs) auto

lemma length_dedup_le: "length (dedup xs) \<le> length xs"
  by (induction xs) (auto intro: le_trans [OF length_filter_le])

subsection \<open>Partial maps over lists\<close>

lemma set_map_filter: "set (List.map_filter f xs) = {y. \<exists>x \<in> set xs. f x = Some y}"
  by (auto simp: List.map_filter_def) force

lemma map_filter_all: "(\<And>x. x \<in> set xs \<Longrightarrow> f x = Some (g x)) \<Longrightarrow> List.map_filter f xs = map g xs"
  by (induction xs) (auto simp: List.map_filter_def)

subsection \<open>Decimal numerals\<close>

lemma digits_val_snoc: "digits_val (s @ [c]) = digits_val s * 10 + (c - 48)"
  by (simp add: digits_val_def)

lemma digits_val_nat_str [simp]: "digits_val (nat_str n) = n"
proof (induction n rule: nat_str.induct)
  case (1 n)
  then show ?case
    by (subst nat_str.simps) (auto simp: digits_val_snoc digits_val_def)
qed

lemma nat_str_ne [simp]: "nat_str n \<noteq> []"
  by (subst nat_str.simps) simp

lemma nat_str_digits: "c \<in> set (nat_str n) \<Longrightarrow> is_digit c"
proof (induction n rule: nat_str.induct)
  case (1 n)
  show ?case
  proof (cases "n < 10")
    case True
    with "1.prems" show ?thesis by (simp add: nat_str.simps [of n] is_digit_def)
  next
    case False
    have "n mod 10 < 10" by simp
    with False 1 show ?thesis
      by (auto simp: nat_str.simps [of n] is_digit_def)
  qed
qed

lemma is_digit_not_ws: "is_digit c \<Longrightarrow> \<not> is_ws c"
  by (auto simp: is_digit_def is_ws_def)

lemma nat_str_no: "\<not> is_digit c \<Longrightarrow> c \<notin> set (nat_str n)"
  using nat_str_digits by blast

lemma nat_str_inj: "nat_str m = nat_str n \<Longrightarrow> m = n"
  by (metis digits_val_nat_str)

end
