(* ===== verification/Http_Status_Rules.thy ===== *)
theory Http_Status_Rules
  imports Js_Prelude "HOL-Library.Product_Lexorder"
begin

text \<open>
  The HTTP status code rules of the monitoring settings
  (\<open>web/default/src/lib/http-status-code-rules.ts\<close>): parsing of rule tokens,
  merging of ranges, the normalised form the settings page saves, and the
  server's matcher over the saved ranges
  (\<open>setting/operation_setting/status_code_ranges.go\<close>).  Status codes are
  natural numbers: \<open>parseInt\<close> is applied to digit strings only, and what it
  would round is above 599 and refused.
\<close>

section \<open>Model\<close>

record status_code_range =
  rg_start :: nat
  rg_end :: nat

record parsed_rules =
  ok :: bool
  ranges :: "status_code_range list"
  tokens :: "jstr list"
  normalized :: jstr
  invalidTokens :: "jstr list"

definition isNumber :: "jstr \<Rightarrow> bool" where
  "isNumber s \<longleftrightarrow> s \<noteq> [] \<and> list_all is_digit s"

definition isValidCode :: "nat \<Rightarrow> bool" where
  "isValidCode code \<longleftrightarrow> 100 \<le> code \<and> code \<le> 599"

definition parseToken :: "jstr \<Rightarrow> status_code_range option" where
  "parseToken token =
     (let cleaned = filter (\<lambda>c. \<not> is_ws c) (trim token) in
      if cleaned = [] then None
      else if str_includes cleaned (js ''-'') then
        (case split_char (ch CHR ''-'') cleaned of
           a # b # _ \<Rightarrow>
             (if \<not> isNumber a \<or> \<not> isNumber b then None
              else let start = digits_val a; stop = digits_val b in
                if \<not> isValidCode start \<or> \<not> isValidCode stop \<or> start > stop then None
                else Some \<lparr>rg_start = start, rg_end = stop\<rparr>)
         | _ \<Rightarrow> None)
      else if \<not> isNumber cleaned then None
      else let code = digits_val cleaned in
        if \<not> isValidCode code then None
        else Some \<lparr>rg_start = code, rg_end = code\<rparr>)"

text \<open>The comparator of \<open>sort\<close> is the lexicographic order on the two bounds.\<close>

definition range_key :: "status_code_range \<Rightarrow> nat \<times> nat" where
  "range_key r = (rg_start r, rg_end r)"

definition merge_step :: "status_code_range list \<Rightarrow> status_code_range \<Rightarrow> status_code_range list" where
  "merge_step merged current =
     (if merged = [] \<or> rg_start current > rg_end (last merged) + 1 then merged @ [current]
      else butlast merged @
        [(last merged)\<lparr>rg_end := max (rg_end (last merged)) (rg_end current)\<rparr>])"

definition mergeRanges :: "status_code_range list \<Rightarrow> status_code_range list" where
  "mergeRanges rs =
     (if rs = [] then [] else foldl merge_step [] (sort_key range_key rs))"

definition range_token :: "status_code_range \<Rightarrow> jstr" where
  "range_token r =
     (if rg_start r = rg_end r then nat_str (rg_start r)
      else nat_str (rg_start r) @ js ''-'' @ nat_str (rg_end r))"

definition rule_segments :: "jstr \<Rightarrow> jstr list" where
  "rule_segments raw =
     (let sanitized = map (\<lambda>c. if c = 0xFF0C then ch CHR '','' else c) raw
      in filter (\<lambda>s. s \<noteq> []) (map trim (split_char (ch CHR '','') sanitized)))"

definition parseHttpStatusCodeRules :: "jstr option \<Rightarrow> parsed_rules" where
  "parseHttpStatusCodeRules input =
     (let raw = trim (case input of None \<Rightarrow> [] | Some s \<Rightarrow> s) in
      if length raw = 0 then
        \<lparr>ok = True, ranges = [], tokens = [], normalized = [], invalidTokens = []\<rparr>
      else
        let segments = rule_segments raw;
            rs = List.map_filter parseToken segments;
            invalid = filter (\<lambda>s. parseToken s = None) segments in
        if length invalid > 0 then
          \<lparr>ok = False, ranges = [], tokens = [], normalized = raw, invalidTokens = invalid\<rparr>
        else
          let merged = mergeRanges rs; toks = map range_token merged in
          \<lparr>ok = True, ranges = merged, tokens = toks,
            normalized = join (js '','') toks, invalidTokens = []\<rparr>)"

text \<open>The server's membership test: a scan that stops at the first range above the code.\<close>

fun match_ranges :: "status_code_range list \<Rightarrow> nat \<Rightarrow> bool" where
  "match_ranges [] code = False"
| "match_ranges (r # rs) code =
     (if code < rg_start r then False
      else if code \<le> rg_end r then True
      else match_ranges rs code)"

definition shouldMatchStatusCodeRanges :: "status_code_range list \<Rightarrow> nat \<Rightarrow> bool" where
  "shouldMatchStatusCodeRanges rs code =
     (if code < 100 \<or> code > 599 then False else match_ranges rs code)"

section \<open>Specification\<close>

definition covered :: "status_code_range list \<Rightarrow> nat set" where
  "covered rs = (\<Union>r \<in> set rs. {rg_start r..rg_end r})"

definition range_ok :: "status_code_range \<Rightarrow> bool" where
  "range_ok r \<longleftrightarrow> rg_start r \<le> rg_end r"

definition code_range :: "status_code_range \<Rightarrow> bool" where
  "code_range r \<longleftrightarrow> 100 \<le> rg_start r \<and> rg_start r \<le> rg_end r \<and> rg_end r \<le> 599"

text \<open>Ascending ranges with at least one code missing between neighbours.\<close>

definition separated :: "status_code_range list \<Rightarrow> bool" where
  "separated rs \<longleftrightarrow> list_all range_ok rs \<and> sorted_wrt (\<lambda>a b. rg_end a + 1 < rg_start b) rs"

section \<open>Merging\<close>

lemma covered_simps [simp]:
  "covered [] = {}"
  "covered (r # rs) = {rg_start r..rg_end r} \<union> covered rs"
  "covered (xs @ ys) = covered xs \<union> covered ys"
  by (auto simp: covered_def)

lemma separated_append:
  "separated (xs @ ys) \<longleftrightarrow> separated xs \<and> separated ys \<and>
     (\<forall>x \<in> set xs. \<forall>y \<in> set ys. rg_end x + 1 < rg_start y)"
  by (auto simp: separated_def sorted_wrt_append)

lemma separated_Cons:
  "separated (r # rs) \<longleftrightarrow> range_ok r \<and> separated rs \<and> (\<forall>y \<in> set rs. rg_end r + 1 < rg_start y)"
  by (auto simp: separated_def)

lemma covered_update_end:
  "range_ok r \<Longrightarrow> rg_start r \<le> rg_start c \<Longrightarrow> rg_start c \<le> rg_end r + 1 \<Longrightarrow> range_ok c \<Longrightarrow>
     {rg_start r..max (rg_end r) (rg_end c)} = {rg_start r..rg_end r} \<union> {rg_start c..rg_end c}"
  by (auto simp: range_ok_def)

text \<open>One step of the reduction, when the ranges come in ascending order.\<close>

lemma merge_step_inv:
  assumes sep: "separated merged" and c: "range_ok c"
    and asc: "\<forall>r \<in> set merged. rg_start r \<le> rg_start c"
  shows "separated (merge_step merged c)"
    and "covered (merge_step merged c) = covered merged \<union> {rg_start c..rg_end c}"
    and "\<forall>r \<in> set (merge_step merged c). rg_start r \<le> rg_start c"
proof -
  have "separated (merge_step merged c) \<and>
     covered (merge_step merged c) = covered merged \<union> {rg_start c..rg_end c} \<and>
     (\<forall>r \<in> set (merge_step merged c). rg_start r \<le> rg_start c)"
  proof (cases merged rule: rev_cases)
    case Nil
    then show ?thesis using c by (simp add: merge_step_def separated_def)
  next
    case (snoc m l)
    have l: "range_ok l" "rg_start l \<le> rg_start c"
      using sep asc snoc by (auto simp: separated_append separated_Cons)
    have m: "separated m" "\<forall>x \<in> set m. rg_end x + 1 < rg_start l"
      using sep snoc by (auto simp: separated_append)
    show ?thesis
    proof (cases "rg_start c > rg_end l + 1")
      case True
      then have "\<forall>x \<in> set m. rg_end x + 1 < rg_start c"
        using m(2) l by fastforce
      with True show ?thesis
        using snoc sep c asc by (auto simp: merge_step_def separated_append separated_Cons)
    next
      case False
      have "range_ok (l\<lparr>rg_end := max (rg_end l) (rg_end c)\<rparr>)"
        using l by (auto simp: range_ok_def)
      with False show ?thesis
        using snoc m l c asc covered_update_end [OF l(1) l(2) _ c]
        by (auto simp: merge_step_def separated_append separated_Cons)
          (simp_all add: separated_def)
    qed
  qed
  then show "separated (merge_step merged c)"
    and "covered (merge_step merged c) = covered merged \<union> {rg_start c..rg_end c}"
    and "\<forall>r \<in> set (merge_step merged c). rg_start r \<le> rg_start c"
    by blast+
qed

lemma foldl_merge_step:
  assumes "separated merged" and "list_all range_ok rs"
    and "sorted (map range_key rs)"
    and "\<forall>r \<in> set merged. \<forall>c \<in> set rs. rg_start r \<le> rg_start c"
  shows "separated (foldl merge_step merged rs) \<and>
         covered (foldl merge_step merged rs) = covered merged \<union> covered rs"
  using assms
proof (induction rs arbitrary: merged)
  case Nil
  then show ?case by simp
next
  case (Cons c cs)
  have asc: "\<forall>r \<in> set merged. rg_start r \<le> rg_start c" and c: "range_ok c"
    using Cons.prems by auto
  note step = merge_step_inv [OF Cons.prems(1) c asc]
  have "\<forall>d \<in> set cs. rg_start c \<le> rg_start d"
    using Cons.prems(3) by (auto simp: range_key_def)
  then have "\<forall>r \<in> set (merge_step merged c). \<forall>d \<in> set cs. rg_start r \<le> rg_start d"
    using step(3) by fastforce
  then show ?case
    using Cons.IH [of "merge_step merged c"] step Cons.prems by auto
qed

lemma mergeRanges_spec:
  assumes "list_all range_ok rs"
  shows "separated (mergeRanges rs)" and "covered (mergeRanges rs) = covered rs"
proof -
  have "list_all range_ok (sort_key range_key rs)"
    using assms by (simp add: list_all_iff)
  moreover have "covered (sort_key range_key rs) = covered rs"
    by (simp add: covered_def)
  ultimately have "separated (mergeRanges rs) \<and> covered (mergeRanges rs) = covered rs"
    using foldl_merge_step [of "[]" "sort_key range_key rs"]
    by (auto simp: mergeRanges_def separated_def)
  then show "separated (mergeRanges rs)" and "covered (mergeRanges rs) = covered rs"
    by blast+
qed

text \<open>A separated list is determined by the codes it covers.\<close>

lemma separated_first:
  assumes "separated (r # rs)"
  shows "c \<in> covered (r # rs) \<Longrightarrow> rg_start r \<le> c"
    and "rg_start r \<in> covered (r # rs)"
    and "rg_end r + 1 \<notin> covered (r # rs)"
  using assms by (fastforce simp: separated_Cons range_ok_def covered_def)+

lemma covered_empty: "separated rs \<Longrightarrow> covered rs = {} \<longleftrightarrow> rs = []"
  by (cases rs) (auto simp: separated_Cons range_ok_def)

lemma separated_tail_cover:
  assumes "separated (r # rs)"
  shows "covered rs = {c \<in> covered (r # rs). rg_end r < c}"
  using assms by (fastforce simp: separated_Cons range_ok_def covered_def)

lemma separated_unique:
  "separated xs \<Longrightarrow> separated ys \<Longrightarrow> covered xs = covered ys \<Longrightarrow> xs = ys"
proof (induction xs arbitrary: ys)
  case Nil
  then show ?case by (metis covered_empty)
next
  case (Cons x xs)
  then obtain y ys' where ys: "ys = y # ys'"
    by (metis covered_empty list.distinct(1) neq_Nil_conv)
  note sx = Cons.prems(1) and sy = Cons.prems(2) [unfolded ys]
  note cov = Cons.prems(3) [unfolded ys]
  have s: "rg_start x = rg_start y"
    using separated_first [OF sx] separated_first [OF sy] cov by (metis le_antisym)
  have "rg_end x + 1 \<notin> covered (y # ys')" "rg_end y + 1 \<notin> covered (x # xs)"
    using separated_first(3) [OF sx] separated_first(3) [OF sy] cov by metis+
  moreover have "range_ok x" "range_ok y"
    using sx sy by (auto simp: separated_Cons)
  ultimately have e: "rg_end x = rg_end y"
    using s by (auto simp: range_ok_def)
  have "covered xs = covered ys'"
    by (simp only: separated_tail_cover [OF sx] separated_tail_cover [OF sy] cov e)
  then have "xs = ys'"
    using Cons.IH sx sy by (auto simp: separated_Cons)
  moreover have "x = y" using s e by (simp add: status_code_range.equality)
  ultimately show ?case using ys by simp
qed

subsection \<open>The interface the matcher relies on\<close>

text \<open>
  The server's scan is correct only for ranges in ascending order.  The locale
  states what it needs of a normaliser; the scan's lemma is proved against it.
\<close>

lemma match_ranges_covered: "separated rs \<Longrightarrow> match_ranges rs code \<longleftrightarrow> code \<in> covered rs"
proof (induction rs)
  case Nil
  then show ?case by simp
next
  case (Cons r rs)
  have "code \<notin> covered (r # rs)" if "code < rg_start r"
    using separated_first(1) [OF Cons.prems] that by fastforce
  then show ?case using Cons by (auto simp: separated_Cons)
qed

locale range_normaliser =
  fixes norm :: "status_code_range list \<Rightarrow> status_code_range list"
  assumes norm_separated: "list_all range_ok rs \<Longrightarrow> separated (norm rs)"
    and norm_covered: "list_all range_ok rs \<Longrightarrow> covered (norm rs) = covered rs"
begin

lemma norm_ok: "list_all range_ok rs \<Longrightarrow> list_all range_ok (norm rs)"
  using norm_separated by (simp add: separated_def)

lemma norm_canonical:
  "list_all range_ok rs \<Longrightarrow> list_all range_ok ts \<Longrightarrow>
     norm rs = norm ts \<longleftrightarrow> covered rs = covered ts"
  by (metis norm_covered norm_separated separated_unique)

lemma norm_idem: "list_all range_ok rs \<Longrightarrow> norm (norm rs) = norm rs"
  by (simp add: norm_canonical norm_ok norm_covered)

lemma norm_fixes_separated: "separated rs \<Longrightarrow> norm rs = rs"
  by (metis norm_covered norm_separated separated_def separated_unique)

lemma norm_match:
  "list_all range_ok rs \<Longrightarrow> match_ranges (norm rs) code \<longleftrightarrow> code \<in> covered rs"
  by (simp add: match_ranges_covered norm_separated norm_covered)

end

interpretation mr: range_normaliser mergeRanges
  by unfold_locales (auto simp: mergeRanges_spec)

section \<open>Tokens\<close>

lemma parseToken_code_range: "parseToken s = Some r \<Longrightarrow> code_range r"
  by (auto simp: parseToken_def Let_def isValidCode_def code_range_def
      split: if_splits list.splits)

lemma code_range_ok: "code_range r \<Longrightarrow> range_ok r"
  by (simp add: code_range_def range_ok_def)

lemma digits_no_ws: "list_all is_digit s \<Longrightarrow> filter (\<lambda>c. \<not> is_ws c) s = s"
  by (auto simp: list_all_iff is_digit_not_ws intro: filter_True)

lemma isNumber_nat_str [simp]: "isNumber (nat_str n)"
  by (auto simp: isNumber_def list_all_iff nat_str_digits)

lemma range_token_chars: "c \<in> set (range_token r) \<Longrightarrow> is_digit c \<or> c = 45"
  by (auto simp: range_token_def js_lit nat_str_digits split: if_splits)

lemma range_token_no_ws: "list_all (\<lambda>c. \<not> is_ws c) (range_token r)"
proof -
  have "\<not> is_ws c" if "c \<in> set (range_token r)" for c
    using range_token_chars [OF that] is_digit_not_ws by (auto simp: is_ws_def [of 45])
  then show ?thesis by (simp add: list_all_iff)
qed

lemma range_token_clean:
  "trim (range_token r) = range_token r"
  "filter (\<lambda>c. \<not> is_ws c) (range_token r) = range_token r"
  using range_token_no_ws [of r]
  by (auto simp: trim_id trimmed_no_ws list_all_iff intro: filter_True)

lemma range_token_ne [simp]: "range_token r \<noteq> []"
  by (simp add: range_token_def)

lemma range_token_no_comma: "44 \<notin> set (range_token r)" "0xFF0C \<notin> set (range_token r)"
  using range_token_chars [where c = 44 and r = r] range_token_chars [where c = "0xFF0C" and r = r]
  by (auto simp: is_digit_def)

text \<open>Printing a range and reading the token back.\<close>

lemma parseToken_range_token: "code_range r \<Longrightarrow> parseToken (range_token r) = Some r"
proof -
  assume r: "code_range r"
  have n: "45 \<notin> set (nat_str n)" for n
    by (rule nat_str_no) (simp add: is_digit_def)
  show ?thesis
  proof (cases "rg_start r = rg_end r")
    case True
    have "\<not> str_includes (range_token r) (js ''-'')"
      using True n [of "rg_start r"]
      by (auto simp: str_includes_iff range_token_def js_lit dest: arg_cong [where f = set])
    then show ?thesis
      using True r by (simp add: parseToken_def range_token_clean Let_def)
        (simp add: range_token_def isValidCode_def code_range_def)
  next
    case False
    have i: "str_includes (range_token r) (js ''-'')"
      using False by (auto simp: str_includes_iff range_token_def)
    have s: "split_char 45 (range_token r) = [nat_str (rg_start r), nat_str (rg_end r)]"
      using False n by (simp add: range_token_def js_lit split_char_append split_char_single)
    show ?thesis
      using i s r by (simp add: parseToken_def range_token_clean Let_def isValidCode_def code_range_def)
  qed
qed

section \<open>Whole rule strings\<close>

lemma mergeRanges_code_range:
  assumes "list_all code_range rs"
  shows "list_all code_range (mergeRanges rs)"
proof -
  have ok: "list_all range_ok rs" using assms by (auto simp: list_all_iff code_range_ok)
  have "100 \<le> rg_start r \<and> rg_start r \<le> rg_end r \<and> rg_end r \<le> 599" if r: "r \<in> set (mergeRanges rs)" for r
  proof -
    have rr: "range_ok r" using mr.norm_ok [OF ok] r by (simp add: list_all_iff)
    then have "rg_start r \<in> covered (mergeRanges rs)" "rg_end r \<in> covered (mergeRanges rs)"
      using r by (auto simp: covered_def range_ok_def)
    then have "rg_start r \<in> covered rs" "rg_end r \<in> covered rs"
      by (simp_all only: mr.norm_covered [OF ok])
    then show ?thesis
      using assms rr by (auto simp: covered_def list_all_iff code_range_def range_ok_def)
  qed
  then show ?thesis by (simp add: list_all_iff code_range_def)
qed

lemma parsed_code_ranges: "list_all code_range (List.map_filter parseToken segs)"
  by (auto simp: list_all_iff set_map_filter parseToken_code_range)

lemma rule_segments_tokens:
  "rs \<noteq> [] \<Longrightarrow> rule_segments (join (js '','') (map range_token rs)) = map range_token rs"
proof -
  assume ne: "rs \<noteq> []"
  let ?s = "join (js '','') (map range_token rs)"
  have "0xFF0C \<notin> set ?s"
    using set_join [of "js '',''" "map range_token rs"] range_token_no_comma(2)
    by (fastforce simp: js_lit)
  then have san: "map (\<lambda>c. if c = 0xFF0C then ch CHR '','' else c) ?s = ?s"
    by (intro map_idI) auto
  have "split_char 44 ?s = map range_token rs"
    using ne range_token_no_comma(1) split_join_char [of "map range_token rs" 44]
    by (auto simp: js_lit)
  then show ?thesis
    unfolding rule_segments_def san Let_def
    by (simp add: range_token_clean o_def filter_map)
qed

lemma join_tokens_trimmed: "trim (join (js '','') (map range_token rs)) = join (js '','') (map range_token rs)"
proof -
  have "\<not> is_ws c" if "c \<in> set (join (js '','') (map range_token rs))" for c
  proof -
    have "c = 44 \<or> (\<exists>r. c \<in> set (range_token r))"
      using that set_join [of "js '',''" "map range_token rs"] by (auto simp: js_lit)
    then show ?thesis
      using range_token_no_ws by (auto simp: list_all_iff is_ws_def [of 44])
  qed
  then show ?thesis by (intro trim_id trimmed_no_ws) (simp add: list_all_iff)
qed

lemma join_tokens_ne: "rs \<noteq> [] \<Longrightarrow> join (js '','') (map range_token rs) \<noteq> []"
  by (cases rs rule: remdups_adj.cases) auto

text \<open>The parser on the string it printed for a separated list of ranges.\<close>

lemma parse_printed:
  assumes "separated rs" and "list_all code_range rs"
  shows "parseHttpStatusCodeRules (Some (join (js '','') (map range_token rs))) =
     \<lparr>ok = True, ranges = rs, tokens = map range_token rs,
       normalized = join (js '','') (map range_token rs), invalidTokens = []\<rparr>"
proof (cases "rs = []")
  case True
  then show ?thesis by (simp add: parseHttpStatusCodeRules_def)
next
  case False
  have p: "parseToken (range_token r) = Some r" if "r \<in> set rs" for r
    using assms(2) that by (simp add: list_all_iff parseToken_range_token)
  then have "List.map_filter parseToken (map range_token rs) = rs"
    by (induction rs) (auto simp: List.map_filter_def)
  moreover have "filter (\<lambda>s. parseToken s = None) (map range_token rs) = []"
    using p by (auto simp: filter_empty_conv)
  ultimately show ?thesis
    using False by (simp add: parseHttpStatusCodeRules_def Let_def join_tokens_trimmed
        join_tokens_ne rule_segments_tokens mr.norm_fixes_separated [OF assms(1)])
qed

section \<open>Properties\<close>

text \<open>The codes a rule string names: those of its segments that are tokens.\<close>

definition named_codes :: "jstr \<Rightarrow> nat set" where
  "named_codes s = {code. \<exists>seg \<in> set (rule_segments (trim s)). \<exists>r. parseToken seg = Some r \<and>
     rg_start r \<le> code \<and> code \<le> rg_end r}"

lemma named_codes_covered: "named_codes s = covered (List.map_filter parseToken (rule_segments (trim s)))"
  unfolding named_codes_def covered_def set_map_filter by fastforce

lemma rule_segments_Nil [simp]: "rule_segments [] = []"
  by (simp add: rule_segments_def)

lemma parsed_range_ok: "list_all range_ok (List.map_filter parseToken segs)"
  using parsed_code_ranges code_range_ok by (auto simp: list_all_iff)

lemma parse_ok_ranges:
  "ok (parseHttpStatusCodeRules (Some s)) \<Longrightarrow>
     ranges (parseHttpStatusCodeRules (Some s)) =
       mergeRanges (List.map_filter parseToken (rule_segments (trim s)))"
  by (auto simp: parseHttpStatusCodeRules_def Let_def mergeRanges_def List.map_filter_def split: if_splits)

lemma parse_ok_fields:
  assumes "ok (parseHttpStatusCodeRules (Some s))"
  shows "tokens (parseHttpStatusCodeRules (Some s)) =
           map range_token (ranges (parseHttpStatusCodeRules (Some s)))"
    and "normalized (parseHttpStatusCodeRules (Some s)) =
           join (js '','') (map range_token (ranges (parseHttpStatusCodeRules (Some s))))"
    and "invalidTokens (parseHttpStatusCodeRules (Some s)) = []"
  using assms by (auto simp: parseHttpStatusCodeRules_def Let_def split: if_splits)

lemma parse_ok_spec:
  assumes "ok (parseHttpStatusCodeRules (Some s))"
  shows "separated (ranges (parseHttpStatusCodeRules (Some s)))"
    and "list_all code_range (ranges (parseHttpStatusCodeRules (Some s)))"
    and "covered (ranges (parseHttpStatusCodeRules (Some s))) = named_codes s"
  using mr.norm_separated [OF parsed_range_ok] mr.norm_covered [OF parsed_range_ok]
    mergeRanges_code_range [OF parsed_code_ranges]
  by (simp_all add: parse_ok_ranges [OF assms] named_codes_covered)

text \<open>C15: A rule string is accepted exactly when each of its segments is a token.
  The accepted ranges are then in ascending order, never touch or overlap, lie
  within 100 to 599, and cover exactly the codes the tokens name.\<close>

theorem parseHttpStatusCodeRules_correct:
  "(ok (parseHttpStatusCodeRules (Some s)) \<longleftrightarrow>
      (\<forall>seg \<in> set (rule_segments (trim s)). parseToken seg \<noteq> None)) \<and>
   (ok (parseHttpStatusCodeRules (Some s)) \<longrightarrow>
      separated (ranges (parseHttpStatusCodeRules (Some s))) \<and>
      list_all code_range (ranges (parseHttpStatusCodeRules (Some s))) \<and>
      covered (ranges (parseHttpStatusCodeRules (Some s))) = named_codes s)"
  using parse_ok_spec [of s]
  by (auto simp: parseHttpStatusCodeRules_def Let_def filter_empty_conv)

theorem parseHttpStatusCodeRules_correct_witness:
  "ok (parseHttpStatusCodeRules (Some (js ''503, 401 ,500-502''))) \<and>
   separated (ranges (parseHttpStatusCodeRules (Some (js ''503, 401 ,500-502''))))"
proof -
  have "ok (parseHttpStatusCodeRules (Some (js ''503, 401 ,500-502'')))"
    by code_simp
  then show ?thesis
    using parseHttpStatusCodeRules_correct [of "js ''503, 401 ,500-502''"] by blast
qed

text \<open>Normalising is idempotent: reading back the saved form of an accepted rule
  string gives the same result, field by field.\<close>

lemma normalized_roundtrip:
  assumes "ok (parseHttpStatusCodeRules (Some s))"
  shows "parseHttpStatusCodeRules (Some (normalized (parseHttpStatusCodeRules (Some s)))) =
         parseHttpStatusCodeRules (Some s)"
  unfolding parse_ok_fields(2) [OF assms] parse_printed [OF parse_ok_spec(1,2) [OF assms]]
  by (rule parsed_rules.equality) (use assms in \<open>simp_all add: parse_ok_fields\<close>)

text \<open>C17: The saved form is canonical: two accepted rule strings are saved as the same
  text exactly when they name the same status codes.\<close>

theorem normalized_canonical:
  assumes "ok (parseHttpStatusCodeRules (Some s))" and "ok (parseHttpStatusCodeRules (Some t))"
  shows "normalized (parseHttpStatusCodeRules (Some s)) = normalized (parseHttpStatusCodeRules (Some t))
     \<longleftrightarrow> named_codes s = named_codes t"
proof -
  have "normalized (parseHttpStatusCodeRules (Some s)) = normalized (parseHttpStatusCodeRules (Some t))
     \<longleftrightarrow> ranges (parseHttpStatusCodeRules (Some s)) = ranges (parseHttpStatusCodeRules (Some t))"
    unfolding parse_ok_fields(2) [OF assms(1)] parse_ok_fields(2) [OF assms(2)]
    using parse_printed [OF parse_ok_spec(1,2) [OF assms(1)]]
      parse_printed [OF parse_ok_spec(1,2) [OF assms(2)]]
    by (metis parsed_rules.select_convs(2))
  then show ?thesis
    using parse_ok_spec [OF assms(1)] parse_ok_spec [OF assms(2)] by (metis separated_unique)
qed

theorem normalized_canonical_witness:
  "named_codes (js ''500-502,503'') = named_codes (js ''500-501, 502-503'')"
proof -
  have "ok (parseHttpStatusCodeRules (Some (js ''500-502,503'')))"
    and "ok (parseHttpStatusCodeRules (Some (js ''500-501, 502-503'')))"
    and "normalized (parseHttpStatusCodeRules (Some (js ''500-502,503''))) =
         normalized (parseHttpStatusCodeRules (Some (js ''500-501, 502-503'')))"
    by code_simp+
  then show ?thesis using normalized_canonical by blast
qed

text \<open>C20: The server's early-exit scan over the ranges of an accepted rule string
  answers yes for exactly the codes the string names.\<close>

theorem shouldMatch_named_codes:
  assumes "ok (parseHttpStatusCodeRules (Some s))"
  shows "shouldMatchStatusCodeRanges (ranges (parseHttpStatusCodeRules (Some s))) code \<longleftrightarrow>
         code \<in> named_codes s"
proof -
  have "100 \<le> c \<and> c \<le> 599" if "c \<in> named_codes s" for c
  proof -
    obtain r where "r \<in> set (ranges (parseHttpStatusCodeRules (Some s)))"
      and "rg_start r \<le> c" "c \<le> rg_end r"
      using \<open>c \<in> named_codes s\<close> unfolding parse_ok_spec(3) [OF assms, symmetric] covered_def by auto
    moreover have "code_range r"
      using calculation(1) parse_ok_spec(2) [OF assms] by (simp add: list_all_iff)
    ultimately show ?thesis by (simp add: code_range_def)
  qed
  moreover have "match_ranges (ranges (parseHttpStatusCodeRules (Some s))) code \<longleftrightarrow> code \<in> named_codes s"
    using mr.norm_match [OF parsed_range_ok] named_codes_covered parse_ok_ranges [OF assms] by simp
  ultimately show ?thesis
    unfolding shouldMatchStatusCodeRanges_def by (metis linorder_not_le)
qed

theorem shouldMatch_named_codes_witness:
  "502 \<in> named_codes (js ''503, 401 ,500-502'') \<and> 404 \<notin> named_codes (js ''503, 401 ,500-502'')"
proof -
  have *: "ok (parseHttpStatusCodeRules (Some (js ''503, 401 ,500-502'')))"
    and "shouldMatchStatusCodeRanges (ranges (parseHttpStatusCodeRules (Some (js ''503, 401 ,500-502'')))) 502"
    and "\<not> shouldMatchStatusCodeRanges (ranges (parseHttpStatusCodeRules (Some (js ''503, 401 ,500-502'')))) 404"
    by code_simp+
  then show ?thesis using shouldMatch_named_codes [OF *] by blast
qed

text \<open>Everything after a second hyphen of a token is dropped without an error:
  \<open>200-300-400\<close> is read as 200 to 300, although the server refuses such a token.\<close>

lemma parseToken_ignores_third_part:
  "isNumber a \<Longrightarrow> isNumber b \<Longrightarrow> list_all (\<lambda>c. \<not> is_ws c) rest \<Longrightarrow>
     parseToken (a @ js ''-'' @ b @ js ''-'' @ rest) = parseToken (a @ js ''-'' @ b)"
proof -
  assume a: "isNumber a" and b: "isNumber b" and r: "list_all (\<lambda>c. \<not> is_ws c) rest"
  have nw: "list_all (\<lambda>c. \<not> is_ws c) a" "list_all (\<lambda>c. \<not> is_ws c) b"
    using a b by (auto simp: isNumber_def list_all_iff is_digit_not_ws)
  have nh: "45 \<notin> set a" "45 \<notin> set b"
    using a b by (auto simp: isNumber_def list_all_iff is_digit_def)
  have clean: "filter (\<lambda>c. \<not> is_ws c) (trim s) = s" if "list_all (\<lambda>c. \<not> is_ws c) s" for s
    using that by (simp add: trim_id trimmed_no_ws) (auto simp: list_all_iff intro: filter_True)
  have hy: "\<not> is_ws 45" by (simp add: is_ws_def)
  have 1: "filter (\<lambda>c. \<not> is_ws c) (trim (a @ js ''-'' @ b @ js ''-'' @ rest)) = a @ js ''-'' @ b @ js ''-'' @ rest"
    by (rule clean) (use nw r hy in \<open>auto simp: js_lit list_all_iff\<close>)
  have 2: "filter (\<lambda>c. \<not> is_ws c) (trim (a @ js ''-'' @ b)) = a @ js ''-'' @ b"
    by (rule clean) (use nw hy in \<open>auto simp: js_lit list_all_iff\<close>)
  have i: "str_includes (a @ js ''-'' @ x) (js ''-'')" for x
    by (auto simp: str_includes_iff)
  show ?thesis
    unfolding parseToken_def 1 2 Let_def
    using i nh by (simp add: js_lit split_char_append split_char_single)
qed

end
