(* ===== verification/Js_Regex.thy ===== *)
theory Js_Regex
  imports Js_Prelude
begin

text \<open>
  The regular expressions of ECMAScript that the modelled code uses, as data, and
  their backtracking matcher.  A pattern of the source is written down
  constructor by constructor; \<open>rmatch\<close> returns all the ways a pattern can match
  at a position, in the order in which the backtracking matcher of ECMA-262
  tries them, so the match JavaScript reports is the first of the list.

  A position is the text before it, reversed, and the text after it.  Captures are
  an association list with the latest binding first.  No pattern of the source has
  a capture group under a repetition, so captures are never reset, and every
  \<open>r?\<close> of the source has an \<open>r\<close> that cannot match the empty string, so it is
  \<open>Alt r Eps\<close>.
\<close>

section \<open>Patterns and matcher\<close>

datatype rx =
    Lit jstr
  | Cls "jchar \<Rightarrow> bool"
  | Seq rx rx
  | Alt rx rx
  | Star rx
  | Cap nat rx
  | Bref nat
  | Bos
  | Eos
  | WordB

type_synonym caps = "(nat \<times> jstr) list"
type_synonym mstate = "jstr \<times> jstr \<times> caps"

text \<open>Greedy repetition; an iteration that consumes nothing is refused.\<close>

fun star_iter :: "(jstr \<Rightarrow> jstr \<Rightarrow> caps \<Rightarrow> mstate list) \<Rightarrow> nat \<Rightarrow> jstr \<Rightarrow> jstr \<Rightarrow> caps \<Rightarrow> mstate list" where
  "star_iter f 0 pre s c = [(pre, s, c)]"
| "star_iter f (Suc n) pre s c =
     concat (map (\<lambda>(pre', s', c'). if length s' < length s then star_iter f n pre' s' c' else [])
       (f pre s c)) @ [(pre, s, c)]"

definition is_word_char :: "jchar \<Rightarrow> bool" where
  "is_word_char x \<longleftrightarrow> (48 \<le> x \<and> x \<le> 57) \<or> (65 \<le> x \<and> x \<le> 90) \<or> x = 95 \<or> (97 \<le> x \<and> x \<le> 122)"

definition hd_word :: "jstr \<Rightarrow> bool" where
  "hd_word s = (case s of [] \<Rightarrow> False | x # _ \<Rightarrow> is_word_char x)"

primrec rmatch :: "rx \<Rightarrow> jstr \<Rightarrow> jstr \<Rightarrow> caps \<Rightarrow> mstate list" where
  "rmatch (Lit w) pre s c =
     (if starts_with s w then [(rev w @ pre, drop (length w) s, c)] else [])"
| "rmatch (Cls P) pre s c =
     (case s of [] \<Rightarrow> [] | x # xs \<Rightarrow> if P x then [(x # pre, xs, c)] else [])"
| "rmatch (Seq r1 r2) pre s c =
     concat (map (\<lambda>(pre', s', c'). rmatch r2 pre' s' c') (rmatch r1 pre s c))"
| "rmatch (Alt r1 r2) pre s c = rmatch r1 pre s c @ rmatch r2 pre s c"
| "rmatch (Star r) pre s c = star_iter (rmatch r) (length s) pre s c"
| "rmatch (Cap i r) pre s c =
     map (\<lambda>(pre', s', c'). (pre', s', (i, take (length s - length s') s) # c')) (rmatch r pre s c)"
| "rmatch (Bref i) pre s c =
     (case map_of c i of None \<Rightarrow> [(pre, s, c)]
      | Some w \<Rightarrow> if starts_with s w then [(rev w @ pre, drop (length w) s, c)] else [])"
| "rmatch Bos pre s c = (if pre = [] then [(pre, s, c)] else [])"
| "rmatch Eos pre s c = (if s = [] then [(pre, s, c)] else [])"
| "rmatch WordB pre s c = (if hd_word pre \<noteq> hd_word s then [(pre, s, c)] else [])"

definition Eps :: rx where
  "Eps = Lit []"

definition seqs :: "rx list \<Rightarrow> rx" where
  "seqs rs = foldr Seq rs Eps"

fun alts :: "rx list \<Rightarrow> rx" where
  "alts [] = Cls (\<lambda>_. False)"
| "alts [r] = r"
| "alts (r # rs) = Alt r (alts rs)"

definition cplus :: "(jchar \<Rightarrow> bool) \<Rightarrow> rx" where
  "cplus P = Seq (Cls P) (Star (Cls P))"

definition cstar :: "(jchar \<Rightarrow> bool) \<Rightarrow> rx" where
  "cstar P = Star (Cls P)"

definition opt :: "rx \<Rightarrow> rx" where
  "opt r = Alt r Eps"

text \<open>\<open>re.exec\<close> from a position: the leftmost match, as matched text, and the state after it.\<close>

fun rx_search :: "rx \<Rightarrow> jstr \<Rightarrow> jstr \<Rightarrow> (jstr \<times> mstate) option" where
  "rx_search r pre [] =
     (case rmatch r pre [] [] of [] \<Rightarrow> None | st # _ \<Rightarrow> Some ([], st))"
| "rx_search r pre (x # xs) =
     (case rmatch r pre (x # xs) [] of
        [] \<Rightarrow> rx_search r (x # pre) xs
      | (pre', s', c) # _ \<Rightarrow> Some (take (length (x # xs) - length s') (x # xs), pre', s', c))"

text \<open>\<open>s.match(re)\<close> without the global flag: the captures, and \<open>re.test(s)\<close>.\<close>

definition rx_match :: "rx \<Rightarrow> jstr \<Rightarrow> caps option" where
  "rx_match r s = map_option (\<lambda>(_, _, _, c). c) (rx_search r [] s)"

definition rx_test :: "rx \<Rightarrow> jstr \<Rightarrow> bool" where
  "rx_test r s \<longleftrightarrow> rx_search r [] s \<noteq> None"

text \<open>A group of a match; a group that took no part is undefined, here \<open>None\<close>.\<close>

definition grp :: "caps \<Rightarrow> nat \<Rightarrow> jstr" where
  "grp c i = (case map_of c i of None \<Rightarrow> [] | Some w \<Rightarrow> w)"

text \<open>The successive matches of a loop over \<open>re.exec\<close> with the global flag, for patterns
  that never match the empty string.\<close>

function rx_all :: "rx \<Rightarrow> jstr \<Rightarrow> jstr \<Rightarrow> caps list" where
  "rx_all r pre s =
     (case rx_search r pre s of
        None \<Rightarrow> []
      | Some (w, pre', s', c) \<Rightarrow> c # (if length s' < length s then rx_all r pre' s' else []))"
  by pat_completeness auto
termination
  by (relation "measure (\<lambda>(r, pre, s). length s)") auto

declare rx_all.simps [simp del]

section \<open>Character classes of the source\<close>

text \<open>\<open>[\d.eE+-]\<close>, \<open>[\d.eE+]\<close>, \<open>[^"]\<close> and the dot (which excludes line terminators).\<close>

definition num_cls :: "jchar \<Rightarrow> bool" where
  "num_cls c \<longleftrightarrow> is_digit c \<or> c = 46 \<or> c = 101 \<or> c = 69 \<or> c = 43 \<or> c = 45"

definition unum_cls :: "jchar \<Rightarrow> bool" where
  "unum_cls c \<longleftrightarrow> is_digit c \<or> c = 46 \<or> c = 101 \<or> c = 69 \<or> c = 43"

definition not_quote :: "jchar \<Rightarrow> bool" where
  "not_quote c \<longleftrightarrow> c \<noteq> 34"

definition dot_cls :: "jchar \<Rightarrow> bool" where
  "dot_cls c \<longleftrightarrow> c \<noteq> 10 \<and> c \<noteq> 13 \<and> c \<noteq> 8232 \<and> c \<noteq> 8233"

section \<open>Lemmas\<close>

named_theorems rx_step \<open>one step of matching\<close>

lemma rmatch_Eps [simp]: "rmatch Eps pre s c = [(pre, s, c)]"
  by (simp add: Eps_def)

lemma seqs_Nil [rx_step]: "rmatch (seqs []) pre s c = [(pre, s, c)]"
  by (simp add: seqs_def)

lemma seqs_Cons:
  "rmatch (seqs (r # rs)) pre s c =
     concat (map (\<lambda>(p, t, d). rmatch (seqs rs) p t d) (rmatch r pre s c))"
  by (simp add: seqs_def)

lemma seqs_Lit [rx_step]:
  "rmatch (seqs (Lit w # rs)) pre s c =
     (if starts_with s w then rmatch (seqs rs) (rev w @ pre) (drop (length w) s) c else [])"
  by (simp add: seqs_Cons)

lemma seqs_Bos [rx_step]:
  "rmatch (seqs (Bos # rs)) pre s c = (if pre = [] then rmatch (seqs rs) pre s c else [])"
  by (simp add: seqs_Cons)

lemma seqs_Eos [rx_step]:
  "rmatch (seqs (Eos # rs)) pre s c = (if s = [] then rmatch (seqs rs) pre s c else [])"
  by (simp add: seqs_Cons)

lemma seqs_Bref [rx_step]:
  "rmatch (seqs (Bref i # rs)) pre s c =
     (case map_of c i of None \<Rightarrow> rmatch (seqs rs) pre s c
      | Some w \<Rightarrow> if starts_with s w then rmatch (seqs rs) (rev w @ pre) (drop (length w) s) c else [])"
  by (simp add: seqs_Cons split: option.split)

lemma seqs_Cap_alts [rx_step]:
  "rmatch (seqs (Cap i (Lit w) # rs)) pre s c =
     (if starts_with s w then rmatch (seqs rs) (rev w @ pre) (drop (length w) s) ((i, w) # c) else [])"
  "rmatch (seqs (Cap i (Alt r1 r2) # rs)) pre s c =
     rmatch (seqs (Cap i r1 # rs)) pre s c @ rmatch (seqs (Cap i r2 # rs)) pre s c"
  by (auto simp: seqs_Cons starts_with_iff)

subsection \<open>Repetition of a class\<close>

lemma star_iter_cls:
  "length s \<le> n \<Longrightarrow> star_iter (rmatch (Cls P)) n pre s c =
     map (\<lambda>k. (rev (take k s) @ pre, drop k s, c)) (rev [0..<Suc (length (takeWhile P s))])"
proof (induction n arbitrary: pre s)
  case 0
  then show ?case by simp
next
  case (Suc n)
  show ?case
  proof (cases s)
    case Nil
    then show ?thesis by simp
  next
    case (Cons x xs)
    show ?thesis
    proof (cases "P x")
      case True
      have IH: "star_iter (rmatch (Cls P)) n (x # pre) xs c =
        map (\<lambda>k. (rev (take k xs) @ x # pre, drop k xs, c)) (rev [0..<Suc (length (takeWhile P xs))])"
        by (rule Suc.IH) (use Suc.prems Cons in simp)
      have "rev [0..<Suc (Suc m)] = map Suc (rev [0..<Suc m]) @ [0]" for m
        by (metis One_nat_def map_Suc_upt rev_map upt_conv_Cons zero_less_Suc rev.simps(2))
      moreover have "rmatch (Cls P) pre (x # xs) c = [(x # pre, xs, c)]"
        using True by simp
      ultimately show ?thesis using Cons True IH
        by (simp add: o_def del: upt_Suc rmatch.simps)
    next
      case False
      then show ?thesis using Cons by simp
    qed
  qed
qed

lemma rmatch_star_cls:
  "rmatch (Star (Cls P)) pre s c =
     map (\<lambda>k. (rev (take k s) @ pre, drop k s, c)) (rev [0..<Suc (length (takeWhile P s))])"
  by (simp add: star_iter_cls del: upt_Suc)

text \<open>
  A captured run of a class, when what follows cannot match inside the run: the
  only match takes the whole run.
\<close>

lemma concat_map_last:
  assumes "\<And>k. k < n \<Longrightarrow> f k = []"
  shows "concat (map f (rev [0..<Suc n])) = f n"
  using assms by simp

lemma rmatch_cplus:
  "P x \<Longrightarrow> rmatch (cplus P) pre (x # s) c =
     map (\<lambda>k. (rev (take k s) @ x # pre, drop k s, c)) (rev [0..<Suc (length (takeWhile P s))])"
  by (simp add: cplus_def star_iter_cls del: upt_Suc)

lemma takeWhile_run: "list_all P w \<Longrightarrow> t = [] \<or> \<not> P (hd t) \<Longrightarrow> takeWhile P (w @ t) = w"
  by (cases t) (auto simp: list_all_iff takeWhile_append)

lemma seqs_cap_run:
  assumes w: "w \<noteq> []" "list_all P w" and t: "t = [] \<or> \<not> P (hd t)"
    and inside: "\<And>u v. w = u @ v \<Longrightarrow> u \<noteq> [] \<Longrightarrow> v \<noteq> [] \<Longrightarrow>
       rmatch (seqs rs) (rev u @ pre) (v @ t) ((i, u) # c) = []"
  shows "rmatch (seqs (Cap i (cplus P) # rs)) pre (w @ t) c =
         rmatch (seqs rs) (rev w @ pre) t ((i, w) # c)"
proof -
  obtain x u where x: "w = x # u" using w(1) by (cases w) auto
  have tw: "takeWhile P (u @ t) = u" using w x t by (intro takeWhile_run) auto
  let ?f = "\<lambda>k. rmatch (seqs rs) (rev (take k (u @ t)) @ x # pre) (drop k (u @ t))
     ((i, take (Suc k) (w @ t)) # c)"
  have "?f k = []" if k: "k < length u" for k
    using inside [of "x # take k u" "drop k u"] k x by simp
  then have "concat (map ?f (rev [0..<Suc (length u)])) = ?f (length u)"
    by (rule concat_map_last)
  moreover have "rmatch (seqs (Cap i (cplus P) # rs)) pre (w @ t) c =
      concat (map ?f (rev [0..<Suc (length u)]))"
  proof -
    have "rmatch (cplus P) pre (w @ t) c =
        map (\<lambda>k. (rev (take k (u @ t)) @ x # pre, drop k (u @ t), c)) (rev [0..<Suc (length u)])"
      using rmatch_cplus [of P x pre "u @ t" c] w x tw by simp
    then have "rmatch (seqs (Cap i (cplus P) # rs)) pre (w @ t) c =
        concat (map (\<lambda>k. rmatch (seqs rs) (rev (take k (u @ t)) @ x # pre) (drop k (u @ t))
          ((i, take (length (w @ t) - length (drop k (u @ t))) (w @ t)) # c)) (rev [0..<Suc (length u)]))"
      by (simp add: seqs_Cons o_def del: upt_Suc)
    also have "\<dots> = concat (map ?f (rev [0..<Suc (length u)]))"
      by (intro arg_cong [where f = concat] map_cong refl) (auto simp: x Suc_diff_le)
    finally show ?thesis .
  qed
  ultimately show ?thesis using x by simp
qed

lemma seqs_cap_run_lit:
  assumes "w \<noteq> []" "list_all P w" "\<not> P x"
  shows "rmatch (seqs (Cap i (cplus P) # Lit (x # l) # rs)) pre (w @ x # t) c =
         rmatch (seqs (Lit (x # l) # rs)) (rev w @ pre) (x # t) ((i, w) # c)"
proof (rule seqs_cap_run)
  fix u v assume "w = u @ v" "v \<noteq> []"
  then obtain y v' where "v = y # v'" "P y" using assms(2) by (cases v) auto
  then show "rmatch (seqs (Lit (x # l) # rs)) (rev u @ pre) (v @ x # t) ((i, u) # c) = []"
    using assms(3) by (auto simp: seqs_Lit)
qed (use assms in auto)

lemma seqs_cap_run_end:
  assumes "w \<noteq> []" "list_all P w"
  shows "rmatch (seqs (Cap i (cplus P) # Eos # rs)) pre w c =
         rmatch (seqs rs) (rev w @ pre) [] ((i, w) # c)"
proof -
  have "rmatch (seqs (Cap i (cplus P) # Eos # rs)) pre (w @ []) c =
        rmatch (seqs (Eos # rs)) (rev w @ pre) [] ((i, w) # c)"
    by (rule seqs_cap_run) (use assms in \<open>auto simp: seqs_Eos\<close>)
  then show ?thesis by (simp add: seqs_Eos)
qed

lemma seqs_cap_run_none:
  "s = [] \<or> \<not> P (hd s) \<Longrightarrow> rmatch (seqs (Cap i (cplus P) # rs)) pre s c = []"
  by (cases s) (auto simp: seqs_Cons cplus_def)

lemma seqs_cap_run_stop:
  assumes "w \<noteq> []" "list_all P w" "t \<noteq> []" "\<not> P (hd t)"
  shows "rmatch (seqs (Cap i (cplus P) # Eos # rs)) pre (w @ t) c = []"
proof -
  have "rmatch (seqs (Cap i (cplus P) # Eos # rs)) pre (w @ t) c =
        rmatch (seqs (Eos # rs)) (rev w @ pre) t ((i, w) # c)"
    by (rule seqs_cap_run) (use assms in \<open>auto simp: seqs_Eos\<close>)
  then show ?thesis using assms by (simp add: seqs_Eos)
qed

subsection \<open>Anchored patterns\<close>

lemma rx_search_Bos: "pre \<noteq> [] \<Longrightarrow> rx_search (seqs (Bos # rs)) pre s = None"
  by (induction s arbitrary: pre) (auto simp: seqs_Bos)

lemma rx_match_Bos:
  "rx_match (seqs (Bos # rs)) s =
     (case rmatch (seqs rs) [] s [] of [] \<Rightarrow> None | (_, _, c) # _ \<Rightarrow> Some c)"
  by (cases s) (auto simp: rx_match_def seqs_Bos rx_search_Bos split: list.split)

lemma rx_test_match: "rx_test r s \<longleftrightarrow> rx_match r s \<noteq> None"
  by (auto simp: rx_test_def rx_match_def)

subsection \<open>The characters a pattern consumes\<close>

primrec rx_within :: "(jchar \<Rightarrow> bool) \<Rightarrow> rx \<Rightarrow> bool" where
  "rx_within P (Lit w) \<longleftrightarrow> list_all P w"
| "rx_within P (Cls Q) \<longleftrightarrow> (\<forall>x. Q x \<longrightarrow> P x)"
| "rx_within P (Seq r1 r2) \<longleftrightarrow> rx_within P r1 \<and> rx_within P r2"
| "rx_within P (Alt r1 r2) \<longleftrightarrow> rx_within P r1 \<and> rx_within P r2"
| "rx_within P (Star r) \<longleftrightarrow> rx_within P r"
| "rx_within P (Cap i r) \<longleftrightarrow> rx_within P r"
| "rx_within P (Bref i) \<longleftrightarrow> False"
| "rx_within P Bos \<longleftrightarrow> True"
| "rx_within P Eos \<longleftrightarrow> True"
| "rx_within P WordB \<longleftrightarrow> True"

definition eats :: "(jchar \<Rightarrow> bool) \<Rightarrow> jstr \<Rightarrow> jstr \<Rightarrow> bool" where
  "eats P s s' \<longleftrightarrow> (\<exists>w. s = w @ s' \<and> list_all P w)"

lemma eats_refl: "eats P s s"
  by (simp add: eats_def)

lemma eats_trans: "eats P s s' \<Longrightarrow> eats P s' s'' \<Longrightarrow> eats P s s''"
  unfolding eats_def by fastforce

lemma star_iter_eats:
  assumes "\<And>pre s c st. st \<in> set (f pre s c) \<Longrightarrow> eats P s (fst (snd st))"
    and "st \<in> set (star_iter f n pre s c)"
  shows "eats P s (fst (snd st))"
  using assms(2)
proof (induction n arbitrary: pre s c)
  case 0
  then show ?case by (simp add: eats_refl)
next
  case (Suc n)
  then show ?case using assms(1) eats_trans
    by (fastforce simp: eats_refl split: if_splits)
qed

lemma rmatch_eats: "rx_within P r \<Longrightarrow> st \<in> set (rmatch r pre s c) \<Longrightarrow> eats P s (fst (snd st))"
proof (induction r arbitrary: st pre s c)
  case (Lit w)
  then show ?case by (auto simp: eats_def starts_with_iff split: if_splits)
next
  case (Cls Q)
  then show ?case by (auto simp: eats_def split: list.splits if_splits)
next
  case (Seq r1 r2)
  then obtain p t d where 1: "(p, t, d) \<in> set (rmatch r1 pre s c)" and 2: "st \<in> set (rmatch r2 p t d)"
    by auto
  have "eats P s t" using Seq.IH(1) [OF _ 1] Seq.prems by simp
  moreover have "eats P t (fst (snd st))" using Seq.IH(2) [OF _ 2] Seq.prems by simp
  ultimately show ?case by (rule eats_trans)
next
  case (Star r)
  show ?case
    by (rule star_iter_eats [where f = "rmatch r" and n = "length s" and pre = pre and c = c])
      (use Star in auto)
qed (auto simp: eats_refl split: if_splits)

lemma rx_test_Bos: "rx_test (seqs (Bos # rs)) s \<longleftrightarrow> rmatch (seqs rs) [] s [] \<noteq> []"
  by (auto simp: rx_test_match rx_match_Bos split: list.split)

lemma rx_test_within:
  assumes "rx_test (seqs (Bos # rs @ [Eos])) s" and "rx_within P (seqs rs)"
  shows "list_all P s"
proof -
  have split: "st \<in> set (rmatch (seqs (rs @ [Eos])) pre s c) \<Longrightarrow>
      \<exists>st' \<in> set (rmatch (seqs rs) pre s c). fst (snd st') = []" for st pre s c
  proof (induction rs arbitrary: pre s c)
    case (Cons r rs)
    then show ?case by (fastforce simp: seqs_Cons)
  qed (simp add: seqs_Nil seqs_Eos split: if_splits)
  obtain st where "st \<in> set (rmatch (seqs (rs @ [Eos])) [] s [])"
    using assms(1) unfolding rx_test_Bos by (metis list.set_intros(1) neq_Nil_conv)
  then obtain st' where st': "st' \<in> set (rmatch (seqs rs) [] s [])" "fst (snd st') = []"
    using split by blast
  have "eats P s []" using rmatch_eats [OF assms(2) st'(1)] st'(2) by simp
  then show ?thesis by (simp add: eats_def)
qed

subsection \<open>Longest match first\<close>

lemma seqs_cap_longest:
  assumes w: "w \<noteq> []" and P: "list_all P (w @ t)"
    and longer: "\<And>u v. t = u @ v \<Longrightarrow> u \<noteq> [] \<Longrightarrow>
       rmatch (seqs rs) (rev (w @ u) @ pre) v ((i, w @ u) # c) = []"
    and hit: "rmatch (seqs rs) (rev w @ pre) t ((i, w) # c) = st # more"
  shows "\<exists>more'. rmatch (seqs (Cap i (cplus P) # rs)) pre (w @ t) c = st # more'"
proof -
  obtain x u where x: "w = x # u" using w by (cases w) auto
  let ?s = "u @ t" 
  let ?n = "length ?s"
  let ?g = "\<lambda>k. rmatch (seqs rs) (rev (take k ?s) @ x # pre) (drop k ?s) ((i, x # take k ?s) # c)"
  have Px: "P x" using P unfolding x by simp
  have tw: "takeWhile P ?s = ?s"
    using P unfolding x takeWhile_eq_all_conv by (auto simp: list_all_iff)
  have "rmatch (cplus P) pre (w @ t) c =
      map (\<lambda>k. (rev (take k ?s) @ x # pre, drop k ?s, c)) (rev [0..<Suc ?n])"
    unfolding x append_Cons by (simp only: rmatch_cplus [where P = P, OF Px] tw)
  then have "rmatch (seqs (Cap i (cplus P) # rs)) pre (w @ t) c =
      concat (map (\<lambda>k. rmatch (seqs rs) (rev (take k ?s) @ x # pre) (drop k ?s)
        ((i, take (length (w @ t) - length (drop k ?s)) (w @ t)) # c)) (rev [0..<Suc ?n]))"
    by (simp add: seqs_Cons o_def del: upt_Suc)
  also have "\<dots> = concat (map ?g (rev [0..<Suc ?n]))"
  proof -
    have "take (length (w @ t) - length (drop k ?s)) (w @ t) = x # take k ?s" if "k < Suc ?n" for k
    proof -
      have "length (w @ t) - length (drop k ?s) = Suc k"
        using that unfolding x length_drop by simp
      then show ?thesis unfolding x by (simp only: append_Cons take_Suc_Cons)
    qed
    then show ?thesis
      by (intro arg_cong [where f = concat] map_cong refl) (simp only: set_rev set_upt atLeastLessThan_iff)
  qed
  also have "rev [0..<Suc ?n] = rev [Suc (length u)..<Suc ?n] @ length u # rev [0..<length u]"
    using upt_add_eq_append [of 0 "Suc (length u)" "length t"] by simp
  also have "concat (map ?g \<dots>) = concat (map ?g (rev [Suc (length u)..<Suc ?n])) @
      ?g (length u) @ concat (map ?g (rev [0..<length u]))"
    by simp
  also have "concat (map ?g (rev [Suc (length u)..<Suc ?n])) = []"
  proof -
    have "?g k = []" if "k \<in> set (rev [Suc (length u)..<Suc ?n])" for k
      using longer [of "take (k - length u) t" "drop (k - length u) t"] that x
      by (cases "t = []") auto
    then show ?thesis by (auto simp del: upt_Suc)
  qed
  finally show ?thesis using hit x by simp
qed

subsection \<open>Repetition that is deterministic on a run\<close>

lemma star_iter_run:
  assumes "\<And>x pre s. x \<in> set w \<Longrightarrow> f pre (x # s) c = [(x # pre, s, c)]"
    and "\<And>pre. f pre t c = []" and "length (w @ t) \<le> n"
  shows "star_iter f n pre (w @ t) c =
     map (\<lambda>k. (rev (take k w) @ pre, drop k w @ t, c)) (rev [0..<Suc (length w)])"
  using assms
proof (induction w arbitrary: n pre)
  case Nil
  then show ?case by (cases n) auto
next
  case (Cons x w)
  then obtain m where m: "n = Suc m" by (cases n) auto
  have "rev [0..<Suc (Suc k)] = map Suc (rev [0..<Suc k]) @ [0]" for k
    by (metis One_nat_def map_Suc_upt rev_map upt_conv_Cons zero_less_Suc rev.simps(2))
  then show ?case using Cons.IH [of m "x # pre"] Cons.prems m
    by (simp add: o_def del: upt_Suc)
qed

lemma seqs_star_run_lit:
  assumes "\<And>x pre s. x \<in> set w \<Longrightarrow> rmatch r pre (x # s) c = [(x # pre, s, c)]"
    and "\<And>pre. rmatch r pre (q # t) c = []" and "q \<notin> set w"
  shows "rmatch (seqs (Star r # Lit [q] # rs)) pre (w @ q # t) c =
         rmatch (seqs rs) (q # rev w @ pre) t c"
proof -
  let ?f = "\<lambda>k. rmatch (seqs (Lit [q] # rs)) (rev (take k w) @ pre) (drop k w @ q # t) c"
  have "rmatch (seqs (Star r # Lit [q] # rs)) pre (w @ q # t) c =
      concat (map ?f (rev [0..<Suc (length w)]))"
    using star_iter_run [of w "rmatch r" c "q # t"] assms
    by (simp add: seqs_Cons [of "Star r"] o_def del: upt_Suc star_iter.simps)
  also have "\<dots> = ?f (length w)"
  proof (rule concat_map_last)
    fix k assume "k < length w"
    then have "drop k w = w ! k # drop (Suc k) w" "w ! k \<in> set w" by (simp_all add: Cons_nth_drop_Suc)
    then show "?f k = []" using assms(3) by (auto simp: seqs_Lit)
  qed
  finally show ?thesis by (simp add: seqs_Lit)
qed

subsection \<open>The first match\<close>

text \<open>JavaScript reports the first of the matches, so it is enough to know that one.\<close>

definition first_match :: "rx \<Rightarrow> jstr \<Rightarrow> jstr \<Rightarrow> caps \<Rightarrow> mstate \<Rightarrow> bool" where
  "first_match r pre s c st \<longleftrightarrow> (\<exists>more. rmatch r pre s c = st # more)"

lemma first_match_Lit: "first_match (Lit w) pre (w @ t) c (rev w @ pre, t, c)"
  by (simp add: first_match_def)

lemma first_match_Seq:
  "first_match r1 pre s c (p, t, d) \<Longrightarrow> first_match r2 p t d st \<Longrightarrow> first_match (Seq r1 r2) pre s c st"
  by (auto simp: first_match_def)

lemma first_match_Nil: "first_match (seqs []) pre s c (pre, s, c)"
  by (simp add: first_match_def seqs_Nil)

lemma first_match_Cons:
  "first_match r pre s c (p, t, d) \<Longrightarrow> first_match (seqs rs) p t d st \<Longrightarrow> first_match (seqs (r # rs)) pre s c st"
  by (auto simp: first_match_def seqs_Cons)

lemma first_match_Alt1: "first_match r1 pre s c st \<Longrightarrow> first_match (Alt r1 r2) pre s c st"
  by (auto simp: first_match_def)

lemma first_match_Alt2:
  "rmatch r1 pre s c = [] \<Longrightarrow> first_match r2 pre s c st \<Longrightarrow> first_match (Alt r1 r2) pre s c st"
  by (auto simp: first_match_def)

lemma first_match_opt: "first_match r pre s c st \<Longrightarrow> first_match (opt r) pre s c st"
  unfolding opt_def by (rule first_match_Alt1)

lemma first_match_opt_skip: "rmatch r pre s c = [] \<Longrightarrow> first_match (opt r) pre s c (pre, s, c)"
  by (simp add: opt_def first_match_def)

lemma first_match_Cap:
  "first_match r pre (w @ t) c (p, t, d) \<Longrightarrow> first_match (Cap i r) pre (w @ t) c (p, t, (i, w) # d)"
  by (auto simp: first_match_def)

lemma upt_rev_Suc: "rev [0..<Suc n] = n # rev [0..<n]"
  by simp

lemma first_match_cstar:
  "list_all P w \<Longrightarrow> t = [] \<or> \<not> P (hd t) \<Longrightarrow> first_match (cstar P) pre (w @ t) c (rev w @ pre, t, c)"
  using takeWhile_run [of P w t]
  unfolding first_match_def cstar_def rmatch_star_cls upt_rev_Suc by simp

lemma first_match_cplus:
  assumes "w \<noteq> []" "list_all P w" "t = [] \<or> \<not> P (hd t)"
  shows "first_match (cplus P) pre (w @ t) c (rev w @ pre, t, c)"
proof -
  obtain x u where w: "w = x # u" using assms(1) by (cases w) auto
  have "takeWhile P (u @ t) = u" using assms w by (intro takeWhile_run) auto
  then show ?thesis
    using rmatch_cplus [of P x pre "u @ t" c] assms(2) w
    unfolding first_match_def upt_rev_Suc by simp
qed

lemma star_iter_fuel:
  "length s \<le> n \<Longrightarrow> length s \<le> m \<Longrightarrow> star_iter f n pre s c = star_iter f m pre s c"
proof (induction n arbitrary: m pre s c)
  case 0
  then show ?case by (cases m) (auto simp: case_prod_beta)
next
  case (Suc n)
  show ?case
  proof (cases m)
    case 0
    then show ?thesis using Suc.prems by (auto simp: case_prod_beta)
  next
    case (Suc m')
    have "star_iter f n p t d = star_iter f m' p t d" if "length t < length s" for p t d
      using Suc.IH [of t m' p d] Suc.prems Suc that by simp
    then show ?thesis using Suc by (auto intro!: arg_cong [where f = concat] map_cong split: prod.split)
  qed
qed

lemma first_match_Star_stop: "rmatch r pre s c = [] \<Longrightarrow> first_match (Star r) pre s c (pre, s, c)"
  by (cases "length s") (simp_all add: first_match_def)

lemma first_match_Star_step:
  assumes "first_match r pre s c (p, t, d)" "length t < length s" "first_match (Star r) p t d st"
  shows "first_match (Star r) pre s c st"
proof -
  obtain n where n: "length s = Suc n" using assms(2) by (cases "length s") auto
  then have "star_iter (rmatch r) n p t d = star_iter (rmatch r) (length t) p t d"
    using assms(2) by (intro star_iter_fuel) auto
  then show ?thesis using assms n by (auto simp: first_match_def)
qed

lemma rx_search_first:
  assumes "first_match r pre (w @ t) [] (p, t, c)"
  shows "rx_search r pre (w @ t) = Some (w, p, t, c)"
proof -
  have w: "take (length (w @ t) - length t) (w @ t) = w" by simp
  obtain more where "rmatch r pre (w @ t) [] = (p, t, c) # more" using assms by (auto simp: first_match_def)
  then show ?thesis using w by (cases "w @ t") auto
qed

text \<open>Positions at which a search fails.\<close>

fun skips :: "rx \<Rightarrow> jstr \<Rightarrow> jstr \<Rightarrow> jstr \<Rightarrow> bool" where
  "skips r pre [] s \<longleftrightarrow> True"
| "skips r pre (x # u) s \<longleftrightarrow> rmatch r pre (x # u @ s) [] = [] \<and> skips r (x # pre) u s"

lemma rx_search_skips: "skips r pre u s \<Longrightarrow> rx_search r pre (u @ s) = rx_search r (rev u @ pre) s"
  by (induction u arbitrary: pre) auto

lemma rx_all_first:
  assumes "skips r pre u (w @ t)" "first_match r (rev u @ pre) (w @ t) [] (p, t, c)" "w \<noteq> []"
  shows "rx_all r pre (u @ w @ t) = c # rx_all r p t"
  using rx_search_skips [OF assms(1)] rx_search_first [OF assms(2)] assms(3)
  by (subst rx_all.simps) simp

lemma rx_all_none:
  assumes "skips r pre u []" "rmatch r (rev u @ pre) [] [] = []"
  shows "rx_all r pre u = []"
  using rx_search_skips [OF assms(1)] assms(2) by (subst rx_all.simps) simp

subsection \<open>Optional white space before a literal\<close>

lemma seqs_cstar_lit:
  assumes "list_all P w" "t = [] \<or> \<not> P (hd t)" "\<not> P x"
  shows "rmatch (seqs (cstar P # Lit (x # l) # rs)) pre (w @ t) c =
     rmatch (seqs (Lit (x # l) # rs)) (rev w @ pre) t c"
proof -
  let ?f = "\<lambda>k. rmatch (seqs (Lit (x # l) # rs)) (rev (take k (w @ t)) @ pre) (drop k (w @ t)) c"
  have "rmatch (seqs (cstar P # Lit (x # l) # rs)) pre (w @ t) c = concat (map ?f (rev [0..<Suc (length w)]))"
    unfolding cstar_def seqs_Cons [of "Star (Cls P)"] rmatch_star_cls takeWhile_run [OF assms(1,2)]
    by (simp add: o_def del: upt_Suc)
  also have "\<dots> = ?f (length w)"
  proof (rule concat_map_last)
    fix k assume "k < length w"
    then have "drop k w = w ! k # drop (Suc k) w" "P (w ! k)"
      using assms(1) by (simp_all add: Cons_nth_drop_Suc list_all_length)
    then show "?f k = []" using assms(3) \<open>k < length w\<close> by (auto simp: seqs_Lit)
  qed
  finally show ?thesis by simp
qed

end
