(* ===== verification/Js_Number.thy ===== *)
theory Js_Number
  imports Js_Prelude
begin

text \<open>
  JavaScript's \<open>number\<close>: IEEE 754 binary64 values, with round-to-nearest-even for
  every operation that can leave the format, the conversions \<open>Number(s)\<close>
  (decimal literals) and \<open>String(x)\<close> (the shortest decimal that rounds back).
  A finite value is \<open>Fin m e\<close>, which stands for \<open>m * 2 ^ e\<close> with \<open>m\<close> odd, or
  \<open>Fin 0 0\<close>; so equal values are equal terms.  The sign of zero is not kept: no
  code of the development divides by a zero or calls \<open>Object.is\<close>, and both zeros
  print as \<open>0\<close> and are falsy.
\<close>

section \<open>Values and rounding\<close>

datatype jsnum = NaN | Infty bool | Fin int int

text \<open>\<open>Infty True\<close> is minus infinity.\<close>

text \<open>
  Division of \<open>m\<close> by the largest power of two that divides it, in binary steps: a
  significand has at most 54 bits, so at most 53 trailing zeros.
\<close>

fun strip2 :: "nat list \<Rightarrow> int \<Rightarrow> int \<Rightarrow> jsnum" where
  "strip2 [] m e = Fin m e"
| "strip2 (k # ks) m e =
     (if m mod 2 ^ k = 0 then strip2 ks (m div 2 ^ k) (e + int k) else strip2 ks m e)"

definition canon :: "int \<Rightarrow> int \<Rightarrow> jsnum" where
  "canon m e = (if m = 0 then Fin 0 0 else strip2 [32, 16, 8, 4, 2, 1] m e)"

fun bit_length :: "nat \<Rightarrow> nat" where
  "bit_length n =
     (if n = 0 then 0 else if n < 65536 then Suc (bit_length (n div 2))
      else 16 + bit_length (n div 65536))"

declare bit_length.simps [simp del]

text \<open>The fraction \<open>n / d\<close> divided by \<open>2 ^ e\<close>, as a fraction of integers.\<close>

definition scale2 :: "int \<Rightarrow> int \<Rightarrow> int \<Rightarrow> int \<times> int" where
  "scale2 n d e = (if e \<ge> 0 then (n, d * 2 ^ nat e) else (n * 2 ^ nat (- e), d))"

fun frac_le1 :: "int \<times> int \<Rightarrow> bool" where
  "frac_le1 (n, d) = (d \<le> n)"

definition log_adjust :: "int \<Rightarrow> int \<times> int \<Rightarrow> int" where
  "log_adjust e f = (if frac_le1 f then e else e - 1)"

definition floor_log2_at :: "int \<Rightarrow> int \<Rightarrow> int \<Rightarrow> int" where
  "floor_log2_at n d e = log_adjust e (scale2 n d e)"

definition floor_log2 :: "int \<Rightarrow> int \<Rightarrow> int" where
  "floor_log2 n d = floor_log2_at n d (int (bit_length (nat n)) - int (bit_length (nat d)))"

text \<open>Rounding of \<open>n / d\<close> to the nearest integer, ties to even.\<close>

fun round_even :: "int \<times> int \<Rightarrow> int" where
  "round_even (n, d) =
     (if 2 * (n mod d) < d then n div d
      else if d < 2 * (n mod d) then n div d + 1
      else if even (n div d) then n div d else n div d + 1)"

definition pack :: "bool \<Rightarrow> int \<Rightarrow> int \<Rightarrow> jsnum" where
  "pack neg e m =
     (if e + int (bit_length (nat \<bar>m\<bar>)) > 1024 then Infty neg else canon m e)"

definition round_at :: "int \<Rightarrow> int \<Rightarrow> int \<Rightarrow> jsnum" where
  "round_at n d e = pack (n < 0) e (round_even (scale2 n d e))"

text \<open>The binary64 value nearest to \<open>n / d\<close>, \<open>d > 0\<close>: 53 significant bits, exponents
  down to \<open>-1074\<close>, overflow to infinity from \<open>2 ^ 1024\<close> on.\<close>

definition to_double :: "int \<Rightarrow> int \<Rightarrow> jsnum" where
  "to_double n d =
     (if n = 0 then Fin 0 0 else round_at n d (max (floor_log2 \<bar>n\<bar> d - 52) (- 1074)))"

text \<open>The binary64 value nearest to \<open>c * 10 ^ j\<close>.\<close>

definition dec_double :: "int \<Rightarrow> int \<Rightarrow> jsnum" where
  "dec_double c j =
     (if j \<ge> 0 then to_double (c * 10 ^ nat j) 1 else to_double c (10 ^ nat (- j)))"

section \<open>Operations the code uses\<close>

fun num_truthy :: "jsnum \<Rightarrow> bool" where
  "num_truthy NaN = False"
| "num_truthy (Infty _) = True"
| "num_truthy (Fin m e) = (m \<noteq> 0)"

definition or_zero :: "jsnum \<Rightarrow> jsnum" where
  "or_zero x = (if num_truthy x then x else Fin 0 0)"

fun num_isFinite :: "jsnum \<Rightarrow> bool" where
  "num_isFinite (Fin _ _) = True"
| "num_isFinite _ = False"

fun num_isInteger :: "jsnum \<Rightarrow> bool" where
  "num_isInteger (Fin m e) = (e \<ge> 0)"
| "num_isInteger _ = False"

text \<open>The numerator of \<open>m * 2 ^ e\<close> over \<open>2 ^ k\<close>, \<open>k \<le> e\<close>.\<close>

definition over2 :: "int \<Rightarrow> int \<Rightarrow> int \<Rightarrow> int" where
  "over2 m e k = m * 2 ^ nat (e - k)"

fun num_less :: "jsnum \<Rightarrow> jsnum \<Rightarrow> bool" where
  "num_less NaN _ = False"
| "num_less _ NaN = False"
| "num_less (Infty n) (Infty n') = (n \<and> \<not> n')"
| "num_less (Infty n) (Fin _ _) = n"
| "num_less (Fin _ _) (Infty n) = (\<not> n)"
| "num_less (Fin m e) (Fin m' e') = (over2 m e (min e e') < over2 m' e' (min e e'))"

text \<open>The value \<open>m * 2 ^ e\<close>, rounded.\<close>

definition bin_double :: "int \<Rightarrow> int \<Rightarrow> jsnum" where
  "bin_double m e =
     (if e \<ge> 0 then to_double (m * 2 ^ nat e) 1 else to_double m (2 ^ nat (- e)))"

fun num_add :: "jsnum \<Rightarrow> jsnum \<Rightarrow> jsnum" where
  "num_add NaN _ = NaN"
| "num_add _ NaN = NaN"
| "num_add (Infty n) (Infty n') = (if n = n' then Infty n else NaN)"
| "num_add (Infty n) (Fin _ _) = Infty n"
| "num_add (Fin _ _) (Infty n) = Infty n"
| "num_add (Fin m e) (Fin m' e') =
     bin_double (over2 m e (min e e') + over2 m' e' (min e e')) (min e e')"

fun num_mul :: "jsnum \<Rightarrow> jsnum \<Rightarrow> jsnum" where
  "num_mul NaN _ = NaN"
| "num_mul _ NaN = NaN"
| "num_mul (Infty n) (Infty n') = Infty (n \<noteq> n')"
| "num_mul (Infty n) (Fin m _) = (if m = 0 then NaN else Infty (n \<noteq> (m < 0)))"
| "num_mul (Fin m _) (Infty n) = (if m = 0 then NaN else Infty (n \<noteq> (m < 0)))"
| "num_mul (Fin m e) (Fin m' e') = bin_double (m * m') (e + e')"

fun num_div :: "jsnum \<Rightarrow> jsnum \<Rightarrow> jsnum" where
  "num_div NaN _ = NaN"
| "num_div _ NaN = NaN"
| "num_div (Infty _) (Infty _) = NaN"
| "num_div (Infty n) (Fin m _) = Infty (n \<noteq> (m < 0))"
| "num_div (Fin _ _) (Infty _) = Fin 0 0"
| "num_div (Fin m e) (Fin m' e') =
     (if m' = 0 then (if m = 0 then NaN else Infty (m < 0))
      else to_double (sgn m' * m * 2 ^ nat (e - e')) (\<bar>m'\<bar> * 2 ^ nat (e' - e)))"

section \<open>Reading decimal literals\<close>

text \<open>A leading sign, and the digits at the front.\<close>

fun take_sign :: "jstr \<Rightarrow> bool \<times> jstr" where
  "take_sign [] = (False, [])"
| "take_sign (y # ys) =
     (if y = 43 then (False, ys) else if y = 45 then (True, ys) else (False, y # ys))"

definition span_digits :: "jstr \<Rightarrow> jstr \<times> jstr" where
  "span_digits s = (takeWhile is_digit s, dropWhile is_digit s)"

definition signed :: "bool \<Rightarrow> nat \<Rightarrow> int" where
  "signed neg n = (if neg then - int n else int n)"

text \<open>An exponent part \<open>e\<close>, sign, digits; absent is exponent 0, malformed is \<open>None\<close>.\<close>

fun exp_digits :: "bool \<Rightarrow> jstr \<times> jstr \<Rightarrow> (int \<times> jstr) option" where
  "exp_digits neg (ds, r) = (if ds = [] then None else Some (signed neg (digits_val ds), r))"

fun exp_signed :: "bool \<times> jstr \<Rightarrow> (int \<times> jstr) option" where
  "exp_signed (neg, s) = exp_digits neg (span_digits s)"

fun scan_exp :: "jstr \<Rightarrow> (int \<times> jstr) option" where
  "scan_exp [] = Some (0, [])"
| "scan_exp (x # xs) =
     (if x = 101 \<or> x = 69 then exp_signed (take_sign xs) else Some (0, x # xs))"

text \<open>An unsigned decimal literal as digits and power of ten, and the rest.\<close>

fun scan_frac :: "jstr \<Rightarrow> jstr \<times> jstr" where
  "scan_frac [] = ([], [])"
| "scan_frac (x # xs) = (if x = 46 then span_digits xs else ([], x # xs))"

fun add_exp :: "nat \<Rightarrow> int \<Rightarrow> (int \<times> jstr) option \<Rightarrow> ((nat \<times> int) \<times> jstr) option" where
  "add_exp c j None = None"
| "add_exp c j (Some (ex, r)) = Some ((c, ex - j), r)"

fun scan_rest :: "jstr \<Rightarrow> jstr \<times> jstr \<Rightarrow> ((nat \<times> int) \<times> jstr) option" where
  "scan_rest ip (fp, r) =
     (if ip = [] \<and> fp = [] then None
      else add_exp (digits_val (ip @ fp)) (int (length fp)) (scan_exp r))"

fun scan_int :: "jstr \<times> jstr \<Rightarrow> ((nat \<times> int) \<times> jstr) option" where
  "scan_int (ip, r) = scan_rest ip (scan_frac r)"

definition scan_unsigned :: "jstr \<Rightarrow> ((nat \<times> int) \<times> jstr) option" where
  "scan_unsigned s = scan_int (span_digits s)"

text \<open>\<open>Number(s)\<close> for decimal literals and \<open>Infinity\<close> (the code never passes a \<open>0x\<close>,
  \<open>0o\<close> or \<open>0b\<close> literal: its patterns admit no such letter).\<close>

fun whole_num :: "bool \<Rightarrow> ((nat \<times> int) \<times> jstr) option \<Rightarrow> jsnum" where
  "whole_num neg None = NaN"
| "whole_num neg (Some ((c, j), r)) = (if r = [] then dec_double (signed neg c) j else NaN)"

fun signed_num :: "bool \<times> jstr \<Rightarrow> jsnum" where
  "signed_num (neg, u) =
     (if u = js ''Infinity'' then Infty neg else whole_num neg (scan_unsigned u))"

definition to_Number :: "jstr \<Rightarrow> jsnum" where
  "to_Number s = (if trim s = [] then Fin 0 0 else signed_num (take_sign (trim s)))"

section \<open>Printing\<close>

text \<open>The finite value \<open>m * 2 ^ e\<close> with \<open>m > 0\<close> as a fraction of integers.\<close>

definition frac :: "int \<Rightarrow> int \<Rightarrow> int \<times> int" where
  "frac m e = (if e \<ge> 0 then (m * 2 ^ nat e, 1) else (m, 2 ^ nat (- e)))"

definition scale10 :: "int \<Rightarrow> int \<Rightarrow> int \<Rightarrow> int \<times> int" where
  "scale10 n d j = (if j \<ge> 0 then (n, d * 10 ^ nat j) else (n * 10 ^ nat (- j), d))"

definition floor_log10_at :: "int \<Rightarrow> int \<Rightarrow> int \<Rightarrow> int" where
  "floor_log10_at n d e = log_adjust e (scale10 n d e)"

definition floor_log10 :: "int \<Rightarrow> int \<Rightarrow> int" where
  "floor_log10 n d =
     floor_log10_at n d (int (length (nat_str (nat n))) - int (length (nat_str (nat d))))"

text \<open>
  The digits of \<open>Number::toString\<close>: the least \<open>k\<close> for which some \<open>k\<close>-digit integer
  times a power of ten rounds to the value \<open>v = n / d\<close>, the closest one if there are
  two.  Seventeen digits always suffice for a binary64 value, so the candidates are
  \<open>1\<close> to \<open>17\<close>.
\<close>

definition digits_at :: "jsnum \<Rightarrow> int \<Rightarrow> nat \<Rightarrow> int \<Rightarrow> bool \<Rightarrow> (nat \<times> int) option" where
  "digits_at v p k f low =
     (if dec_double f (p - int k) = v \<and> (low \<or> dec_double (f + 1) (p - int k) \<noteq> v)
      then Some (nat f, p)
      else if dec_double (f + 1) (p - int k) = v
      then Some (if f + 1 = 10 ^ k then (1, p + 1) else (nat (f + 1), p))
      else None)"

fun try_digits :: "jsnum \<Rightarrow> int \<Rightarrow> nat \<Rightarrow> int \<times> int \<Rightarrow> (nat \<times> int) option" where
  "try_digits v p k (n, d) = digits_at v p k (n div d) (2 * (n mod d) \<le> d)"

fun short_digits :: "jsnum \<Rightarrow> int \<Rightarrow> int \<Rightarrow> int \<Rightarrow> nat list \<Rightarrow> nat \<times> int"
  and next_digits :: "jsnum \<Rightarrow> int \<Rightarrow> int \<Rightarrow> int \<Rightarrow> nat list \<Rightarrow> (nat \<times> int) option \<Rightarrow> nat \<times> int" where
  "short_digits v n d p [] = (0, p)"
| "short_digits v n d p (k # ks) =
     next_digits v n d p ks (try_digits v p k (scale10 n d (p - int k)))"
| "next_digits v n d p ks (Some r) = r"
| "next_digits v n d p ks None = short_digits v n d p ks"

definition exp_str :: "int \<Rightarrow> jstr" where
  "exp_str e =
     js ''e'' @ (if e < 0 then js ''-'' @ nat_str (nat (- e)) else js ''+'' @ nat_str (nat e))"

definition layout :: "jstr \<Rightarrow> int \<Rightarrow> jstr" where
  "layout ds n =
     (if int (length ds) \<le> n \<and> n \<le> 21 then ds @ replicate (nat n - length ds) 48
      else if 0 < n \<and> n \<le> 21 then take (nat n) ds @ js ''.'' @ drop (nat n) ds
      else if - 6 < n \<and> n \<le> 0 then js ''0.'' @ replicate (nat (- n)) 48 @ ds
      else if length ds = 1 then ds @ exp_str (n - 1)
      else take 1 ds @ js ''.'' @ drop 1 ds @ exp_str (n - 1))"

fun digits_layout :: "nat \<times> int \<Rightarrow> jstr" where
  "digits_layout (c, n) = layout (nat_str c) n"

fun frac_str :: "jsnum \<Rightarrow> int \<times> int \<Rightarrow> jstr" where
  "frac_str v (n, d) = digits_layout (short_digits v n d (floor_log10 n d + 1) [1..<18])"

definition pos_str :: "int \<Rightarrow> int \<Rightarrow> jstr" where
  "pos_str m e = frac_str (Fin m e) (frac m e)"

fun num_str :: "jsnum \<Rightarrow> jstr" where
  "num_str NaN = js ''NaN''"
| "num_str (Infty neg) = (if neg then js ''-Infinity'' else js ''Infinity'')"
| "num_str (Fin m e) =
     (if m = 0 then js ''0'' else if m < 0 then js ''-'' @ pos_str (- m) e else pos_str m e)"

definition num_of_nat :: "nat \<Rightarrow> jsnum" where
  "num_of_nat n = to_double (int n) 1"

end
