(* ===== verification/Js_Json.thy ===== *)
theory Js_Json
  imports Js_Number
begin

text \<open>
  JSON values, \<open>JSON.parse\<close> and \<open>JSON.stringify\<close> of ECMA-262, and the own
  properties of plain objects.  An object is the list of its properties in the order
  in which \<open>Object.keys\<close> and \<open>Object.entries\<close> enumerate them: array-index keys
  first, in ascending numeric order, then the other keys in order of creation.

  The parser takes fuel, which bounds the nesting of its calls; \<open>JSON_parse\<close> starts
  with twice the length of the text, and \<open>p_val_fuel\<close> shows that more fuel never
  changes the result.
\<close>

section \<open>Values and objects\<close>

datatype json =
    JNull
  | JBool bool
  | JNum jsnum
  | JStr jstr
  | JArr "json list"
  | JObj "(jstr \<times> json) list"

type_synonym 'v jobj = "(jstr \<times> 'v) list"

text \<open>Array-index keys: canonical decimals below \<open>2 ^ 32 - 1\<close>.\<close>

definition index_key :: "jstr \<Rightarrow> nat option" where
  "index_key s =
     (if s \<noteq> [] \<and> list_all is_digit s \<and> (s = [48] \<or> hd s \<noteq> 48) \<and> digits_val s < 4294967295
      then Some (digits_val s) else None)"

text \<open>Whether a property with index key \<open>n\<close> comes before one with key \<open>k'\<close>.\<close>

definition index_before :: "nat \<Rightarrow> jstr \<Rightarrow> bool" where
  "index_before n k' = (case index_key k' of None \<Rightarrow> True | Some n' \<Rightarrow> n < n')"

fun insert_index :: "nat \<Rightarrow> jstr \<Rightarrow> 'v \<Rightarrow> 'v jobj \<Rightarrow> 'v jobj" where
  "insert_index n k v [] = [(k, v)]"
| "insert_index n k v ((k', v') # ob) =
     (if index_before n k' then (k, v) # (k', v') # ob
      else (k', v') # insert_index n k v ob)"

fun replace_key :: "jstr \<Rightarrow> 'v \<Rightarrow> 'v jobj \<Rightarrow> 'v jobj" where
  "replace_key k v [] = []"
| "replace_key k v ((k', v') # ob) =
     (if k' = k then (k, v) # ob else (k', v') # replace_key k v ob)"

definition obj_set :: "jstr \<Rightarrow> 'v \<Rightarrow> 'v jobj \<Rightarrow> 'v jobj" where
  "obj_set k v ob =
     (if k \<in> set (map fst ob) then replace_key k v ob
      else (case index_key k of None \<Rightarrow> ob @ [(k, v)] | Some n \<Rightarrow> insert_index n k v ob))"

definition obj_get :: "'v jobj \<Rightarrow> jstr \<Rightarrow> 'v option" where
  "obj_get ob k = map_of ob k"

definition obj_delete :: "jstr \<Rightarrow> 'v jobj \<Rightarrow> 'v jobj" where
  "obj_delete k ob = filter (\<lambda>(k', _). k' \<noteq> k) ob"

definition obj_has :: "jstr \<Rightarrow> 'v jobj \<Rightarrow> bool" where
  "obj_has k ob \<longleftrightarrow> k \<in> set (map fst ob)"

definition obj_keys :: "'v jobj \<Rightarrow> jstr list" where
  "obj_keys ob = map fst ob"

text \<open>Truthiness, property access on a value (\<open>Inl TypeError\<close> on \<open>null\<close>), and \<open>===\<close> with \<open>true\<close>.\<close>

fun jtruthy :: "json \<Rightarrow> bool" where
  "jtruthy JNull = False"
| "jtruthy (JBool b) = b"
| "jtruthy (JNum x) = num_truthy x"
| "jtruthy (JStr s) = (s \<noteq> [])"
| "jtruthy (JArr _) = True"
| "jtruthy (JObj _) = True"

fun jget :: "json \<Rightarrow> jstr \<Rightarrow> js_error + json option" where
  "jget JNull k = Inl TypeError"
| "jget (JObj ob) k = Inr (obj_get ob k)"
| "jget _ k = Inr None"

definition is_object :: "json \<Rightarrow> bool" where
  "is_object v = (case v of JObj _ \<Rightarrow> True | _ \<Rightarrow> False)"

text \<open>\<open>v || d\<close>, and \<open>String(v)\<close> for objects without a \<open>toString\<close> of their own.\<close>

definition jor :: "json option \<Rightarrow> json \<Rightarrow> json" where
  "jor v d = (case v of None \<Rightarrow> d | Some w \<Rightarrow> if jtruthy w then w else d)"

fun json_str :: "json \<Rightarrow> jstr"
  and json_elem_str :: "json \<Rightarrow> jstr" where
  "json_str JNull = js ''null''"
| "json_str (JBool b) = (if b then js ''true'' else js ''false'')"
| "json_str (JNum x) = num_str x"
| "json_str (JStr s) = s"
| "json_str (JArr vs) = join (js '','') (map json_elem_str vs)"
| "json_str (JObj _) = js ''[object Object]''"
| "json_elem_str v = (if v = JNull then [] else json_str v)"

section \<open>JSON.parse\<close>

definition json_ws :: "jchar \<Rightarrow> bool" where
  "json_ws c \<longleftrightarrow> c = 9 \<or> c = 10 \<or> c = 13 \<or> c = 32"

definition skip_ws :: "jstr \<Rightarrow> jstr" where
  "skip_ws s = dropWhile json_ws s"

definition hex_val :: "jchar \<Rightarrow> nat option" where
  "hex_val c =
     (if 48 \<le> c \<and> c \<le> 57 then Some (c - 48)
      else if 65 \<le> c \<and> c \<le> 70 then Some (c - 55)
      else if 97 \<le> c \<and> c \<le> 102 then Some (c - 87) else None)"

definition hex4 :: "jchar \<Rightarrow> jchar \<Rightarrow> jchar \<Rightarrow> jchar \<Rightarrow> jchar option" where
  "hex4 a b c d =
     (case (hex_val a, hex_val b, hex_val c, hex_val d) of
        (Some w, Some x, Some y, Some z) \<Rightarrow> Some (((w * 16 + x) * 16 + y) * 16 + z)
      | _ \<Rightarrow> None)"

definition unescape :: "jchar \<Rightarrow> jchar option" where
  "unescape y =
     (if y = 34 \<or> y = 92 \<or> y = 47 then Some y
      else if y = 98 then Some 8 else if y = 102 then Some 12
      else if y = 110 then Some 10 else if y = 114 then Some 13
      else if y = 116 then Some 9 else None)"

fun push :: "jchar \<Rightarrow> (jstr \<times> jstr) option \<Rightarrow> (jstr \<times> jstr) option" where
  "push c None = None"
| "push c (Some (w, t)) = Some (c # w, t)"

fun p_str :: "jstr \<Rightarrow> (jstr \<times> jstr) option" where
  "p_str [] = None"
| "p_str (x # xs) =
     (if x = 34 then Some ([], xs)
      else if x = 92 then
        (case xs of
           [] \<Rightarrow> None
         | y # ys \<Rightarrow>
             if y = 117 then
               (case ys of
                  a # b # c # d # r \<Rightarrow>
                    (case hex4 a b c d of None \<Rightarrow> None | Some u \<Rightarrow> push u (p_str r))
                | _ \<Rightarrow> None)
             else (case unescape y of None \<Rightarrow> None | Some z \<Rightarrow> push z (p_str ys)))
      else if x < 32 then None
      else push x (p_str xs))"

text \<open>Numbers: no leading zero, a digit on both sides of the point.\<close>

fun p_num_exp :: "bool \<Rightarrow> jstr \<Rightarrow> jstr \<Rightarrow> (int \<times> jstr) option \<Rightarrow> (json \<times> jstr) option" where
  "p_num_exp neg ip fp None = None"
| "p_num_exp neg ip fp (Some (ex, r)) =
     Some (JNum (dec_double (signed neg (digits_val (ip @ fp))) (ex - int (length fp))), r)"

fun p_num_frac :: "bool \<Rightarrow> jstr \<Rightarrow> bool \<Rightarrow> jstr \<times> jstr \<Rightarrow> (json \<times> jstr) option" where
  "p_num_frac neg ip point (fp, r) =
     (if point \<and> fp = [] then None else p_num_exp neg ip fp (scan_exp r))"

fun p_num_int :: "bool \<Rightarrow> jstr \<times> jstr \<Rightarrow> (json \<times> jstr) option" where
  "p_num_int neg (ip, r) =
     (if ip = [] \<or> (hd ip = 48 \<and> length ip > 1) then None
      else p_num_frac neg ip (starts_with r [46]) (scan_frac r))"

definition p_num :: "jstr \<Rightarrow> (json \<times> jstr) option" where
  "p_num s =
     (if starts_with s [45] then p_num_int True (span_digits (drop 1 s))
      else p_num_int False (span_digits s))"

fun p_val :: "nat \<Rightarrow> jstr \<Rightarrow> (json \<times> jstr) option"
  and p_elems :: "nat \<Rightarrow> jstr \<Rightarrow> (json list \<times> jstr) option"
  and p_membs :: "nat \<Rightarrow> json jobj \<Rightarrow> jstr \<Rightarrow> (json jobj \<times> jstr) option" where
  "p_val 0 s = None"
| "p_val (Suc n) s =
     (case skip_ws s of
        [] \<Rightarrow> None
      | x # xs \<Rightarrow>
          if x = 34 then map_option (\<lambda>(w, r). (JStr w, r)) (p_str xs)
          else if x = 123 then
            (if starts_with (skip_ws xs) [125] then Some (JObj [], drop 1 (skip_ws xs))
             else map_option (\<lambda>(ob, r). (JObj ob, r)) (p_membs n [] xs))
          else if x = 91 then
            (if starts_with (skip_ws xs) [93] then Some (JArr [], drop 1 (skip_ws xs))
             else map_option (\<lambda>(vs, r). (JArr vs, r)) (p_elems n xs))
          else if starts_with (x # xs) (js ''true'') then Some (JBool True, drop 4 (x # xs))
          else if starts_with (x # xs) (js ''false'') then Some (JBool False, drop 5 (x # xs))
          else if starts_with (x # xs) (js ''null'') then Some (JNull, drop 4 (x # xs))
          else p_num (x # xs))"
| "p_elems 0 s = None"
| "p_elems (Suc n) s =
     (case p_val n s of
        None \<Rightarrow> None
      | Some (v, r) \<Rightarrow>
          (case skip_ws r of
             [] \<Rightarrow> None
           | y # ys \<Rightarrow>
               if y = 44 then map_option (\<lambda>(vs, t). (v # vs, t)) (p_elems n ys)
               else if y = 93 then Some ([v], ys)
               else None))"
| "p_membs 0 ob s = None"
| "p_membs (Suc n) ob s =
     (case skip_ws s of
        [] \<Rightarrow> None
      | q # qs \<Rightarrow>
          if q \<noteq> 34 then None
          else (case p_str qs of
             None \<Rightarrow> None
           | Some (k, r) \<Rightarrow>
               (case skip_ws r of
                  [] \<Rightarrow> None
                | c # cs \<Rightarrow>
                    if c \<noteq> 58 then None
                    else (case p_val n cs of
                       None \<Rightarrow> None
                     | Some (v, r') \<Rightarrow>
                         (case skip_ws r' of
                            [] \<Rightarrow> None
                          | y # ys \<Rightarrow>
                              if y = 44 then p_membs n (obj_set k v ob) ys
                              else if y = 125 then Some (obj_set k v ob, ys)
                              else None)))))"

definition whole :: "(json \<times> jstr) option \<Rightarrow> json option" where
  "whole r = (case r of None \<Rightarrow> None | Some (v, t) \<Rightarrow> if skip_ws t = [] then Some v else None)"

text \<open>\<open>None\<close> is the \<open>SyntaxError\<close> that \<open>JSON.parse\<close> throws.\<close>

definition JSON_parse :: "jstr \<Rightarrow> json option" where
  "JSON_parse s = whole (p_val (2 * length s + 1) s)"

section \<open>JSON.stringify\<close>

definition hex_digit :: "nat \<Rightarrow> jchar" where
  "hex_digit n = (if n < 10 then 48 + n else 87 + n)"

definition unicode_escape :: "jchar \<Rightarrow> jstr" where
  "unicode_escape c =
     [92, 117, hex_digit (c div 4096 mod 16), hex_digit (c div 256 mod 16),
      hex_digit (c div 16 mod 16), hex_digit (c mod 16)]"

definition quote_char :: "jchar \<Rightarrow> jstr" where
  "quote_char c =
     (if c = 34 then [92, 34] else if c = 92 then [92, 92]
      else if c = 8 then [92, 98] else if c = 9 then [92, 116]
      else if c = 10 then [92, 110] else if c = 12 then [92, 102]
      else if c = 13 then [92, 114]
      else if c < 32 then unicode_escape c else [c])"

definition hi_surr :: "jchar \<Rightarrow> bool" where
  "hi_surr c \<longleftrightarrow> 0xD800 \<le> c \<and> c \<le> 0xDBFF"

definition lo_surr :: "jchar \<Rightarrow> bool" where
  "lo_surr c \<longleftrightarrow> 0xDC00 \<le> c \<and> c \<le> 0xDFFF"

text \<open>Surrogate pairs are kept, lone surrogates are escaped.\<close>

fun quote_body :: "jstr \<Rightarrow> jstr" where
  "quote_body [] = []"
| "quote_body [c] = (if hi_surr c \<or> lo_surr c then unicode_escape c else quote_char c)"
| "quote_body (c # d # cs) =
     (if hi_surr c \<and> lo_surr d then c # d # quote_body cs
      else if hi_surr c \<or> lo_surr c then unicode_escape c @ quote_body (d # cs)
      else quote_char c @ quote_body (d # cs))"

definition json_quote :: "jstr \<Rightarrow> jstr" where
  "json_quote s = js ''\"'' @ quote_body s @ js ''\"''"

fun JSON_stringify :: "json \<Rightarrow> jstr" where
  "JSON_stringify JNull = js ''null''"
| "JSON_stringify (JBool b) = (if b then js ''true'' else js ''false'')"
| "JSON_stringify (JNum x) = (if num_isFinite x then num_str x else js ''null'')"
| "JSON_stringify (JStr s) = json_quote s"
| "JSON_stringify (JArr vs) = js ''['' @ join (js '','') (map JSON_stringify vs) @ js '']''"
| "JSON_stringify (JObj ob) =
     js ''{'' @ join (js '','') (map (\<lambda>(k, v). json_quote k @ js '':'' @ JSON_stringify v) ob) @ js ''}''"

section \<open>Objects\<close>

locale property_map =
  fixes get :: "'o \<Rightarrow> jstr \<Rightarrow> 'v option"
    and put :: "jstr \<Rightarrow> 'v \<Rightarrow> 'o \<Rightarrow> 'o"
    and del :: "jstr \<Rightarrow> 'o \<Rightarrow> 'o"
    and inv :: "'o \<Rightarrow> bool"
  assumes get_put: "inv ob \<Longrightarrow> get (put k v ob) = (get ob)(k \<mapsto> v)"
    and get_del: "inv ob \<Longrightarrow> get (del k ob) = (get ob)(k := None)"
    and inv_put: "inv ob \<Longrightarrow> inv (put k v ob)"
    and inv_del: "inv ob \<Longrightarrow> inv (del k ob)"
begin

fun assign :: "jstr \<times> 'v option \<Rightarrow> 'o \<Rightarrow> 'o" where
  "assign (k, Some v) ob = put k v ob"
| "assign (k, None) ob = del k ob"

lemma get_assign: "inv ob \<Longrightarrow> get (assign (k, x) ob) = (get ob)(k := x)"
  by (cases x) (simp_all add: get_put get_del)

lemma inv_assign: "inv ob \<Longrightarrow> inv (assign u ob)"
  by (cases u; cases "snd u") (auto simp: inv_put inv_del)

lemma inv_assigns: "inv ob \<Longrightarrow> inv (fold assign us ob)"
  by (induction us arbitrary: ob) (simp_all add: inv_assign)

lemma get_assigns:
  "inv ob \<Longrightarrow> get (fold assign us ob) k = (case map_of (rev us) k of None \<Rightarrow> get ob k | Some x \<Rightarrow> x)"
proof (induction us arbitrary: ob)
  case Nil
  then show ?case by simp
next
  case (Cons u us)
  obtain k' x where u: "u = (k', x)" by (cases u)
  have "get (fold assign us (assign u ob)) k =
      (case map_of (rev us) k of None \<Rightarrow> get (assign u ob) k | Some x \<Rightarrow> x)"
    using Cons by (simp add: inv_assign)
  then show ?case
    using Cons.prems by (auto simp: u get_assign map_add_def split: option.split)
qed

end

lemma fst_insert_index: "set (map fst (insert_index n k v ob)) = insert k (set (map fst ob))"
  by (induction ob rule: insert_index.induct) auto

lemma fst_replace_key: "map fst (replace_key k v ob) = map fst ob"
  by (induction ob rule: replace_key.induct) auto

lemma map_of_insert_index:
  "k \<notin> set (map fst ob) \<Longrightarrow> map_of (insert_index n k v ob) = (map_of ob)(k \<mapsto> v)"
  by (induction ob rule: insert_index.induct) (auto simp: fun_eq_iff)

lemma map_of_replace_key:
  "k \<in> set (map fst ob) \<Longrightarrow> map_of (replace_key k v ob) = (map_of ob)(k \<mapsto> v)"
proof (induction ob rule: replace_key.induct)
  case (2 k v k' v' ob)
  show ?case
  proof (cases "k' = k")
    case True
    then show ?thesis by auto
  next
    case False
    then have "k \<in> set (map fst ob)" using "2.prems" by auto
    then show ?thesis using "2.IH" [OF False] False by (auto simp: fun_eq_iff)
  qed
qed simp

lemma distinct_insert_index:
  "k \<notin> set (map fst ob) \<Longrightarrow> distinct (map fst ob) \<Longrightarrow> distinct (map fst (insert_index n k v ob))"
proof (induction ob rule: insert_index.induct)
  case (2 n k v k' v' ob)
  then show ?case using fst_insert_index [of n k v ob] by auto
qed simp

lemma obj_get_set: "obj_get (obj_set k v ob) = (obj_get ob)(k \<mapsto> v)"
proof (cases "k \<in> set (map fst ob)")
  case True
  then show ?thesis using map_of_replace_key [OF True, of v] by (simp add: obj_get_def [abs_def] obj_set_def)
next
  case False
  then have "map_of ob k = None" by (simp add: map_of_eq_None_iff)
  then have "map_of (ob @ [(k, v)]) = (map_of ob)(k \<mapsto> v)"
    by (auto simp: fun_eq_iff map_add_def split: option.split)
  then show ?thesis
    using False map_of_insert_index [OF False]
    by (auto simp: obj_get_def [abs_def] obj_set_def split: option.split)
qed

lemma obj_get_delete: "obj_get (obj_delete k ob) = (obj_get ob)(k := None)"
  by (induction ob) (auto simp: obj_get_def obj_delete_def fun_eq_iff)

lemma distinct_obj_set: "distinct (map fst ob) \<Longrightarrow> distinct (map fst (obj_set k v ob))"
  by (auto simp: obj_set_def fst_replace_key distinct_insert_index split: option.split
      simp del: map_map)

lemma distinct_obj_delete: "distinct (map fst ob) \<Longrightarrow> distinct (map fst (obj_delete k ob))"
  by (induction ob) (auto simp: obj_delete_def)

interpretation jo: property_map obj_get obj_set obj_delete "\<lambda>ob. distinct (map fst ob)"
  by unfold_locales (simp_all add: obj_get_set obj_get_delete distinct_obj_set distinct_obj_delete)

section \<open>The parser consumes its input\<close>

lemma length_skip_ws: "length (skip_ws s) \<le> length s"
  by (simp add: skip_ws_def length_dropWhile_le)

lemma skip_ws_Cons: "skip_ws s = x # xs \<Longrightarrow> length xs < length s"
  using length_skip_ws [of s] by simp

lemma p_str_shorter: "p_str s = Some (w, r) \<Longrightarrow> length r < length s"
proof (induction s arbitrary: w rule: p_str.induct)
  case 1
  then show ?case by simp
next
  case (2 x xs)
  have push: "push c q = Some (w', r) \<Longrightarrow> \<exists>w''. q = Some (w'', r)" for c q w'
    by (cases q) auto
  show ?case using 2
    by (fastforce split: if_splits list.splits option.splits dest!: push)
qed

lemma span_digits_length: "span_digits s = (ds, r) \<Longrightarrow> length s = length ds + length r"
  by (metis Pair_inject length_append span_digits_def takeWhile_dropWhile_id)

lemma scan_exp_length: "scan_exp s = Some (e, r) \<Longrightarrow> length r \<le> length s"
proof (cases s)
  case (Cons x xs)
  assume a: "scan_exp s = Some (e, r)"
  have "length (snd (take_sign xs)) \<le> length xs"
    by (cases xs) auto
  moreover obtain ds r' where sp: "span_digits (snd (take_sign xs)) = (ds, r')"
    by (metis surj_pair)
  ultimately show ?thesis
    using a Cons span_digits_length [OF sp]
    by (cases "take_sign xs") (auto split: if_splits)
qed simp

lemma scan_frac_length: "scan_frac s = (f, r) \<Longrightarrow> length r \<le> length s"
proof (cases s)
  case (Cons x xs)
  assume a: "scan_frac s = (f, r)"
  obtain ds r' where "span_digits xs = (ds, r')" by (metis surj_pair)
  then show ?thesis using a Cons span_digits_length [of xs] by (auto split: if_splits)
qed simp

lemma p_num_int_shorter: "p_num_int neg (ip, q) = Some (v, r) \<Longrightarrow> length r \<le> length q \<and> ip \<noteq> []"
proof -
  assume a: "p_num_int neg (ip, q) = Some (v, r)"
  obtain fp q' where f: "scan_frac q = (fp, q')" by (metis surj_pair)
  from a f obtain e r' where "scan_exp q' = Some (e, r')" "ip \<noteq> []" "r' = r"
    by (cases "scan_exp q'") (auto split: if_splits)
  then show ?thesis using scan_frac_length [OF f] scan_exp_length by fastforce
qed

lemma p_num_shorter: "p_num s = Some (v, r) \<Longrightarrow> length r < length s"
proof -
  assume a: "p_num s = Some (v, r)"
  obtain ip q where 1: "span_digits s = (ip, q)" by (metis surj_pair)
  obtain ip' q' where 2: "span_digits (drop 1 s) = (ip', q')" by (metis surj_pair)
  have "length r \<le> length q \<and> ip \<noteq> [] \<or> length r \<le> length q' \<and> ip' \<noteq> []"
    using a 1 2 p_num_int_shorter
    by (auto simp: p_num_def simp del: p_num_int.simps split: if_splits)
  then show ?thesis
    using span_digits_length [OF 1] span_digits_length [OF 2]
    by (auto simp: neq_Nil_conv)
qed

lemma p_shorter:
  "p_val n s = Some (v, r) \<Longrightarrow> length r < length s"
  "p_elems n s = Some (vs, r) \<Longrightarrow> length r < length s"
  "p_membs n ob s = Some (ob', r) \<Longrightarrow> length r < length s"
proof (induction n s and n s and n ob s arbitrary: v r and vs r and ob' r rule: p_val_p_elems_p_membs.induct)
  case (2 n s)
  from "2.prems" obtain x xs where x: "skip_ws s = x # xs"
    by (auto split: list.splits)
  note l = skip_ws_Cons [OF x]
  have m: "length (skip_ws xs) \<le> length xs" by (rule length_skip_ws)
  from 2 x l m show ?case
    by (fastforce split: if_splits dest: p_str_shorter p_num_shorter)
next
  case (4 n s)
  from "4.prems" obtain v q where q: "p_val n s = Some (v, q)"
    by (auto split: option.splits)
  from 4(1) [OF q] have l: "length q < length s" .
  from "4.prems" q obtain y ys where y: "skip_ws q = y # ys"
    by (auto split: list.splits)
  from 4 q y l skip_ws_Cons [OF y] show ?case
    by (fastforce split: if_splits)
next
  case (6 n ob s)
  from "6.prems" obtain qs where s1: "skip_ws s = 34 # qs"
    by (auto split: list.splits if_splits)
  from "6.prems" s1 obtain k r1 where s2: "p_str qs = Some (k, r1)"
    by (auto split: option.splits)
  from "6.prems" s1 s2 obtain cs where s3: "skip_ws r1 = 58 # cs"
    by (auto split: list.splits if_splits)
  from "6.prems" s1 s2 s3 obtain v r2 where s4: "p_val n cs = Some (v, r2)"
    by (auto split: option.splits)
  from "6.prems" s1 s2 s3 s4 obtain y ys where s5: "skip_ws r2 = y # ys"
    by (auto split: list.splits)
  have "length r2 < length cs" using 6(1) [OF s1 _ s2 _ s3] s4 by auto
  then have "length ys < length s"
    using skip_ws_Cons [OF s1] p_str_shorter [OF s2] skip_ws_Cons [OF s3] skip_ws_Cons [OF s5] by linarith
  moreover have "length r \<le> length ys"
    using "6.prems" s1 s2 s3 s4 s5 6(2) [OF s1 _ s2 _ s3 _ s4 _ s5] 
    by (fastforce split: if_splits)
  ultimately show ?case by linarith
qed auto

section \<open>Fuel\<close>

lemma p_fuel_aux:
  "(\<forall>s m. 2 * length s < n \<longrightarrow> 2 * length s < m \<longrightarrow> p_val n s = p_val m s) \<and>
   (\<forall>s m. 2 * length s + 1 < n \<longrightarrow> 2 * length s + 1 < m \<longrightarrow> p_elems n s = p_elems m s) \<and>
   (\<forall>ob s m. 2 * length s + 1 < n \<longrightarrow> 2 * length s + 1 < m \<longrightarrow> p_membs n ob s = p_membs m ob s)"
proof (induction n)
  case 0
  then show ?case by simp
next
  case (Suc n)
  then have IHv: "\<And>s m. 2 * length s < n \<Longrightarrow> 2 * length s < m \<Longrightarrow> p_val n s = p_val m s"
    and IHe: "\<And>s m. 2 * length s + 1 < n \<Longrightarrow> 2 * length s + 1 < m \<Longrightarrow> p_elems n s = p_elems m s"
    and IHm: "\<And>ob s m. 2 * length s + 1 < n \<Longrightarrow> 2 * length s + 1 < m \<Longrightarrow> p_membs n ob s = p_membs m ob s"
    by blast+
  have v: "p_val (Suc n) s = p_val m s" if h: "2 * length s < Suc n" "2 * length s < m" for s m
  proof -
    obtain m' where m: "m = Suc m'" using h by (cases m) auto
    show ?thesis
    proof (cases "skip_ws s")
      case Nil
      then show ?thesis by (simp add: m)
    next
      case (Cons x xs)
      have l: "2 * length xs + 1 < n" "2 * length xs + 1 < m'"
        using skip_ws_Cons [OF Cons] h m by linarith+
      note IHe [OF l] IHm [OF l, of "[]"]
      then show ?thesis by (simp add: m Cons)
    qed
  qed
  have e: "p_elems (Suc n) s = p_elems m s" if h: "2 * length s + 1 < Suc n" "2 * length s + 1 < m" for s m
  proof -
    obtain m' where m: "m = Suc m'" using h by (cases m) auto
    have pv: "p_val n s = p_val m' s" by (rule IHv) (use h m in auto)
    have "p_elems n ys = p_elems m' ys" if "p_val m' s = Some (w, q)" "skip_ws q = y # ys" for w q y ys
    proof -
      have "length ys + 1 < length s"
        using p_shorter(1) [OF that(1)] skip_ws_Cons [OF that(2)] by linarith
      then show ?thesis by (intro IHe) (use h m in linarith)+
    qed
    then show ?thesis by (auto simp: m pv split: option.splits list.splits)
  qed
  have b: "p_membs (Suc n) ob s = p_membs m ob s"
    if h: "2 * length s + 1 < Suc n" "2 * length s + 1 < m" for ob s m
  proof -
    obtain m' where m: "m = Suc m'" using h by (cases m) auto
    have 1: "p_val n cs = p_val m' cs"
      if "skip_ws s = q # qs" "p_str qs = Some (k, r)" "skip_ws r = c # cs" for q qs k r c cs
      using skip_ws_Cons [OF that(1)] p_str_shorter [OF that(2)] skip_ws_Cons [OF that(3)] h m
      by (intro IHv) linarith+
    have 2: "p_membs n ob' ys = p_membs m' ob' ys"
      if "skip_ws s = q # qs" "p_str qs = Some (k, r)" "skip_ws r = c # cs"
        "p_val m' cs = Some (w, r')" "skip_ws r' = y # ys" for q qs k r c cs w r' y ys ob'
      using skip_ws_Cons [OF that(1)] p_str_shorter [OF that(2)] skip_ws_Cons [OF that(3)]
        p_shorter(1) [OF that(4)] skip_ws_Cons [OF that(5)] h m
      by (intro IHm) linarith+
    show ?thesis
    proof (cases "skip_ws s")
      case s1: (Cons q qs)
      show ?thesis
      proof (cases "p_str qs")
        case s2: (Some kr)
        obtain k r where kr: "kr = (k, r)" by (cases kr)
        show ?thesis
        proof (cases "skip_ws r")
          case s3: (Cons c cs)
          note pv = 1 [OF s1 s2 [unfolded kr] s3]
          show ?thesis
          proof (cases "p_val m' cs")
            case s4: (Some wr)
            obtain w r' where wr: "wr = (w, r')" by (cases wr)
            note s4' = s4 [unfolded wr]
            show ?thesis
            proof (cases "skip_ws r'")
              case s5: (Cons y ys)
              note 2 [OF s1 s2 [unfolded kr] s3 s4' s5]
              then show ?thesis using s1 s2 kr s3 pv s4' s5 m by simp
            qed (use s1 s2 kr s3 pv s4' m in simp)
          qed (use s1 s2 kr s3 pv m in simp)
        qed (use s1 s2 kr m in simp)
      qed (use s1 m in simp)
    qed (use m in simp)
  qed
  show ?case using v e b by blast
qed

text \<open>More fuel than the start amount of \<open>JSON_parse\<close> changes nothing.\<close>

lemma p_val_fuel: "2 * length s < n \<Longrightarrow> whole (p_val n s) = JSON_parse s"
  unfolding JSON_parse_def using p_fuel_aux [of n] by (metis less_add_one)

section \<open>Round trip\<close>

definition str_ok :: "jstr \<Rightarrow> bool" where
  "str_ok s \<longleftrightarrow> list_all (\<lambda>c. c < 65536) s"

definition num_ok :: "jsnum \<Rightarrow> bool" where
  "num_ok x \<longleftrightarrow> num_isFinite x \<and> p_num (num_str x) = Some (JNum x, [])"

text \<open>An object as property creation builds it: keys distinct and in enumeration order.\<close>

definition obj_wf :: "'v jobj \<Rightarrow> bool" where
  "obj_wf ob \<longleftrightarrow> fold (\<lambda>(k, v). obj_set k v) ob [] = ob"

fun json_wf :: "json \<Rightarrow> bool" where
  "json_wf JNull = True"
| "json_wf (JBool b) = True"
| "json_wf (JNum x) = num_ok x"
| "json_wf (JStr s) = str_ok s"
| "json_wf (JArr vs) = list_all json_wf vs"
| "json_wf (JObj ob) = (obj_wf ob \<and> list_all (\<lambda>(k, v). str_ok k \<and> json_wf v) ob)"

definition delim :: "jstr \<Rightarrow> bool" where
  "delim t \<longleftrightarrow> t = [] \<or> hd t = 44 \<or> hd t = 93 \<or> hd t = 125"

subsection \<open>Strings\<close>

lemma hex_val_digit: "n < 16 \<Longrightarrow> hex_val (hex_digit n) = Some n"
  by (simp add: hex_val_def hex_digit_def)

lemma hex4_digits:
  "a < 16 \<Longrightarrow> b < 16 \<Longrightarrow> x < 16 \<Longrightarrow> y < 16 \<Longrightarrow>
     hex4 (hex_digit a) (hex_digit b) (hex_digit x) (hex_digit y) = Some (((a * 16 + b) * 16 + x) * 16 + y)"
  by (simp add: hex4_def hex_val_digit)

lemma hex4_of_unit:
  assumes "c < 65536"
  shows "hex4 (hex_digit (c div 4096 mod 16)) (hex_digit (c div 256 mod 16))
     (hex_digit (c div 16 mod 16)) (hex_digit (c mod 16)) = Some c"
proof -
  have d: "c div 256 = c div 16 div 16" "c div 4096 = c div 16 div 16 div 16"
    by (simp_all add: div_mult2_eq [symmetric])
  have "c div 16 div 16 div 16 < 16"
    using assms by (simp add: div_mult2_eq [symmetric] less_mult_imp_div_less)
  then have "((c div 4096 mod 16 * 16 + c div 256 mod 16) * 16 + c div 16 mod 16) * 16 + c mod 16 = c"
    unfolding d by simp
  then show ?thesis using hex4_digits [of "c div 4096 mod 16" "c div 256 mod 16" "c div 16 mod 16" "c mod 16"]
    by (simp only: mod_less_divisor zero_less_numeral simp_thms)
qed

lemma p_str_unicode: "c < 65536 \<Longrightarrow> p_str (unicode_escape c @ r) = push c (p_str r)"
  using hex4_of_unit [of c] by (simp add: unicode_escape_def)

lemma p_str_quote_char: "c < 65536 \<Longrightarrow> p_str (quote_char c @ r) = push c (p_str r)"
  by (auto simp: quote_char_def unescape_def p_str_unicode)

lemma p_str_quote_body: "str_ok s \<Longrightarrow> p_str (quote_body s @ 34 # t) = Some (s, t)"
proof (induction s rule: quote_body.induct)
  case 1
  then show ?case by simp
next
  case (2 c)
  then show ?case by (simp add: str_ok_def p_str_unicode p_str_quote_char)
next
  case (3 c d cs)
  have d: "p_str (d # x) = push d (p_str x)" if "lo_surr d" for x
    using that by (simp add: lo_surr_def)
  have c: "p_str (c # x) = push c (p_str x)" if "hi_surr c" for x
    using that by (simp add: hi_surr_def)
  show ?case
    using 3 c d by (auto simp: str_ok_def p_str_unicode p_str_quote_char simp del: p_str.simps)
qed

lemma json_quote_append: "json_quote s @ t = 34 # quote_body s @ 34 # t"
  by (simp add: json_quote_def js_lit)

lemma skip_ws_id: "\<not> json_ws x \<Longrightarrow> skip_ws (x # xs) = x # xs"
  by (simp add: skip_ws_def)

lemma p_val_quote: "str_ok s \<Longrightarrow> p_val (Suc n) (json_quote s @ t) = Some (JStr s, t)"
  by (simp add: json_quote_append skip_ws_def json_ws_def p_str_quote_body)

subsection \<open>Numbers\<close>

definition num_end :: "jstr \<Rightarrow> bool" where
  "num_end t \<longleftrightarrow> t = [] \<or> (\<not> is_digit (hd t) \<and> hd t \<noteq> 46 \<and> hd t \<noteq> 101 \<and> hd t \<noteq> 69)"

lemma delim_num_end: "delim t \<Longrightarrow> num_end t"
  by (auto simp: delim_def num_end_def is_digit_def)

lemma span_digits_append:
  "num_end t \<Longrightarrow> span_digits (s @ t) = (fst (span_digits s), snd (span_digits s) @ t)"
  by (induction s) (cases t; auto simp: num_end_def span_digits_def)+

lemma scan_frac_append:
  "num_end t \<Longrightarrow> scan_frac (s @ t) = (fst (scan_frac s), snd (scan_frac s) @ t)"
proof (cases s)
  case Nil
  assume "num_end t"
  with Nil show ?thesis by (cases t) (auto simp: num_end_def)
next
  case (Cons x xs)
  assume "num_end t"
  then show ?thesis using Cons by (simp add: span_digits_append)
qed

lemma exp_digits_append:
  "num_end t \<Longrightarrow> exp_digits neg (span_digits s) = Some (e, r) \<Longrightarrow>
     exp_digits neg (span_digits (s @ t)) = Some (e, r @ t)"
  by (cases "span_digits s") (auto simp: span_digits_append split: if_splits)

lemma scan_exp_append:
  "num_end t \<Longrightarrow> scan_exp s = Some (e, r) \<Longrightarrow> scan_exp (s @ t) = Some (e, r @ t)"
proof (cases s)
  case Nil
  assume "num_end t" "scan_exp s = Some (e, r)"
  with Nil show ?thesis by (cases t) (auto simp: num_end_def)
next
  case (Cons x xs)
  assume t: "num_end t" and s: "scan_exp s = Some (e, r)"
  show ?thesis
  proof (cases "x = 101 \<or> x = 69")
    case True
    show ?thesis
    proof (cases xs)
      case Nil
      then show ?thesis using s Cons True by (simp add: span_digits_def)
    next
      case (Cons y ys)
      then show ?thesis
        using s \<open>s = x # xs\<close> True exp_digits_append [OF t, where s = ys]
          exp_digits_append [OF t, where s = "y # ys"]
        by (auto split: if_splits)
    qed
  next
    case False
    then show ?thesis using s Cons by auto
  qed
qed

lemma p_num_int_append:
  assumes t: "num_end t" and p: "p_num_int neg (ip, q) = Some (v, r)"
  shows "p_num_int neg (ip, q @ t) = Some (v, r @ t)"
proof -
  obtain fp q' where f: "scan_frac q = (fp, q')" by (metis surj_pair)
  from p f obtain e where e: "scan_exp q' = Some (e, r)"
    by (cases "scan_exp q'") (auto split: if_splits)
  have sw: "starts_with (q @ t) [46] = starts_with q [46]"
    using t by (cases q; cases t) (auto simp: num_end_def)
  show ?thesis
    using p f e by (auto simp: scan_frac_append [OF t] scan_exp_append [OF t] sw split: if_splits)
qed

lemma p_num_append:
  assumes t: "num_end t" and p: "p_num s = Some (v, r)"
  shows "p_num (s @ t) = Some (v, r @ t)"
proof -
  have ne: "s \<noteq> []" using p by (auto simp: p_num_def span_digits_def)
  have sw: "starts_with (s @ t) [45] = starts_with s [45]" using ne by (cases s) auto
  have d: "drop 1 (s @ t) = drop 1 s @ t" using ne by (cases s) auto
  show ?thesis
    using p p_num_int_append [OF t] unfolding p_num_def sw d span_digits_append [OF t]
    by (auto simp del: p_num_int.simps split: if_splits)
qed

lemma p_num_hd: "p_num s = Some (v, r) \<Longrightarrow> s \<noteq> [] \<and> (hd s = 45 \<or> is_digit (hd s))"
proof (cases s)
  case (Cons x xs)
  assume "p_num s = Some (v, r)"
  with Cons show ?thesis
    by (cases "is_digit x") (auto simp: p_num_def span_digits_def split: if_splits)
qed (simp add: p_num_def span_digits_def)

lemma p_val_num:
  assumes "num_ok x" and "delim t"
  shows "p_val (Suc n) (num_str x @ t) = Some (JNum x, t)"
proof -
  have p: "p_num (num_str x) = Some (JNum x, [])" using assms by (simp add: num_ok_def)
  then obtain y ys where y: "num_str x = y # ys" "y = 45 \<or> is_digit y"
    using p_num_hd [OF p] by (cases "num_str x") auto
  have "p_num (num_str x @ t) = Some (JNum x, t)"
    using p_num_append [OF delim_num_end [OF assms(2)] p] by simp
  then show ?thesis
    using y by (auto simp: skip_ws_def json_ws_def is_digit_def js_lit)
qed

subsection \<open>Values\<close>

definition memb_str :: "jstr \<times> json \<Rightarrow> jstr" where
  "memb_str = (\<lambda>(k, v). json_quote k @ js '':'' @ JSON_stringify v)"

definition reads_back :: "json \<Rightarrow> bool" where
  "reads_back v \<longleftrightarrow> (\<forall>n t. 2 * length (JSON_stringify v) < n \<longrightarrow> delim t \<longrightarrow>
     p_val n (JSON_stringify v @ t) = Some (v, t))"

definition value_start :: "jstr \<Rightarrow> bool" where
  "value_start s \<longleftrightarrow> s \<noteq> [] \<and> \<not> json_ws (hd s) \<and> hd s \<noteq> 93 \<and> hd s \<noteq> 125"

lemma value_start_num: "num_ok x \<Longrightarrow> value_start (num_str x)"
  using p_num_hd [of "num_str x"]
  by (auto simp: num_ok_def value_start_def json_ws_def is_digit_def)

lemma value_start_stringify: "json_wf v \<Longrightarrow> value_start (JSON_stringify v)"
  using value_start_num
  by (cases v) (auto simp: value_start_def json_ws_def js_lit json_quote_def num_ok_def)

lemma value_start_append: "value_start s \<Longrightarrow> value_start (s @ t)"
  by (simp add: value_start_def)

lemma value_start_skip_ws: "value_start s \<Longrightarrow> skip_ws s = s"
  by (cases s) (auto simp: value_start_def skip_ws_def)

lemma value_start_starts: "value_start s \<Longrightarrow> \<not> starts_with s [93] \<and> \<not> starts_with s [125]"
  by (cases s) (auto simp: value_start_def)

lemma p_elems_reads_back:
  "vs \<noteq> [] \<Longrightarrow> list_all reads_back vs \<Longrightarrow>
     2 * length (join [44] (map JSON_stringify vs)) + 1 < n \<Longrightarrow>
     p_elems n (join [44] (map JSON_stringify vs) @ 93 # t) = Some (vs, t)"
proof (induction vs arbitrary: n rule: induct_list012)
  case (2 v)
  then show ?case
    by (cases n) (auto simp: reads_back_def delim_def skip_ws_def json_ws_def)
next
  case (3 v w vs)
  then obtain k where k: "n = Suc k" by (cases n) auto
  have d: "delim (44 # x)" for x by (simp add: delim_def)
  have IH: "p_elems k (join [44] (map JSON_stringify (w # vs)) @ 93 # t) = Some (w # vs, t)"
    using "3.prems" k by (intro "3.IH"(2)) auto
  show ?case
    using "3.prems" k d IH by (simp add: reads_back_def skip_ws_def json_ws_def)
qed simp

lemma p_membs_reads_back:
  "ob \<noteq> [] \<Longrightarrow> list_all (\<lambda>(k, v). str_ok k \<and> reads_back v) ob \<Longrightarrow>
     2 * length (join [44] (map memb_str ob)) + 1 < n \<Longrightarrow>
     p_membs n acc (join [44] (map memb_str ob) @ 125 # t) =
       Some (fold (\<lambda>(k, v). obj_set k v) ob acc, t)"
proof (induction ob arbitrary: n acc rule: induct_list012)
  case (2 m)
  then show ?case
    by (cases n; cases m)
      (auto simp: memb_str_def reads_back_def delim_def skip_ws_def json_ws_def js_lit
        json_quote_append json_quote_def p_str_quote_body)
next
  case (3 m m' ob)
  then obtain k where k: "n = Suc k" by (cases n) auto
  obtain key v where m: "m = (key, v)" by (cases m)
  have d: "delim (44 # x)" for x by (simp add: delim_def)
  have IH: "p_membs k a (join [44] (map memb_str (m' # ob)) @ 125 # t) =
      Some (fold (\<lambda>(k, v). obj_set k v) (m' # ob) a, t)" for a
    using "3.prems" k by (intro "3.IH"(2)) auto
  have v: "p_val k (JSON_stringify v @ 44 # x) = Some (v, 44 # x)" for x
    using "3.prems" k d by (auto simp: m reads_back_def memb_str_def)
  show ?case
    using "3.prems" k IH v
    by (simp add: m memb_str_def skip_ws_def json_ws_def js_lit json_quote_append
        p_str_quote_body)
qed simp

lemma stringify_obj: "JSON_stringify (JObj ob) = 123 # join [44] (map memb_str ob) @ [125]"
  by (simp add: memb_str_def js_lit)

lemma stringify_arr: "JSON_stringify (JArr vs) = 91 # join [44] (map JSON_stringify vs) @ [93]"
  by (simp add: js_lit)

lemma value_start_join: "xs \<noteq> [] \<Longrightarrow> value_start (hd xs) \<Longrightarrow> value_start (join sep xs @ t)"
  by (cases "(sep, xs)" rule: join.cases) (auto simp: value_start_append)

lemma p_val_arr:
  assumes "list_all json_wf vs" "list_all reads_back vs" "2 * length (JSON_stringify (JArr vs)) < n"
  shows "p_val n (JSON_stringify (JArr vs) @ t) = Some (JArr vs, t)"
proof (cases "vs = []")
  case True
  then show ?thesis using assms(3) by (cases n) (auto simp: js_lit skip_ws_def json_ws_def)
next
  case False
  obtain k where k: "n = Suc k" using assms(3) by (cases n) auto
  let ?s = "join [44] (map JSON_stringify vs) @ 93 # t"
  have "value_start ?s"
    using False assms(1) by (intro value_start_join) (cases vs; simp add: value_start_stringify)+
  moreover have "p_elems k ?s = Some (vs, t)"
    using assms k False by (intro p_elems_reads_back) (auto simp: stringify_arr simp del: JSON_stringify.simps)
  ultimately show ?thesis
    unfolding stringify_arr k
    by (simp add: skip_ws_id json_ws_def value_start_skip_ws value_start_starts)
qed

lemma p_val_obj:
  assumes "obj_wf ob" "list_all (\<lambda>(k, v). str_ok k \<and> reads_back v) ob"
    and "2 * length (JSON_stringify (JObj ob)) < n"
  shows "p_val n (JSON_stringify (JObj ob) @ t) = Some (JObj ob, t)"
proof (cases "ob = []")
  case True
  then show ?thesis using assms(3) by (cases n) (auto simp: js_lit skip_ws_def json_ws_def)
next
  case False
  obtain k where k: "n = Suc k" using assms(3) by (cases n) auto
  let ?s = "join [44] (map memb_str ob) @ 125 # t"
  have "value_start ?s" using False
    by (intro value_start_join) (cases ob; auto simp: memb_str_def json_quote_def value_start_def json_ws_def js_lit)+
  moreover have "p_membs k [] ?s = Some (ob, t)"
    using assms k False p_membs_reads_back [of ob k "[]" t]
    by (auto simp: stringify_obj obj_wf_def simp del: JSON_stringify.simps)
  ultimately show ?thesis
    unfolding stringify_obj k
    by (simp add: skip_ws_id json_ws_def value_start_skip_ws value_start_starts)
qed

lemma p_val_const:
  "p_val (Suc n) (js ''null'' @ t) = Some (JNull, t)"
  "p_val (Suc n) (js ''true'' @ t) = Some (JBool True, t)"
  "p_val (Suc n) (js ''false'' @ t) = Some (JBool False, t)"
  by (simp_all add: js_lit skip_ws_def json_ws_def)

lemma reads_back_wf: "json_wf v \<Longrightarrow> reads_back v"
proof (induction v)
  case (JNum x)
  then show ?case
    unfolding reads_back_def using p_val_num by (auto simp: num_ok_def elim!: less_natE)
next
  case (JStr s)
  then show ?case unfolding reads_back_def using p_val_quote by (auto elim!: less_natE)
next
  case (JArr vs)
  then have "list_all json_wf vs" "list_all reads_back vs" by (simp_all add: list_all_iff)
  then show ?case unfolding reads_back_def [of "JArr vs"] using p_val_arr by blast
next
  case (JObj ob)
  then have "list_all (\<lambda>(k, v). str_ok k \<and> reads_back v) ob"
    by (fastforce simp: list_all_iff)
  moreover have "obj_wf ob" using JObj.prems by simp
  ultimately show ?case unfolding reads_back_def [of "JObj ob"] using p_val_obj by blast
next
  case JNull
  then show ?case unfolding reads_back_def using p_val_const(1) by (auto elim!: less_natE)
next
  case (JBool b)
  then show ?case unfolding reads_back_def using p_val_const(2,3) by (auto elim!: less_natE)
qed

lemma JSON_roundtrip:
  assumes "json_wf v"
  shows "JSON_parse (JSON_stringify v) = Some v"
proof -
  have "p_val n (JSON_stringify v) = Some (v, [])" if "2 * length (JSON_stringify v) < n" for n
    using reads_back_wf [OF assms, unfolded reads_back_def, rule_format, OF that, of "[]"]
    by (simp only: append_Nil2 delim_def simp_thms)
  then show ?thesis
    unfolding JSON_parse_def by (simp only: less_add_one) (simp add: whole_def skip_ws_def)
qed

subsection \<open>Objects that property creation builds\<close>

lemma nat_str_digits_val:
  "s \<noteq> [] \<Longrightarrow> list_all is_digit s \<Longrightarrow> hd s \<noteq> 48 \<Longrightarrow> nat_str (digits_val s) = s"
proof (induction s rule: rev_induct)
  case (snoc c t)
  have c: "48 \<le> c" "c \<le> 57" using snoc.prems by (auto simp: is_digit_def)
  show ?case
  proof (cases "t = []")
    case True
    then show ?thesis using c by (simp add: digits_val_def nat_str.simps)
  next
    case False
    then have t: "nat_str (digits_val t) = t" "hd t \<noteq> 48" using snoc by auto
    then have "digits_val t \<noteq> 0" using nat_str.simps [of 0] by (metis add.right_neutral list.sel(1) zero_less_numeral)
    moreover obtain d where d: "c = 48 + d" "d < 10" using c that [of "c - 48"] by simp
    ultimately have "digits_val (t @ [c]) div 10 = digits_val t" "digits_val (t @ [c]) mod 10 = c - 48" "\<not> digits_val (t @ [c]) < 10"
      by (simp_all add: digits_val_snoc)
    then show ?thesis using c t by (subst nat_str.simps) simp
  qed
qed simp

lemma index_key_str: "index_key k = Some n \<Longrightarrow> nat_str n = k"
proof -
  have "nat_str (digits_val [48]) = [48]" by (simp add: digits_val_def nat_str.simps)
  then show "index_key k = Some n \<Longrightarrow> nat_str n = k"
    using nat_str_digits_val [of k] by (auto simp: index_key_def split: if_splits)
qed

lemma index_key_inj: "index_key k = Some n \<Longrightarrow> index_key k' = Some n \<Longrightarrow> k = k'"
  using index_key_str by blast

text \<open>The enumeration order of two keys.\<close>

definition key_before :: "jstr \<Rightarrow> jstr \<Rightarrow> bool" where
  "key_before k k' =
     (case index_key k of
        None \<Rightarrow> index_key k' = None
      | Some n \<Rightarrow> (case index_key k' of None \<Rightarrow> True | Some n' \<Rightarrow> n < n'))"

definition keys_wf :: "jstr list \<Rightarrow> bool" where
  "keys_wf ks \<longleftrightarrow> distinct ks \<and> sorted_wrt key_before ks"

lemma index_before_before: "index_key k = Some n \<Longrightarrow> index_before n k' = key_before k k'"
  by (simp add: index_before_def key_before_def)

lemma key_before_trans: "key_before a b \<Longrightarrow> key_before b c \<Longrightarrow> key_before a c"
  by (auto simp: key_before_def split: option.splits)

lemma key_before_total: "index_key k = Some n \<Longrightarrow> k \<noteq> k' \<Longrightarrow> \<not> key_before k k' \<Longrightarrow> key_before k' k"
  using index_key_inj [of k n k'] by (auto simp: key_before_def split: option.splits) (metis linorder_neqE_nat)

lemma sorted_insert_index:
  "index_key k = Some n \<Longrightarrow> k \<notin> set (map fst ob) \<Longrightarrow> sorted_wrt key_before (map fst ob) \<Longrightarrow>
   sorted_wrt key_before (map fst (insert_index n k v ob))"
proof (induction ob)
  case (Cons p ob)
  obtain k' v' where p: "p = (k', v')" by (cases p)
  have s: "set (map fst (insert_index n k v ob)) = insert k (set (map fst ob))" by (rule fst_insert_index)
  show ?case
  proof (cases "key_before k k'")
    case True
    then show ?thesis
      using Cons.prems key_before_trans [OF True] by (simp add: p index_before_before)
  next
    case False
    then have "key_before k' k" using key_before_total Cons.prems by (simp add: p)
    then show ?thesis
      using Cons False s by (auto simp: p index_before_before simp del: set_map)
  qed
qed simp

lemma keys_wf_set: "keys_wf (map fst ob) \<Longrightarrow> keys_wf (map fst (obj_set k v ob))"
  using distinct_obj_set [of ob k v]
  by (auto simp: keys_wf_def obj_set_def fst_replace_key sorted_wrt_append key_before_def split: option.splits
      intro!: sorted_insert_index)

lemma keys_wf_delete: "keys_wf (map fst ob) \<Longrightarrow> keys_wf (map fst (obj_delete k ob))"
  by (induction ob) (auto simp: keys_wf_def obj_delete_def)

lemma obj_set_last: "keys_wf (map fst (ob @ [(k, v)])) \<Longrightarrow> obj_set k v ob = ob @ [(k, v)]"
proof -
  assume w: "keys_wf (map fst (ob @ [(k, v)]))"
  have "list_all (\<lambda>k'. \<not> index_before n k') (map fst ob)" if "index_key k = Some n" for n
    using w that by (auto simp: keys_wf_def sorted_wrt_append list_all_iff key_before_def index_before_def split: option.splits)
  moreover have "list_all (\<lambda>k'. \<not> index_before n k') (map fst ob) \<Longrightarrow> insert_index n k v ob = ob @ [(k, v)]" for n
    by (induction ob) auto
  ultimately show ?thesis
    using w by (auto simp: obj_set_def keys_wf_def split: option.split)
qed

lemma obj_wf_iff: "obj_wf ob \<longleftrightarrow> keys_wf (map fst ob)"
proof
  assume "obj_wf ob"
  moreover have "keys_wf (map fst acc) \<Longrightarrow> keys_wf (map fst (fold (\<lambda>(k, v). obj_set k v) xs acc))"
    for xs and acc :: "(jstr \<times> 'a) list"
    by (induction xs arbitrary: acc) (auto intro: keys_wf_set)
  from this [of "[]" ob] have "keys_wf (map fst (fold (\<lambda>(k, v). obj_set k v) ob []))" by (simp add: keys_wf_def)
  ultimately show "keys_wf (map fst ob)" by (simp add: obj_wf_def)
next
  assume "keys_wf (map fst ob)"
  then show "obj_wf ob"
  proof (induction ob rule: rev_induct)
    case (snoc p ob)
    then have "obj_wf ob" by (simp add: keys_wf_def sorted_wrt_append)
    then show ?case using obj_set_last [of ob "fst p" "snd p"] snoc.prems
      by (simp add: obj_wf_def case_prod_beta)
  qed (simp add: obj_wf_def)
qed

lemma set_obj_set: "set (obj_set k v ob) \<subseteq> insert (k, v) (set ob)"
proof -
  have "set (replace_key k v ob) \<subseteq> insert (k, v) (set ob)" by (induction ob rule: replace_key.induct) auto
  moreover have "set (insert_index n k v ob) \<subseteq> insert (k, v) (set ob)" for n
    by (induction ob rule: insert_index.induct) auto
  ultimately show ?thesis by (auto simp: obj_set_def split: option.splits)
qed

lemma json_wf_set: "json_wf (JObj ob) \<Longrightarrow> str_ok k \<Longrightarrow> json_wf v \<Longrightarrow> json_wf (JObj (obj_set k v ob))"
  using set_obj_set [of k v ob] by (auto simp: obj_wf_iff keys_wf_set list_all_iff)

lemma json_wf_delete: "json_wf (JObj ob) \<Longrightarrow> json_wf (JObj (obj_delete k ob))"
  using keys_wf_delete [of ob k] by (auto simp: obj_wf_iff list_all_iff obj_delete_def)

end
