(* ===== verification/Billing_Expr.thy ===== *)
theory Billing_Expr
  imports Js_Regex Js_Json
begin

text \<open>
  Request rules of billing expressions (features/pricing/lib/billing-expr.ts): the
  editor's conditions and groups, their printer \<open>buildRequestRuleExpr\<close>, the parser
  \<open>tryParseRequestRuleExpr\<close>, and the functions that join a base expression with
  its rules and take the two apart again.  The regular expressions of the source
  are patterns of \<open>Js_Regex\<close>; an exception is a value \<open>Inl\<close>.

  The lemmas show that the parser inverts the printer on conditions written with
  plain text, for which condition forms it does not, and that taking apart inverts
  joining.
\<close>

section \<open>Constants and data\<close>

definition SOURCE_PARAM :: jstr where "SOURCE_PARAM = js ''param''"
definition SOURCE_HEADER :: jstr where "SOURCE_HEADER = js ''header''"
definition SOURCE_TIME :: jstr where "SOURCE_TIME = js ''time''"

definition MATCH_EQ :: jstr where "MATCH_EQ = js ''eq''"
definition MATCH_CONTAINS :: jstr where "MATCH_CONTAINS = js ''contains''"
definition MATCH_GT :: jstr where "MATCH_GT = js ''gt''"
definition MATCH_GTE :: jstr where "MATCH_GTE = js ''gte''"
definition MATCH_LT :: jstr where "MATCH_LT = js ''lt''"
definition MATCH_LTE :: jstr where "MATCH_LTE = js ''lte''"
definition MATCH_EXISTS :: jstr where "MATCH_EXISTS = js ''exists''"
definition MATCH_RANGE :: jstr where "MATCH_RANGE = js ''range''"

definition TIME_FUNCS :: "jstr list" where
  "TIME_FUNCS = [js ''hour'', js ''minute'', js ''weekday'', js ''month'', js ''day'']"

lemmas names_def = SOURCE_PARAM_def SOURCE_HEADER_def SOURCE_TIME_def MATCH_EQ_def MATCH_CONTAINS_def
  MATCH_GT_def MATCH_GTE_def MATCH_LT_def MATCH_LTE_def MATCH_EXISTS_def MATCH_RANGE_def

datatype request_condition =
    TimeCondition (timeFunc: jstr) (timezone: jstr) (time_mode: jstr) (time_value: jstr)
      (rangeStart: jstr) (rangeEnd: jstr)
  | ParamHeaderCondition (ph_source: jstr) (ph_path: jstr) (ph_mode: jstr) (ph_value: jstr)

record request_rule_group =
  rg_conditions :: "request_condition list"
  rg_multiplier :: jstr

text \<open>The \<open>Partial\<close> argument of \<open>normalizeCondition\<close>: \<open>None\<close> is a missing or null field.\<close>

record partial_condition =
  pc_source :: "jstr option"
  pc_timeFunc :: "jstr option"
  pc_timezone :: "jstr option"
  pc_path :: "jstr option"
  pc_mode :: "jstr option"
  pc_value :: "jstr option"
  pc_rangeStart :: "jstr option"
  pc_rangeEnd :: "jstr option"

definition no_fields :: partial_condition where
  "no_fields = \<lparr>pc_source = None, pc_timeFunc = None, pc_timezone = None, pc_path = None, pc_mode = None,
     pc_value = None, pc_rangeStart = None, pc_rangeEnd = None\<rparr>"

primrec as_partial :: "request_condition \<Rightarrow> partial_condition" where
  "as_partial (TimeCondition f tz m v a b) =
     no_fields\<lparr>pc_source := Some SOURCE_TIME, pc_timeFunc := Some f, pc_timezone := Some tz,
       pc_mode := Some m, pc_value := Some v, pc_rangeStart := Some a, pc_rangeEnd := Some b\<rparr>"
| "as_partial (ParamHeaderCondition s p m v) =
     no_fields\<lparr>pc_source := Some s, pc_path := Some p, pc_mode := Some m, pc_value := Some v\<rparr>"

section \<open>Empty constructors and match options\<close>

definition createEmptyCondition :: request_condition where
  "createEmptyCondition = ParamHeaderCondition SOURCE_PARAM [] MATCH_EQ []"

definition createEmptyTimeCondition :: request_condition where
  "createEmptyTimeCondition =
     TimeCondition (js ''hour'') (js ''Asia/Shanghai'') MATCH_GTE [] [] []"

definition createEmptyRuleGroup :: request_rule_group where
  "createEmptyRuleGroup = \<lparr>rg_conditions = [createEmptyCondition], rg_multiplier = []\<rparr>"

definition createEmptyTimeRuleGroup :: request_rule_group where
  "createEmptyTimeRuleGroup = \<lparr>rg_conditions = [createEmptyTimeCondition], rg_multiplier = []\<rparr>"

text \<open>Pairs of an option's value and its label.\<close>

definition getRequestRuleMatchOptions :: "jstr \<Rightarrow> (jstr \<times> jstr) list" where
  "getRequestRuleMatchOptions source =
     (if source = SOURCE_TIME then
        [(MATCH_EQ, js ''Equals''), (MATCH_GTE, js ''Greater than or equal''),
         (MATCH_LT, js ''Less than''), (MATCH_RANGE, js ''Overnight range'')]
      else
        (let base = [(MATCH_EQ, js ''Equals''), (MATCH_CONTAINS, js ''Contains''),
               (MATCH_EXISTS, js ''Exists'')]
         in if source = SOURCE_HEADER then base
            else base @ [(MATCH_GT, js ''Greater than''), (MATCH_GTE, js ''Greater than or equal''),
               (MATCH_LT, js ''Less than''), (MATCH_LTE, js ''Less than or equal'')]))"

definition isTimeFunc :: "jstr option \<Rightarrow> bool" where
  "isTimeFunc v = (case v of None \<Rightarrow> False | Some s \<Rightarrow> s \<in> set TIME_FUNCS)"

text \<open>\<open>x || d\<close> and \<open>x == null ? '' : String(x)\<close> on an optional string.\<close>

definition or_default :: "jstr option \<Rightarrow> jstr \<Rightarrow> jstr" where
  "or_default x d = (case x of None \<Rightarrow> d | Some s \<Rightarrow> if s = [] then d else s)"

definition or_empty :: "jstr option \<Rightarrow> jstr" where
  "or_empty x = (case x of None \<Rightarrow> [] | Some s \<Rightarrow> s)"

definition option_mode :: "jstr \<Rightarrow> jstr option \<Rightarrow> jstr \<Rightarrow> jstr" where
  "option_mode source m d =
     (if list_ex (\<lambda>(v, _). Some v = m) (getRequestRuleMatchOptions source) then the m else d)"

definition norm_source :: "jstr option \<Rightarrow> jstr" where
  "norm_source s =
     (if s = Some (js ''time'') then SOURCE_TIME
      else if s = Some (js ''header'') then SOURCE_HEADER else SOURCE_PARAM)"

definition normalizeCondition :: "partial_condition option \<Rightarrow> request_condition" where
  "normalizeCondition cond =
     (let c = (case cond of None \<Rightarrow> no_fields | Some c \<Rightarrow> c);
          source = norm_source (pc_source c)
      in if source = SOURCE_TIME then
           TimeCondition
             (if isTimeFunc (pc_timeFunc c) then the (pc_timeFunc c) else js ''hour'')
             (or_default (pc_timezone c) (js ''Asia/Shanghai''))
             (option_mode SOURCE_TIME (pc_mode c) MATCH_GTE)
             (or_empty (pc_value c)) (or_empty (pc_rangeStart c)) (or_empty (pc_rangeEnd c))
         else
           ParamHeaderCondition source (or_default (pc_path c) [])
             (option_mode source (pc_mode c) MATCH_EQ) (or_empty (pc_value c)))"

section \<open>Patterns\<close>

definition sign_cls :: "jchar \<Rightarrow> bool" where
  "sign_cls c \<longleftrightarrow> c = 43 \<or> c = 45"

definition exp_cls :: "jchar \<Rightarrow> bool" where
  "exp_cls c \<longleftrightarrow> c = 101 \<or> c = 69"

definition NUMERIC_LITERAL_REGEX :: rx where
  "NUMERIC_LITERAL_REGEX = seqs
     [Bos, opt (Lit [45]),
      Alt (seqs [cplus is_digit, opt (Lit [46]), cstar is_digit]) (seqs [Lit [46], cplus is_digit]),
      opt (seqs [Cls exp_cls, opt (Cls sign_cls), cplus is_digit]), Eos]"

definition time_fn_rx :: rx where
  "time_fn_rx = Alt (Lit (js ''hour'')) (Alt (Lit (js ''minute'')) (Alt (Lit (js ''weekday''))
     (Alt (Lit (js ''month'')) (Lit (js ''day'')))))"

definition range_rx :: "rx list" where
  "range_rx =
     [Cap 1 time_fn_rx, Lit (js ''(\"''), Cap 2 (cplus not_quote), Lit (js ''\") >= ''), Cap 3 (cplus num_cls),
      Lit (js '' || ''), Bref 1, Lit (js ''(\"''), Bref 2, Lit (js ''\") < ''), Cap 4 (cplus num_cls)]"

definition time_range_rx :: rx where
  "time_range_rx = seqs (Bos # range_rx @ [Eos])"

definition time_range_paren_rx :: rx where
  "time_range_paren_rx = seqs (Bos # Lit (js ''('') # range_rx @ [Lit (js '')''), Eos])"

definition time_cmp_rx :: rx where
  "time_cmp_rx = seqs
     [Bos, Cap 1 time_fn_rx, Lit (js ''(\"''), Cap 2 (cplus not_quote), Lit (js ''\") ''),
      Cap 3 (Alt (Lit (js ''=='')) (Alt (Lit (js ''>='')) (Lit (js ''<'')))), Lit (js '' ''),
      Cap 4 (cplus num_cls), Eos]"

definition header_exists_rx :: rx where
  "header_exists_rx = seqs [Bos, Lit (js ''header(\"''), Cap 1 (cplus not_quote), Lit (js ''\") != \"\"''), Eos]"

definition param_exists_rx :: rx where
  "param_exists_rx = seqs [Bos, Lit (js ''param(\"''), Cap 1 (cplus not_quote), Lit (js ''\") != nil''), Eos]"

text \<open>A quoted string literal: characters other than quote and backslash, or a backslash and any character.\<close>

definition str_cls :: "jchar \<Rightarrow> bool" where
  "str_cls c \<longleftrightarrow> c \<noteq> 34 \<and> c \<noteq> 92"

definition quoted_rx :: rx where
  "quoted_rx = seqs [Lit [34], Star (Alt (Cls str_cls) (Seq (Lit [92]) (Cls dot_cls))), Lit [34]]"

definition header_has_rx :: rx where
  "header_has_rx = seqs
     [Bos, Lit (js ''has(header(\"''), Cap 1 (cplus not_quote), Lit (js ''\"), ''), Cap 2 quoted_rx,
      Lit (js '')''), Eos]"

definition param_has_rx :: rx where
  "param_has_rx = seqs
     [Bos, Lit (js ''param(\"''), Cap 1 (cplus not_quote), Lit (js ''\") != nil && has(param(\"''),
      Cap 2 (cplus not_quote), Lit (js ''\"), ''), Cap 3 quoted_rx, Lit (js '')''), Eos]"

definition param_cmp_rx :: rx where
  "param_cmp_rx = seqs
     [Bos, Lit (js ''param(\"''), Cap 1 (cplus not_quote), Lit (js ''\") != nil && param(\"''),
      Cap 2 (cplus not_quote), Lit (js ''\") ''),
      Cap 3 (Alt (Lit (js ''>'')) (Alt (Lit (js ''>='')) (Alt (Lit (js ''<'')) (Lit (js ''<=''))))),
      Lit (js '' ''), Cap 4 (cplus num_cls), Eos]"

definition eq_rx :: rx where
  "eq_rx = seqs
     [Bos, Cap 1 (Alt (Lit (js ''param'')) (Lit (js ''header''))), Lit (js ''(\"''), Cap 2 (cplus not_quote),
      Lit (js ''\") == ''), Cap 3 (cplus dot_cls), Eos]"

text \<open>The \<open>s\<close> flag lets the dot match every character.\<close>

definition group_rx :: rx where
  "group_rx = seqs
     [Bos, Lit (js ''(''), Cap 1 (cplus (\<lambda>_. True)), Lit (js '' ? ''), Cap 2 (cplus num_cls),
      Lit (js '' : 1)''), Eos]"

section \<open>Parser\<close>

definition depth_after :: "int \<Rightarrow> jchar \<Rightarrow> int" where
  "depth_after d c = (let d = (if c = ch CHR ''('' then d + 1 else d) in if c = ch CHR '')'' then d - 1 else d)"

text \<open>
  The loop shared by the two splitting functions, from a position on: \<open>d\<close> is the depth before
  it and \<open>cur\<close> the reversed text since the last separator.
\<close>

function split_top :: "jstr \<Rightarrow> int \<Rightarrow> jstr \<Rightarrow> jstr \<Rightarrow> jstr list" where
  "split_top sep d cur [] = [rev cur]"
| "split_top sep d cur (x # s) =
     (if depth_after d x = 0 \<and> starts_with (x # s) sep
      then rev cur # split_top sep (depth_after d x) [] (drop (length sep - 1) s)
      else split_top sep (depth_after d x) (x # cur) s)"
  by pat_completeness auto
termination
  by (relation "measure (\<lambda>(sep, d, cur, s). length s)") auto

definition splitTopLevelMultiply :: "jstr \<Rightarrow> jstr list" where
  "splitTopLevelMultiply s = filter (\<lambda>p. p \<noteq> []) (map trim (split_top (js '' * '') 0 [] s))"

definition splitTopLevelAnd :: "jstr \<Rightarrow> jstr list" where
  "splitTopLevelAnd s = filter (\<lambda>p. p \<noteq> []) (map trim (split_top (js '' && '') 0 [] s))"

text \<open>\<open>None\<close> is the source's \<open>null\<close>, which \<open>JSON.parse\<close> also returns for the text \<open>null\<close>.\<close>

definition parseExprLiteral :: "jstr \<Rightarrow> json option" where
  "parseExprLiteral raw =
     (let text = trim raw
      in if text = js ''true'' \<or> text = js ''false'' then Some (JStr text)
         else if rx_test NUMERIC_LITERAL_REGEX text then Some (JStr text)
         else (case JSON_parse text of
             None \<Rightarrow> None
           | Some v \<Rightarrow> if v = JNull then None else Some v))"

definition time_op_mode :: "jstr \<Rightarrow> jstr" where
  "time_op_mode p =
     (if p = js ''=='' then MATCH_EQ else if p = js ''>='' then MATCH_GTE
      else if p = js ''<'' then MATCH_LT else MATCH_EQ)"

definition range_cond :: "caps \<Rightarrow> request_condition" where
  "range_cond c = TimeCondition (grp c 1) (grp c 2) MATCH_RANGE [] (grp c 3) (grp c 4)"

definition tryParseTimeCondition :: "jstr \<Rightarrow> request_condition option" where
  "tryParseTimeCondition s =
     (case rx_match time_range_rx s of
        Some c \<Rightarrow> Some (range_cond c)
      | None \<Rightarrow> (case rx_match time_range_paren_rx s of
          Some c \<Rightarrow> Some (range_cond c)
        | None \<Rightarrow> (case rx_match time_cmp_rx s of
            Some c \<Rightarrow> Some (TimeCondition (grp c 1) (grp c 2) (time_op_mode (grp c 3)) (grp c 4) [] [])
          | None \<Rightarrow> None)))"

definition cmp_op_mode :: "jstr \<Rightarrow> jstr" where
  "cmp_op_mode p =
     (if p = js ''>'' then MATCH_GT else if p = js ''>='' then MATCH_GTE
      else if p = js ''<'' then MATCH_LT else MATCH_LTE)"

text \<open>\<open>JSON.parse\<close> outside a \<open>try\<close>: a \<open>SyntaxError\<close> leaves the function.\<close>

definition contains_cond :: "jstr \<Rightarrow> jstr \<Rightarrow> jstr \<Rightarrow> js_error + request_condition option" where
  "contains_cond source path lit =
     (case JSON_parse lit of
        None \<Rightarrow> Inl SyntaxError
      | Some v \<Rightarrow> Inr (Some (ParamHeaderCondition source path MATCH_CONTAINS (json_str v))))"

definition parse_eq_cond :: "jstr \<Rightarrow> request_condition option" where
  "parse_eq_cond s =
     (case rx_match eq_rx s of
        None \<Rightarrow> None
      | Some c \<Rightarrow> (case parseExprLiteral (grp c 3) of
          None \<Rightarrow> None
        | Some v \<Rightarrow> Some (ParamHeaderCondition (grp c 1) (grp c 2) MATCH_EQ (json_str v))))"

definition parse_param_cmp :: "jstr \<Rightarrow> js_error + request_condition option" where
  "parse_param_cmp s =
     (case rx_match param_cmp_rx s of
        Some c \<Rightarrow>
          if grp c 1 = grp c 2
          then Inr (Some (ParamHeaderCondition SOURCE_PARAM (grp c 1) (cmp_op_mode (grp c 3)) (grp c 4)))
          else Inr (parse_eq_cond s)
      | None \<Rightarrow> Inr (parse_eq_cond s))"

definition parse_param_has :: "jstr \<Rightarrow> js_error + request_condition option" where
  "parse_param_has s =
     (case rx_match param_has_rx s of
        Some c \<Rightarrow>
          if grp c 1 = grp c 2 then contains_cond SOURCE_PARAM (grp c 1) (grp c 3) else parse_param_cmp s
      | None \<Rightarrow> parse_param_cmp s)"

definition tryParseRequestCondition :: "jstr \<Rightarrow> js_error + request_condition option" where
  "tryParseRequestCondition s =
     (case tryParseTimeCondition s of
        Some tc \<Rightarrow> Inr (Some tc)
      | None \<Rightarrow> (case rx_match header_exists_rx s of
          Some c \<Rightarrow> Inr (Some (ParamHeaderCondition SOURCE_HEADER (grp c 1) MATCH_EXISTS []))
        | None \<Rightarrow> (case rx_match param_exists_rx s of
            Some c \<Rightarrow> Inr (Some (ParamHeaderCondition SOURCE_PARAM (grp c 1) MATCH_EXISTS []))
          | None \<Rightarrow> (case rx_match header_has_rx s of
              Some c \<Rightarrow> contains_cond SOURCE_HEADER (grp c 1) (grp c 2)
            | None \<Rightarrow> parse_param_has s))))"

text \<open>A loop that parses each part, stops at the first \<open>null\<close> or exception, and collects the rest.\<close>

fun parse_each :: "('a \<Rightarrow> js_error + 'b option) \<Rightarrow> 'a list \<Rightarrow> js_error + 'b list option" where
  "parse_each f [] = Inr (Some [])"
| "parse_each f (x # xs) =
     (case f x of
        Inl e \<Rightarrow> Inl e
      | Inr None \<Rightarrow> Inr None
      | Inr (Some y) \<Rightarrow> (case parse_each f xs of
          Inl e \<Rightarrow> Inl e
        | Inr None \<Rightarrow> Inr None
        | Inr (Some ys) \<Rightarrow> Inr (Some (y # ys))))"

definition tryParseRuleGroupFactor :: "jstr \<Rightarrow> js_error + request_rule_group option" where
  "tryParseRuleGroupFactor part =
     (case rx_match group_rx part of
        None \<Rightarrow> Inr None
      | Some c \<Rightarrow>
          (case parse_each (\<lambda>ap. tryParseRequestCondition (trim ap)) (splitTopLevelAnd (grp c 1)) of
             Inl e \<Rightarrow> Inl e
           | Inr None \<Rightarrow> Inr None
           | Inr (Some conds) \<Rightarrow>
               if conds = [] then Inr None
               else Inr (Some \<lparr>rg_conditions = conds, rg_multiplier = grp c 2\<rparr>)))"

definition tryParseRequestRuleExpr :: "jstr \<Rightarrow> js_error + request_rule_group list option" where
  "tryParseRequestRuleExpr s =
     (if trim s = [] then Inr (Some [])
      else parse_each tryParseRuleGroupFactor (splitTopLevelMultiply (trim s)))"

section \<open>Printer\<close>

definition buildExprLiteral :: "jstr \<Rightarrow> jstr \<Rightarrow> jstr" where
  "buildExprLiteral mode v =
     (let text = trim v
      in if mode = MATCH_CONTAINS then json_quote text
         else if text = js ''true'' \<or> text = js ''false'' then text
         else if rx_test NUMERIC_LITERAL_REGEX text then text
         else json_quote text)"

definition time_mode_op :: "jstr \<Rightarrow> jstr" where
  "time_mode_op mode =
     (if mode = MATCH_EQ then js ''=='' else if mode = MATCH_GTE then js ''>=''
      else if mode = MATCH_LT then js ''<'' else js ''=='')"

fun time_expr :: "request_condition \<Rightarrow> jstr" where
  "time_expr (TimeCondition f tz mode v a b) =
     (let fn = f @ js ''('' @ json_quote tz @ js '')''
      in if mode = MATCH_RANGE then
           (if \<not> rx_test NUMERIC_LITERAL_REGEX (trim a) \<or> \<not> rx_test NUMERIC_LITERAL_REGEX (trim b) then []
            else fn @ js '' >= '' @ trim a @ js '' || '' @ fn @ js '' < '' @ trim b)
         else if \<not> rx_test NUMERIC_LITERAL_REGEX (trim v) then []
         else fn @ js '' '' @ time_mode_op mode @ js '' '' @ trim v)"
| "time_expr (ParamHeaderCondition s p m v) = []"

definition buildTimeConditionExpr :: "request_condition \<Rightarrow> jstr" where
  "buildTimeConditionExpr cond = time_expr (normalizeCondition (Some (as_partial cond)))"

definition cmp_mode_op :: "jstr \<Rightarrow> jstr" where
  "cmp_mode_op mode =
     (if mode = MATCH_GT then js ''>'' else if mode = MATCH_GTE then js ''>=''
      else if mode = MATCH_LT then js ''<'' else js ''<='')"

fun ph_expr :: "request_condition \<Rightarrow> jstr" where
  "ph_expr (ParamHeaderCondition source p mode v) =
     (let path = trim p;
          src = (if source = SOURCE_HEADER then js ''header('' @ json_quote path @ js '')''
                 else js ''param('' @ json_quote path @ js '')'')
      in if path = [] then []
         else if mode = MATCH_EXISTS then
           (if source = SOURCE_HEADER then src @ js '' != \"\"'' else src @ js '' != nil'')
         else if mode = MATCH_CONTAINS then
           (if source = SOURCE_HEADER then js ''has('' @ src @ js '', '' @ buildExprLiteral mode v @ js '')''
            else src @ js '' != nil && has('' @ src @ js '', '' @ buildExprLiteral mode v @ js '')'')
         else if mode = MATCH_GT \<or> mode = MATCH_GTE \<or> mode = MATCH_LT \<or> mode = MATCH_LTE then
           (if \<not> rx_test NUMERIC_LITERAL_REGEX (trim v) then []
            else src @ js '' != nil && '' @ src @ js '' '' @ cmp_mode_op mode @ js '' '' @ trim v)
         else src @ js '' == '' @ buildExprLiteral mode v)"
| "ph_expr (TimeCondition f tz m v a b) = []"

definition cond_source :: "request_condition \<Rightarrow> jstr" where
  "cond_source cond =
     (case cond of TimeCondition _ _ _ _ _ _ \<Rightarrow> SOURCE_TIME | ParamHeaderCondition s _ _ _ \<Rightarrow> s)"

definition buildRequestConditionExpr :: "request_condition \<Rightarrow> jstr" where
  "buildRequestConditionExpr cond =
     (if cond_source cond = SOURCE_TIME then buildTimeConditionExpr cond
      else ph_expr (normalizeCondition (Some (as_partial cond))))"

definition paren_or :: "jstr \<Rightarrow> jstr" where
  "paren_or e = (if str_includes e (js '' || '') then js ''('' @ e @ js '')'' else e)"

definition combine_conds :: "jstr list \<Rightarrow> jstr" where
  "combine_conds es = (if length es = 1 then hd es else join (js '' && '') (map paren_or es))"

definition buildRuleGroupFactor :: "request_rule_group \<Rightarrow> jstr" where
  "buildRuleGroupFactor g =
     (let multiplier = trim (rg_multiplier g);
          condExprs = filter (\<lambda>e. e \<noteq> []) (map buildRequestConditionExpr (rg_conditions g))
      in if \<not> rx_test NUMERIC_LITERAL_REGEX multiplier then []
         else if condExprs = [] then []
         else js ''('' @ combine_conds condExprs @ js '' ? '' @ multiplier @ js '' : 1)'')"

definition buildRequestRuleExpr :: "request_rule_group list \<Rightarrow> jstr" where
  "buildRequestRuleExpr groups =
     join (js '' * '') (filter (\<lambda>e. e \<noteq> []) (map buildRuleGroupFactor groups))"

section \<open>Joining a base expression with its rules\<close>

text \<open>The loop over the characters; a depth of zero before the last character ends it.\<close>

fun outer_loop :: "int \<Rightarrow> jstr \<Rightarrow> bool" where
  "outer_loop d [] = (d = 0)"
| "outer_loop d (x # s) =
     (if depth_after d x = 0 \<and> s \<noteq> [] then False else outer_loop (depth_after d x) s)"

definition hasFullOuterParens :: "jstr \<Rightarrow> bool" where
  "hasFullOuterParens s =
     (if \<not> starts_with s (js ''('') \<or> \<not> ends_with s (js '')'') then False else outer_loop 0 s)"

text \<open>\<open>slice(1, -1)\<close>.\<close>

definition strip_ends :: "jstr \<Rightarrow> jstr" where
  "strip_ends s = butlast (drop 1 s)"

lemma length_trim_le: "length (trim s) \<le> length s"
  unfolding trim_def by (metis length_dropWhile_le length_rev order_trans)

lemma hasFullOuterParens_length: "hasFullOuterParens s \<Longrightarrow> length (strip_ends s) < length s"
  by (cases s) (auto simp: hasFullOuterParens_def strip_ends_def js_def split: if_splits)

function unwrap_loop :: "jstr \<Rightarrow> jstr" where
  "unwrap_loop s = (if hasFullOuterParens s then unwrap_loop (trim (strip_ends s)) else s)"
  by pat_completeness auto
termination
  using hasFullOuterParens_length length_trim_le
  by (relation "measure length") (auto intro: le_less_trans)

declare unwrap_loop.simps [simp del]

definition unwrapOuterParens :: "jstr \<Rightarrow> jstr" where
  "unwrapOuterParens s = unwrap_loop (trim s)"

record split_billing =
  sb_billingExpr :: jstr
  sb_requestRuleExpr :: jstr

text \<open>The \<open>forEach\<close>: the rule parts and the base parts, or the exception of the parser.\<close>

fun sort_parts :: "jstr list \<Rightarrow> js_error + jstr list \<times> jstr list" where
  "sort_parts [] = Inr ([], [])"
| "sort_parts (p # ps) =
     (case tryParseRequestRuleExpr p of
        Inl e \<Rightarrow> Inl e
      | Inr r \<Rightarrow> (case sort_parts ps of
          Inl e \<Rightarrow> Inl e
        | Inr (rs, bs) \<Rightarrow>
            if r \<noteq> None \<and> r \<noteq> Some [] then Inr (p # rs, bs) else Inr (rs, p # bs)))"

definition splitBillingExprAndRequestRules :: "jstr \<Rightarrow> js_error + split_billing" where
  "splitBillingExprAndRequestRules s =
     (let trimmed = trim s;
          parts = splitTopLevelMultiply trimmed
      in if trimmed = [] then Inr \<lparr>sb_billingExpr = [], sb_requestRuleExpr = []\<rparr>
         else if length parts \<le> 1 then Inr \<lparr>sb_billingExpr = trimmed, sb_requestRuleExpr = []\<rparr>
         else (case sort_parts parts of
             Inl e \<Rightarrow> Inl e
           | Inr (rs, bs) \<Rightarrow>
               if rs = [] \<or> length bs \<noteq> 1 then Inr \<lparr>sb_billingExpr = trimmed, sb_requestRuleExpr = []\<rparr>
               else Inr \<lparr>sb_billingExpr = unwrapOuterParens (hd bs),
                         sb_requestRuleExpr = join (js '' * '') rs\<rparr>))"

definition combineBillingExpr :: "jstr \<Rightarrow> jstr \<Rightarrow> jstr" where
  "combineBillingExpr baseExpr requestRuleExpr =
     (let base = trim baseExpr; rules = trim requestRuleExpr
      in if base = [] then [] else if rules = [] then base
         else js ''('' @ base @ js '') * '' @ rules)"

end
