(* ===== verification/Billing_Match.thy ===== *)
theory Billing_Match
  imports Billing_Expr
begin

text \<open>
  What the patterns of billing-expr.ts capture on the texts that its printer writes: one
  lemma per condition form, with the earlier patterns of the parser shown to miss.
\<close>

section \<open>Plain text and numbers\<close>

text \<open>
  Characters that the printer writes unescaped and that mean nothing to the parser: not
  a control character, quote, backslash, parenthesis, \<open>&\<close>, \<open>|\<close>, surrogate or line separator.
\<close>

definition plain :: "jchar \<Rightarrow> bool" where
  "plain c \<longleftrightarrow> 32 \<le> c \<and> c < 0xD800 \<and> c \<noteq> 34 \<and> c \<noteq> 92 \<and> c \<noteq> 40 \<and> c \<noteq> 41 \<and> c \<noteq> 38 \<and> c \<noteq> 124
     \<and> c \<noteq> 8232 \<and> c \<noteq> 8233"

definition numeric :: "jstr \<Rightarrow> bool" where
  "numeric s \<longleftrightarrow> rx_test NUMERIC_LITERAL_REGEX s"

lemma quote_body_plain: "list_all plain s \<Longrightarrow> quote_body s = s"
  by (induction s rule: quote_body.induct) (auto simp: plain_def quote_char_def hi_surr_def lo_surr_def)

lemma json_quote_plain: "list_all plain s \<Longrightarrow> json_quote s = 34 # s @ [34]"
  by (simp add: json_quote_def quote_body_plain js_lit)

lemma plain_not_quote: "list_all plain s \<Longrightarrow> list_all not_quote s"
  by (auto simp: list_all_iff plain_def not_quote_def)

lemma numeric_cls: "numeric s \<Longrightarrow> list_all num_cls s"
  unfolding numeric_def NUMERIC_LITERAL_REGEX_def
  by (rule rx_test_within [where rs = "[opt (Lit [45]),
      Alt (seqs [cplus is_digit, opt (Lit [46]), cstar is_digit]) (seqs [Lit [46], cplus is_digit]),
      opt (seqs [Cls exp_cls, opt (Cls sign_cls), cplus is_digit])]"])
    (auto simp: seqs_def opt_def cplus_def cstar_def Eps_def num_cls_def exp_cls_def sign_cls_def)

lemma numeric_Nil: "\<not> numeric []"
  by code_simp

lemma numeric_ne: "numeric s \<Longrightarrow> s \<noteq> []"
  using numeric_Nil by auto

lemma num_cls_plain: "num_cls c \<Longrightarrow> plain c"
  by (auto simp: num_cls_def plain_def is_digit_def)

lemma num_cls_not_ws: "num_cls c \<Longrightarrow> \<not> is_ws c"
  by (auto simp: num_cls_def is_digit_not_ws) (simp_all add: is_ws_def)

section \<open>Matching the printed conditions\<close>

lemma num_cls_lit [simp]:
  "\<not> num_cls 32" "\<not> num_cls 41" "\<not> num_cls 124" "\<not> not_quote 34"
  by (auto simp: num_cls_def not_quote_def is_digit_def)

lemma starts_with_self [simp]: "starts_with (w @ t) w"
  by (simp add: starts_with_iff)

lemma time_fn_hit:
  assumes "f \<in> set TIME_FUNCS"
  shows "rmatch (seqs (Cap i time_fn_rx # Lit [40, 34] # rs)) pre (f @ 40 # 34 # t) c =
     rmatch (seqs rs) (34 # 40 # rev f @ pre) t ((i, f) # c)"
proof -
  have "f = js ''hour'' \<or> f = js ''minute'' \<or> f = js ''weekday'' \<or> f = js ''month'' \<or> f = js ''day''"
    using assms by (simp add: TIME_FUNCS_def)
  then show ?thesis
    by (elim disjE) (simp_all add: time_fn_rx_def js_lit rx_step)
qed

named_theorems hit \<open>matching a printed condition\<close>

lemmas [hit] = rx_match_Bos rx_step seqs_cap_run_lit seqs_cap_run_end time_fn_hit

text \<open>The parts of a printed time condition.\<close>

definition time_parts :: "jstr \<Rightarrow> jstr \<Rightarrow> bool" where
  "time_parts f tz \<longleftrightarrow> f \<in> set TIME_FUNCS \<and> tz \<noteq> [] \<and> list_all not_quote tz"

definition num_part :: "jstr \<Rightarrow> bool" where
  "num_part a \<longleftrightarrow> a \<noteq> [] \<and> list_all num_cls a"

definition range_text :: "jstr \<Rightarrow> jstr \<Rightarrow> jstr \<Rightarrow> jstr \<Rightarrow> jstr \<Rightarrow> jstr" where
  "range_text f tz a b t = f @ 40 # 34 # tz @ 34 # 41 # 32 # 62 # 61 # 32 # a @ 32 # 124 # 124 # 32 #
      f @ 40 # 34 # tz @ 34 # 41 # 32 # 60 # 32 # b @ t"

definition cmp_text :: "jstr \<Rightarrow> jstr \<Rightarrow> jstr \<Rightarrow> jstr \<Rightarrow> jstr" where
  "cmp_text f tz p v = f @ 40 # 34 # tz @ 34 # 41 # 32 # p @ 32 # v"

lemma time_range_hit:
  assumes "time_parts f tz" "num_part a" "num_part b"
  shows "rx_match time_range_rx (range_text f tz a b []) = Some [(4, b), (3, a), (2, tz), (1, f)]"
  using assms unfolding time_parts_def num_part_def
  by (simp add: time_range_rx_def range_rx_def range_text_def js_lit hit)

lemma range_paren_hit:
  assumes "time_parts f tz" "num_part a" "num_part b"
  shows "rx_match time_range_paren_rx (40 # range_text f tz a b [41]) = Some [(4, b), (3, a), (2, tz), (1, f)]"
  using assms unfolding time_parts_def num_part_def
  by (simp add: time_range_paren_rx_def range_rx_def range_text_def js_lit hit)

lemma time_fn_paren: "rmatch (seqs (Cap i time_fn_rx # rs)) pre (40 # t) c = []"
  by (simp add: time_fn_rx_def js_lit rx_step)

lemma range_miss_paren: "rx_match time_range_rx (40 # t) = None"
  by (simp add: time_range_rx_def range_rx_def rx_match_Bos time_fn_paren)

lemma cmp_hit:
  assumes "time_parts f tz" "num_part v" "p = js ''=='' \<or> p = js ''>='' \<or> p = js ''<''"
  shows "rx_match time_cmp_rx (cmp_text f tz p v) = Some [(4, v), (3, p), (2, tz), (1, f)]"
  using assms unfolding time_parts_def num_part_def
  by (elim conjE disjE) (simp_all add: time_cmp_rx_def cmp_text_def js_lit hit)

lemma num_end_miss:
  assumes "num_part v"
  shows "rmatch (seqs (Cap i (cplus num_cls) # Lit (32 # l) # rs)) pre v c = []"
proof -
  have "rmatch (seqs (Cap i (cplus num_cls) # Lit (32 # l) # rs)) pre (v @ []) c =
      rmatch (seqs (Lit (32 # l) # rs)) (rev v @ pre) [] ((i, v) # c)"
    using assms unfolding num_part_def
    by (intro seqs_cap_run) (auto simp: seqs_Lit list_all_iff neq_Nil_conv)
  then show ?thesis by (simp add: seqs_Lit)
qed

lemma cmp_range_miss:
  assumes "time_parts f tz" "num_part v" "p = js ''=='' \<or> p = js ''>='' \<or> p = js ''<''"
  shows "rx_match time_range_rx (cmp_text f tz p v) = None"
  using assms unfolding time_parts_def
  by (elim conjE disjE)
    (simp_all add: time_range_rx_def range_rx_def cmp_text_def js_lit hit num_end_miss)

lemma fn_range_paren_miss:
  assumes "f \<in> set TIME_FUNCS"
  shows "rx_match time_range_paren_rx (f @ t) = None"
  using assms by (auto simp: time_range_paren_rx_def rx_match_Bos TIME_FUNCS_def js_lit rx_step)

lemma tryParseTime_range:
  "time_parts f tz \<Longrightarrow> num_part a \<Longrightarrow> num_part b \<Longrightarrow>
     tryParseTimeCondition (range_text f tz a b []) = Some (TimeCondition f tz MATCH_RANGE [] a b)"
  by (simp add: tryParseTimeCondition_def time_range_hit range_cond_def grp_def)

lemma tryParseTime_range_paren:
  "time_parts f tz \<Longrightarrow> num_part a \<Longrightarrow> num_part b \<Longrightarrow>
     tryParseTimeCondition (40 # range_text f tz a b [41]) = Some (TimeCondition f tz MATCH_RANGE [] a b)"
  by (simp add: tryParseTimeCondition_def range_paren_hit range_miss_paren range_cond_def grp_def)

lemma tryParseTime_cmp:
  assumes "time_parts f tz" "num_part v" "p = js ''=='' \<or> p = js ''>='' \<or> p = js ''<''"
  shows "tryParseTimeCondition (cmp_text f tz p v) = Some (TimeCondition f tz (time_op_mode p) v [] [])"
proof -
  have "rx_match time_range_paren_rx (cmp_text f tz p v) = None"
    using assms(1) fn_range_paren_miss by (simp add: cmp_text_def time_parts_def)
  then show ?thesis
    using cmp_range_miss [OF assms] cmp_hit [OF assms] by (simp add: tryParseTimeCondition_def grp_def)
qed

subsection \<open>Conditions on parameters and headers\<close>

definition path_part :: "jstr \<Rightarrow> bool" where
  "path_part p \<longleftrightarrow> p \<noteq> [] \<and> list_all not_quote p"

lemma time_miss:
  "tryParseTimeCondition (104 # 101 # t) = None" "tryParseTimeCondition (104 # 97 # t) = None"
  "tryParseTimeCondition (112 # t) = None"
  by (simp_all add: tryParseTimeCondition_def time_range_rx_def range_rx_def time_range_paren_rx_def
      time_cmp_rx_def rx_match_Bos time_fn_rx_def js_lit rx_step)

lemma quoted_rx_hit:
  assumes "list_all str_cls v"
  shows "rmatch quoted_rx pre (34 # v @ 34 # t) c = [(34 # rev v @ 34 # pre, t, c)]"
proof -
  have "rmatch (Alt (Cls str_cls) (Seq (Lit [92]) (Cls dot_cls))) pre' (x # s) c = [(x # pre', s, c)]"
    if "x \<in> set v" for x pre' s
    using that assms by (auto simp: list_all_iff str_cls_def)
  moreover have "rmatch (Alt (Cls str_cls) (Seq (Lit [92]) (Cls dot_cls))) pre' (34 # t) c = []" for pre'
    by (simp add: str_cls_def)
  moreover have "34 \<notin> set v" using assms by (auto simp: list_all_iff str_cls_def)
  ultimately show ?thesis
    unfolding quoted_rx_def by (simp add: seqs_Lit seqs_star_run_lit seqs_Nil)
qed

lemma seqs_cap_quoted [hit]:
  "list_all str_cls v \<Longrightarrow> rmatch (seqs (Cap i quoted_rx # rs)) pre (34 # v @ 34 # t) c =
     rmatch (seqs rs) (34 # rev v @ 34 # pre) t ((i, 34 # v @ [34]) # c)"
  by (simp add: seqs_Cons quoted_rx_hit)

lemma parse_header_exists:
  "path_part p \<Longrightarrow> tryParseRequestCondition (js ''header(\"'' @ p @ js ''\") != \"\"'') =
     Inr (Some (ParamHeaderCondition SOURCE_HEADER p MATCH_EXISTS []))"
  by (simp add: tryParseRequestCondition_def js_lit time_miss header_exists_rx_def path_part_def hit grp_def)

lemma parse_param_exists:
  "path_part p \<Longrightarrow> tryParseRequestCondition (js ''param(\"'' @ p @ js ''\") != nil'') =
     Inr (Some (ParamHeaderCondition SOURCE_PARAM p MATCH_EXISTS []))"
  by (simp add: tryParseRequestCondition_def js_lit time_miss header_exists_rx_def param_exists_rx_def
      path_part_def hit grp_def)

lemma parse_header_contains:
  assumes "path_part p" "list_all plain v"
  shows "tryParseRequestCondition (js ''has(header(\"'' @ p @ js ''\"), \"'' @ v @ js ''\")'') =
     Inr (Some (ParamHeaderCondition SOURCE_HEADER p MATCH_CONTAINS v))"
proof -
  have v: "list_all str_cls v" "list_all (\<lambda>c. c < 65536) v"
    by (rule list.pred_mono_strong [OF assms(2)], simp add: plain_def str_cls_def)+
  have "JSON_parse (34 # v @ [34]) = Some (JStr v)"
    using JSON_roundtrip [of "JStr v"] v assms(2) by (simp add: str_ok_def json_quote_plain)
  then show ?thesis
    using assms(1) v(1)
    by (simp add: tryParseRequestCondition_def js_lit time_miss header_exists_rx_def param_exists_rx_def
        header_has_rx_def contains_cond_def path_part_def hit grp_def)
qed

lemma parse_eq:
  assumes "path_part p" "s = SOURCE_PARAM \<or> s = SOURCE_HEADER" "l \<noteq> []" "list_all dot_cls l"
    and "parseExprLiteral l = Some v"
  shows "tryParseRequestCondition (s @ js ''(\"'' @ p @ js ''\") == '' @ l) =
     Inr (Some (ParamHeaderCondition s p MATCH_EQ (json_str v)))"
proof -
  have h: "tryParseTimeCondition (s @ js ''(\"'' @ p @ js ''\") == '' @ l) = None"
    using assms(2) by (auto simp: names_def js_lit time_miss)
  have eq: "rx_match eq_rx (s @ js ''(\"'' @ p @ js ''\") == '' @ l) = Some [(3, l), (2, p), (1, s)]"
    using assms(1-4) unfolding path_part_def
    by (elim conjE disjE) (simp_all add: eq_rx_def names_def js_lit hit)
  show ?thesis
    using assms(1,2) h eq assms(5) unfolding path_part_def
    by (elim conjE disjE)
      (simp_all add: tryParseRequestCondition_def parse_param_has_def parse_param_cmp_def parse_eq_cond_def
        header_exists_rx_def param_exists_rx_def header_has_rx_def param_has_rx_def param_cmp_rx_def
        names_def js_lit hit grp_def)
qed

text \<open>The second halves of the conditions that test a parameter for presence first.\<close>

lemma parse_param_has_alone:
  "tryParseRequestCondition (js ''has(param(\"'' @ t) = Inr None"
  by (simp add: tryParseRequestCondition_def parse_param_has_def parse_param_cmp_def parse_eq_cond_def
      header_exists_rx_def param_exists_rx_def header_has_rx_def param_has_rx_def param_cmp_rx_def eq_rx_def
      js_lit time_miss rx_match_Bos rx_step)

lemma parse_param_cmp_alone:
  assumes "path_part p" "x = 60 \<or> x = 62"
  shows "tryParseRequestCondition (js ''param(\"'' @ p @ js ''\") '' @ x # t) = Inr None"
  using assms unfolding path_part_def
  by (elim conjE disjE)
    (simp_all add: tryParseRequestCondition_def parse_param_has_def parse_param_cmp_def parse_eq_cond_def
      header_exists_rx_def param_exists_rx_def header_has_rx_def param_has_rx_def param_cmp_rx_def eq_rx_def
      js_lit time_miss hit)

end
