(* ===== verification/Billing_Rules.thy ===== *)
theory Billing_Rules
  imports Billing_Match
begin

text \<open>
  Round trips of billing-expr.ts: splitting at the top level, the printed conditions and groups, the
  parser as inverse of \<open>buildRequestRuleExpr\<close>, and \<open>splitBillingExprAndRequestRules\<close> as
  inverse of \<open>combineBillingExpr\<close>.
\<close>

section \<open>Splitting at the top level\<close>

text \<open>Text whose parentheses are balanced, read from depth \<open>d\<close>.\<close>

fun bal_from :: "int \<Rightarrow> jstr \<Rightarrow> bool" where
  "bal_from d [] \<longleftrightarrow> d = 0"
| "bal_from d (x # s) \<longleftrightarrow> 0 \<le> depth_after d x \<and> bal_from (depth_after d x) s"

definition balanced :: "jstr \<Rightarrow> bool" where
  "balanced s \<longleftrightarrow> bal_from 0 s"

definition no_paren :: "jchar \<Rightarrow> bool" where
  "no_paren c \<longleftrightarrow> c \<noteq> 40 \<and> c \<noteq> 41"

lemma depth_after_simps [simp]:
  "depth_after d 40 = d + 1" "depth_after d 41 = d - 1" "no_paren c \<Longrightarrow> depth_after d c = d"
  by (auto simp: depth_after_def no_paren_def)

lemma depth_after_shift: "depth_after (d + k) x = depth_after d x + k"
  by (simp add: depth_after_def Let_def)

lemma bal_from_flat: "list_all no_paren w \<Longrightarrow> 0 \<le> d \<Longrightarrow> bal_from d (w @ t) \<longleftrightarrow> bal_from d t"
  by (induction w) auto

lemma bal_from_flat_end: "list_all no_paren w \<Longrightarrow> 0 \<le> d \<Longrightarrow> bal_from d w \<longleftrightarrow> d = 0"
  using bal_from_flat [of w d "[]"] by simp

lemma bal_from_append: "bal_from d s \<Longrightarrow> bal_from d (s @ t) \<longleftrightarrow> bal_from 0 t"
  by (induction s arbitrary: d) auto

lemma split_top_inside:
  "bal_from d s \<Longrightarrow> 0 < k \<Longrightarrow> split_top sep (d + k) cur (s @ t) = split_top sep k (rev s @ cur) t"
proof (induction s arbitrary: d cur)
  case (Cons x s)
  then have "depth_after (d + k) x \<noteq> 0" by (simp add: depth_after_shift)
  then show ?case using Cons by (simp add: depth_after_shift)
qed simp

lemma split_top_paren:
  "balanced s \<Longrightarrow> split_top (32 # sep) 0 cur (40 # s @ 41 # t) =
     split_top (32 # sep) 0 (41 # rev s @ 40 # cur) t"
  using split_top_inside [of 0 s 1 "32 # sep" "40 # cur" "41 # t"] by (simp add: balanced_def)

lemma split_top_run:
  assumes "bal_from d e" "c \<notin> set e" "c \<noteq> 32" "t = [] \<or> hd t \<noteq> c"
  shows "split_top (32 # c # r) d cur (e @ t) = split_top (32 # c # r) 0 (rev e @ cur) t"
  using assms
proof (induction e arbitrary: d cur)
  case (Cons x e)
  have "\<not> starts_with (e @ t) (c # r)"
    using Cons.prems by (cases e; cases t) auto
  then show ?case using Cons by simp
qed simp

lemma split_top_sep: "sep = 32 # r \<Longrightarrow> split_top sep 0 cur (sep @ t) = rev cur # split_top sep 0 [] t"
  by (simp add: no_paren_def)

lemma split_top_join:
  assumes "sep = 32 # r" "es \<noteq> []"
    and "\<And>e cur t. e \<in> set es \<Longrightarrow> t = [] \<or> hd t = 32 \<Longrightarrow>
       split_top sep 0 cur (e @ t) = split_top sep 0 (rev e @ cur) t"
  shows "split_top sep 0 [] (join sep es) = es"
  using assms(2,3)
proof (induction es rule: induct_list012)
  case (2 e)
  then show ?case using "2.prems"(2) [of e "[]" "[]"] by simp
next
  case (3 e e' es)
  have "split_top sep 0 [] (e @ sep @ join sep (e' # es)) = split_top sep 0 (rev e) (sep @ join sep (e' # es))"
    using "3.prems"(2) [of e "sep @ join sep (e' # es)" "[]"] assms(1) by simp
  then show ?case using 3 assms(1) split_top_sep [OF assms(1)] by simp
qed simp

lemma map_trim_id: "list_all (\<lambda>e. trimmed e \<and> e \<noteq> []) es \<Longrightarrow> filter (\<lambda>p. p \<noteq> []) (map trim es) = es"
  by (induction es) (auto simp: trim_id)

lemma splitTopLevelAnd_join:
  assumes "es \<noteq> []" "list_all (\<lambda>e. trimmed e \<and> e \<noteq> []) es" "list_all (\<lambda>e. balanced e \<and> 38 \<notin> set e) es"
  shows "splitTopLevelAnd (join (js '' && '') es) = es"
proof -
  have "split_top (js '' && '') 0 [] (join (js '' && '') es) = es"
  proof (rule split_top_join)
    fix e cur and t :: jstr assume "e \<in> set es" "t = [] \<or> hd t = 32"
    then show "split_top (js '' && '') 0 cur (e @ t) = split_top (js '' && '') 0 (rev e @ cur) t"
      using assms(3) split_top_run [of 0 e 38 t] by (auto simp: js_lit list_all_iff balanced_def)
  qed (use assms in \<open>auto simp: js_lit\<close>)
  then show ?thesis using assms(2) by (simp add: splitTopLevelAnd_def map_trim_id)
qed

definition paren_text :: "jstr \<Rightarrow> bool" where
  "paren_text e \<longleftrightarrow> (\<exists>s. e = 40 # s @ [41] \<and> balanced s)"

lemma paren_text_trimmed: "paren_text e \<Longrightarrow> trimmed e \<and> e \<noteq> []"
  by (auto simp: paren_text_def trimmed_def is_ws_def)

lemma splitTopLevelMultiply_join:
  assumes "es \<noteq> []" "list_all paren_text es"
  shows "splitTopLevelMultiply (join (js '' * '') es) = es"
proof -
  have "split_top (js '' * '') 0 [] (join (js '' * '') es) = es"
  proof (rule split_top_join)
    fix e cur and t :: jstr assume "e \<in> set es"
    then obtain s where "e = 40 # s @ [41]" "balanced s" using assms(2) by (auto simp: list_all_iff paren_text_def)
    then show "split_top (js '' * '') 0 cur (e @ t) = split_top (js '' * '') 0 (rev e @ cur) t"
      using split_top_paren by (simp add: js_lit)
  qed (use assms in \<open>auto simp: js_lit\<close>)
  moreover have "list_all (\<lambda>e. trimmed e \<and> e \<noteq> []) es"
    using assms(2) paren_text_trimmed by (auto simp: list_all_iff)
  ultimately show ?thesis by (simp add: splitTopLevelMultiply_def map_trim_id)
qed

lemma balanced_join:
  "list_all no_paren sep \<Longrightarrow> list_all balanced es \<Longrightarrow> balanced (join sep es)"
  by (induction es rule: induct_list012) (auto simp: balanced_def bal_from_append bal_from_flat)

section \<open>The group pattern\<close>

lemma group_rx_hit:
  assumes X: "X \<noteq> []" and m: "num_part m"
  shows "rx_match group_rx (40 # X @ js '' ? '' @ m @ js '' : 1)'') = Some [(2, m), (1, X)]"
proof -
  let ?T = "js '' ? '' @ m @ js '' : 1)''"
  let ?rs = "[Lit (js '' ? ''), Cap 2 (cplus num_cls), Lit (js '' : 1)''), Eos]"
  have nq: "63 \<notin> set m" using m by (auto simp: num_part_def list_all_iff num_cls_def is_digit_def)
  have "rmatch (seqs ?rs) (rev (X @ u) @ [40]) v ((1, X @ u) # []) = []" if uv: "?T = u @ v" "u \<noteq> []" for u v
  proof -
    have "63 \<notin> set v \<or> v = 63 # tl v"
    proof (cases "length u = 1")
      case True
      then show ?thesis using uv by (cases u) (auto simp: js_lit)
    next
      case False
      then obtain u' where "u = 32 # 63 # u'" using uv by (cases u; cases "tl u") (auto simp: js_lit)
      then have "32 # m @ [32, 58, 32, 49, 41] = u' @ v" using uv by (simp add: js_lit)
      then have "set v \<subseteq> set (32 # m @ [32, 58, 32, 49, 41])" by (metis set_append Un_upper2)
      then show ?thesis using nq by auto
    qed
    then show ?thesis by (cases v; cases "tl v") (auto simp: js_lit seqs_Lit)
  qed
  moreover have "rmatch (seqs ?rs) (rev X @ [40]) ?T ((1, X) # []) =
      [(rev (40 # X @ ?T), [], [(2, m), (1, X)])]"
    using m by (simp add: num_part_def js_lit hit)
  ultimately obtain more where
    "rmatch (seqs (Cap 1 (cplus (\<lambda>_. True)) # ?rs)) [40] (X @ ?T) [] =
       (rev (40 # X @ ?T), [], [(2, m), (1, X)]) # more"
    using seqs_cap_longest [OF X, of "\<lambda>_. True" ?T ?rs "[40]" 1 "[]"] by (auto simp: list_all_iff)
  then show ?thesis
    by (simp add: group_rx_def rx_match_Bos seqs_Lit js_lit)
qed

section \<open>Printed conditions\<close>

text \<open>What the editor's normalisation guarantees.\<close>

fun normal :: "request_condition \<Rightarrow> bool" where
  "normal (TimeCondition f tz m v a b) \<longleftrightarrow>
     f \<in> set TIME_FUNCS \<and> tz \<noteq> [] \<and> m \<in> {MATCH_EQ, MATCH_GTE, MATCH_LT, MATCH_RANGE}"
| "normal (ParamHeaderCondition s p m v) \<longleftrightarrow>
     (s = SOURCE_HEADER \<and> m \<in> {MATCH_EQ, MATCH_CONTAINS, MATCH_EXISTS}) \<or>
     (s = SOURCE_PARAM \<and> m \<in> {MATCH_EQ, MATCH_CONTAINS, MATCH_EXISTS, MATCH_GT, MATCH_GTE, MATCH_LT, MATCH_LTE})"

definition normalized :: "request_condition \<Rightarrow> request_condition" where
  "normalized c = normalizeCondition (Some (as_partial c))"

text \<open>
  The condition that the printed text of a normalised condition stands for: values are trimmed and
  fields the mode does not use are empty; \<open>None\<close> when nothing is printed.
\<close>

fun canon_norm :: "request_condition \<Rightarrow> request_condition option" where
  "canon_norm (TimeCondition f tz m v a b) =
     (if m = MATCH_RANGE then
        (if numeric (trim a) \<and> numeric (trim b) then Some (TimeCondition f tz m [] (trim a) (trim b)) else None)
      else if numeric (trim v) then Some (TimeCondition f tz m (trim v) [] []) else None)"
| "canon_norm (ParamHeaderCondition s p m v) =
     (if trim p = [] then None
      else if m = MATCH_EXISTS then Some (ParamHeaderCondition s (trim p) m [])
      else if m \<in> {MATCH_GT, MATCH_GTE, MATCH_LT, MATCH_LTE} \<and> \<not> numeric (trim v) then None
      else Some (ParamHeaderCondition s (trim p) m (trim v)))"

definition canon_cond :: "request_condition \<Rightarrow> request_condition option" where
  "canon_cond c = canon_norm (normalized c)"

text \<open>Conditions in plain text whose form the parser has.\<close>

fun plain_norm :: "request_condition \<Rightarrow> bool" where
  "plain_norm (TimeCondition f tz m v a b) \<longleftrightarrow> list_all plain tz"
| "plain_norm (ParamHeaderCondition s p m v) \<longleftrightarrow>
     list_all plain (trim p) \<and> list_all plain (trim v) \<and>
     (s = SOURCE_HEADER \<or> m = MATCH_EQ \<or> m = MATCH_EXISTS)"

definition plain_cond :: "request_condition \<Rightarrow> bool" where
  "plain_cond c \<longleftrightarrow> plain_norm (normalized c)"

lemma option_mode_in:
  "d \<in> fst ` set (getRequestRuleMatchOptions s) \<Longrightarrow>
     option_mode s m d \<in> fst ` set (getRequestRuleMatchOptions s)"
  by (force simp: option_mode_def list_ex_iff)

lemma normal_normalize: "normal (normalizeCondition c)"
proof -
  have t: "option_mode SOURCE_TIME m MATCH_GTE \<in> {MATCH_EQ, MATCH_GTE, MATCH_LT, MATCH_RANGE}" for m
    using option_mode_in [of MATCH_GTE SOURCE_TIME m] by (auto simp: getRequestRuleMatchOptions_def)
  have h: "option_mode SOURCE_HEADER m MATCH_EQ \<in> {MATCH_EQ, MATCH_CONTAINS, MATCH_EXISTS}" for m
    using option_mode_in [of MATCH_EQ SOURCE_HEADER m]
    by (auto simp: getRequestRuleMatchOptions_def SOURCE_HEADER_def SOURCE_TIME_def js_lit)
  have p: "option_mode SOURCE_PARAM m MATCH_EQ \<in>
      {MATCH_EQ, MATCH_CONTAINS, MATCH_EXISTS, MATCH_GT, MATCH_GTE, MATCH_LT, MATCH_LTE}" for m
    using option_mode_in [of MATCH_EQ SOURCE_PARAM m]
    by (auto simp: getRequestRuleMatchOptions_def SOURCE_HEADER_def SOURCE_PARAM_def SOURCE_TIME_def js_lit)
  have f: "(if isTimeFunc x then the x else js ''hour'') \<in> set TIME_FUNCS" for x
    by (auto simp: isTimeFunc_def TIME_FUNCS_def split: option.splits)
  have tz: "or_default x (js ''Asia/Shanghai'') \<noteq> []" for x
    by (simp add: or_default_def js_lit split: option.split)
  show ?thesis
    using t h p f tz by (simp add: normalizeCondition_def norm_source_def Let_def)
qed

fun cond_text :: "request_condition \<Rightarrow> jstr" where
  "cond_text (TimeCondition f tz m v a b) = time_expr (TimeCondition f tz m v a b)"
| "cond_text (ParamHeaderCondition s p m v) = ph_expr (ParamHeaderCondition s p m v)"

lemma build_text: "buildRequestConditionExpr c = cond_text (normalized c)"
  by (cases c)
    (auto simp: buildRequestConditionExpr_def buildTimeConditionExpr_def normalized_def normalizeCondition_def
      cond_source_def norm_source_def names_def js_lit no_fields_def Let_def)

definition good_text :: "jstr \<Rightarrow> request_condition \<Rightarrow> bool" where
  "good_text e k \<longleftrightarrow> trimmed e \<and> e \<noteq> [] \<and> balanced e \<and> 38 \<notin> set e \<and>
     tryParseRequestCondition e = Inr (Some k)"

definition quiet :: "jchar \<Rightarrow> bool" where
  "quiet c \<longleftrightarrow> c \<noteq> 40 \<and> c \<noteq> 41 \<and> c \<noteq> 38 \<and> c \<noteq> 124"

lemma plain_quiet: "list_all plain s \<Longrightarrow> list_all quiet s"
  by (erule list.pred_mono_strong) (simp_all add: plain_def quiet_def)

lemma num_quiet: "num_part s \<Longrightarrow> list_all quiet s"
  unfolding num_part_def
  by (elim conjE, erule list.pred_mono_strong) (auto simp: num_cls_def is_digit_def quiet_def)

lemma fn_quiet: "f \<in> set TIME_FUNCS \<Longrightarrow> list_all quiet f"
  by (auto simp: TIME_FUNCS_def js_lit quiet_def)

lemma quiet_props:
  assumes "list_all quiet s"
  shows "38 \<notin> set s" "124 \<notin> set s" "list_all no_paren s"
  using assms by (auto simp: list_all_iff quiet_def no_paren_def)

lemma fn_hd: "f \<in> set TIME_FUNCS \<Longrightarrow> f \<noteq> [] \<and> \<not> is_ws (hd f)"
  by (auto simp: TIME_FUNCS_def js_lit is_ws_def)

lemma num_last: "num_part s \<Longrightarrow> s \<noteq> [] \<and> \<not> is_ws (last s)"
  by (auto simp: num_part_def list_all_iff num_cls_not_ws)

lemma numeric_part: "numeric s \<Longrightarrow> num_part s"
  by (simp add: num_part_def numeric_cls numeric_ne)

lemma good_range:
  assumes "time_parts f tz" "list_all plain tz" "num_part a" "num_part b"
  shows "good_text (range_text f tz a b []) (TimeCondition f tz MATCH_RANGE [] a b)"
    and "good_text (40 # range_text f tz a b [41]) (TimeCondition f tz MATCH_RANGE [] a b)"
proof -
  have f: "f \<in> set TIME_FUNCS" using assms(1) by (simp add: time_parts_def)
  note q = quiet_props [OF fn_quiet [OF f]] quiet_props [OF plain_quiet [OF assms(2)]]
    quiet_props [OF num_quiet [OF assms(3)]] quiet_props [OF num_quiet [OF assms(4)]]
  have np: "no_paren 32" "no_paren 34" "no_paren 60" "no_paren 61" "no_paren 62" "no_paren 124"
    by (simp_all add: no_paren_def)
  have p: "tryParseRequestCondition (range_text f tz a b []) = Inr (Some (TimeCondition f tz MATCH_RANGE [] a b))"
    "tryParseRequestCondition (40 # range_text f tz a b [41]) = Inr (Some (TimeCondition f tz MATCH_RANGE [] a b))"
    using tryParseTime_range [OF assms(1,3,4)] tryParseTime_range_paren [OF assms(1,3,4)]
    by (simp_all add: tryParseRequestCondition_def)
  show "good_text (range_text f tz a b []) (TimeCondition f tz MATCH_RANGE [] a b)"
    using p fn_hd [OF f] num_last [OF assms(4)] q np
    by (simp add: good_text_def range_text_def balanced_def bal_from_flat bal_from_flat_end trimmed_def)
  show "good_text (40 # range_text f tz a b [41]) (TimeCondition f tz MATCH_RANGE [] a b)"
    using p q np
    by (simp add: good_text_def range_text_def balanced_def bal_from_flat bal_from_flat_end trimmed_def is_ws_def)
qed

lemma good_cmp:
  assumes "time_parts f tz" "list_all plain tz" "num_part v" "p = js ''=='' \<or> p = js ''>='' \<or> p = js ''<''"
  shows "good_text (cmp_text f tz p v) (TimeCondition f tz (time_op_mode p) v [] [])" "124 \<notin> set (cmp_text f tz p v)"
proof -
  have f: "f \<in> set TIME_FUNCS" using assms(1) by (simp add: time_parts_def)
  have pq: "list_all quiet p" using assms(4) by (auto simp: js_lit quiet_def)
  note q = quiet_props [OF fn_quiet [OF f]] quiet_props [OF plain_quiet [OF assms(2)]]
    quiet_props [OF num_quiet [OF assms(3)]] quiet_props [OF pq]
  have np: "no_paren 32" "no_paren 34" by (simp_all add: no_paren_def)
  show "good_text (cmp_text f tz p v) (TimeCondition f tz (time_op_mode p) v [] [])"
    using tryParseTime_cmp [OF assms(1,3,4)] fn_hd [OF f] num_last [OF assms(3)] q np
    by (simp add: good_text_def cmp_text_def balanced_def bal_from_flat bal_from_flat_end trimmed_def
        tryParseRequestCondition_def)
  show "124 \<notin> set (cmp_text f tz p v)" using q by (simp add: cmp_text_def)
qed

lemma good_exists:
  assumes "list_all plain p" "p \<noteq> []"
  shows "good_text (js ''header(\"'' @ p @ js ''\") != \"\"'') (ParamHeaderCondition SOURCE_HEADER p MATCH_EXISTS [])"
    and "good_text (js ''param(\"'' @ p @ js ''\") != nil'') (ParamHeaderCondition SOURCE_PARAM p MATCH_EXISTS [])"
proof -
  have pp: "path_part p" using assms by (simp add: path_part_def plain_not_quote)
  note q = quiet_props [OF plain_quiet [OF assms(1)]]
  have d: "depth_after d c = d" if "c \<noteq> 40" "c \<noteq> 41" for d c using that by (simp add: depth_after_def)
  show "good_text (js ''header(\"'' @ p @ js ''\") != \"\"'') (ParamHeaderCondition SOURCE_HEADER p MATCH_EXISTS [])"
    unfolding good_text_def parse_header_exists [OF pp]
    using q d by (simp add: js_lit balanced_def bal_from_flat trimmed_def is_ws_def)
  show "good_text (js ''param(\"'' @ p @ js ''\") != nil'') (ParamHeaderCondition SOURCE_PARAM p MATCH_EXISTS [])"
    unfolding good_text_def parse_param_exists [OF pp]
    using q d by (simp add: js_lit balanced_def bal_from_flat trimmed_def is_ws_def)
qed

lemma good_contains:
  assumes "list_all plain p" "p \<noteq> []" "list_all plain v"
  shows "good_text (js ''has(header(\"'' @ p @ js ''\"), \"'' @ v @ js ''\")'')
     (ParamHeaderCondition SOURCE_HEADER p MATCH_CONTAINS v)"
proof -
  have pp: "path_part p" using assms by (simp add: path_part_def plain_not_quote)
  note q = quiet_props [OF plain_quiet [OF assms(1)]] quiet_props [OF plain_quiet [OF assms(3)]]
  have d: "depth_after d c = d" if "c \<noteq> 40" "c \<noteq> 41" for d c using that by (simp add: depth_after_def)
  show ?thesis
    unfolding good_text_def parse_header_contains [OF pp assms(3)]
    using q d by (simp add: js_lit balanced_def bal_from_flat trimmed_def is_ws_def)
qed

text \<open>A literal as the printer writes it.\<close>

lemma literal_eq:
  assumes "list_all plain t" "trimmed t"
    and l: "l = (if t = js ''true'' \<or> t = js ''false'' \<or> numeric t then t else 34 # t @ [34])"
  shows "parseExprLiteral l = Some (JStr t)" "l \<noteq> []" "list_all dot_cls l" "list_all quiet l" "\<not> is_ws (last l)"
proof -
  have dot: "list_all dot_cls t"
    using assms(1) by (rule list.pred_mono_strong) (simp add: plain_def dot_cls_def)
  have ok: "list_all (\<lambda>c. c < 65536) t"
    using assms(1) by (rule list.pred_mono_strong) (simp add: plain_def)
  have ws: "t \<noteq> [] \<Longrightarrow> \<not> is_ws (last t)" using assms(2) by (auto simp: trimmed_def)
  have q: "JSON_parse (34 # t @ [34]) = Some (JStr t)"
    using JSON_roundtrip [of "JStr t"] ok assms(1) by (simp add: str_ok_def json_quote_plain)
  have nq: "\<not> numeric (34 # t @ [34])"
    using numeric_cls [of "34 # t @ [34]"] by (auto simp: num_cls_def is_digit_def)
  have ws': "\<not> is_ws 34" "\<not> is_ws 101" by (simp_all add: is_ws_def)
  have "trimmed (34 # t @ [34])" using ws' by (simp add: trimmed_def)
  then have tr: "trim l = l" using assms(2) unfolding l by (simp add: trim_id)
  show "parseExprLiteral l = Some (JStr t)"
    using l q nq tr by (auto simp: parseExprLiteral_def Let_def numeric_def js_lit split: if_splits)
  show "l \<noteq> []" using l numeric_ne [of t] by (auto simp: js_lit)
  show "list_all dot_cls l" using l dot by (auto simp: dot_cls_def)
  show "list_all quiet l" using l plain_quiet [OF assms(1)] by (auto simp: quiet_def)
  show "\<not> is_ws (last l)" using l ws ws' numeric_ne [of t] by (auto simp: js_lit split: if_splits)
qed

lemma good_eq:
  assumes "list_all plain p" "p \<noteq> []" "s = SOURCE_PARAM \<or> s = SOURCE_HEADER" "list_all plain t" "trimmed t"
    and l: "l = (if t = js ''true'' \<or> t = js ''false'' \<or> numeric t then t else 34 # t @ [34])"
  shows "good_text (s @ js ''(\"'' @ p @ js ''\") == '' @ l) (ParamHeaderCondition s p MATCH_EQ t)"
    "124 \<notin> set (s @ js ''(\"'' @ p @ js ''\") == '' @ l)"
proof -
  have pp: "path_part p" using assms by (simp add: path_part_def plain_not_quote)
  note lit = literal_eq [OF assms(4,5) l]
  have sq: "list_all quiet s" "s \<noteq> []" "\<not> is_ws (hd s)"
    using assms(3) by (auto simp: names_def js_lit quiet_def is_ws_def)
  note q = quiet_props [OF plain_quiet [OF assms(1)]] quiet_props [OF lit(4)] quiet_props [OF sq(1)]
  have d: "depth_after d c = d" if "c \<noteq> 40" "c \<noteq> 41" for d c using that by (simp add: depth_after_def)
  show "good_text (s @ js ''(\"'' @ p @ js ''\") == '' @ l) (ParamHeaderCondition s p MATCH_EQ t)"
    unfolding good_text_def parse_eq [OF pp assms(3) lit(2,3,1)]
    using q d sq lit(2,5) by (simp add: js_lit balanced_def bal_from_flat bal_from_flat_end trimmed_def)
  show "124 \<notin> set (s @ js ''(\"'' @ p @ js ''\") == '' @ l)" using q by (simp add: js_lit)
qed

lemma literal_text:
  "mode \<noteq> MATCH_CONTAINS \<Longrightarrow> list_all plain (trim v) \<Longrightarrow> buildExprLiteral mode v =
     (if trim v = js ''true'' \<or> trim v = js ''false'' \<or> numeric (trim v) then trim v else 34 # trim v @ [34])"
  by (simp add: buildExprLiteral_def numeric_def json_quote_plain Let_def)

lemma no_bar_includes: "124 \<notin> set e \<Longrightarrow> \<not> str_includes e (js '' || '')"
  by (auto simp: str_includes_iff js_lit)

lemma paren_or_range: "paren_or (range_text f tz a b []) = 40 # range_text f tz a b [41]"
proof -
  have "str_includes (range_text f tz a b []) (js '' || '')"
    unfolding str_includes_iff range_text_def
    by (rule exI [of _ "f @ 40 # 34 # tz @ 34 # 41 # 32 # 62 # 61 # 32 # a"],
        rule exI [of _ "f @ 40 # 34 # tz @ 34 # 41 # 32 # 60 # 32 # b"]) (simp add: js_lit)
  then show ?thesis by (simp add: paren_or_def range_text_def js_lit)
qed

lemma time_text_good:
  assumes n: "normal (TimeCondition f tz m v a b)" "list_all plain tz"
    and k: "canon_norm (TimeCondition f tz m v a b) = Some k"
  shows "good_text (cond_text (TimeCondition f tz m v a b)) k \<and>
     good_text (paren_or (cond_text (TimeCondition f tz m v a b))) k"
proof -
  have tp: "time_parts f tz" using n by (simp add: time_parts_def plain_not_quote)
  have tz: "json_quote tz = 34 # tz @ [34]" using n(2) by (rule json_quote_plain)
  show ?thesis
  proof (cases "m = MATCH_RANGE")
    case True
    then have num: "num_part (trim a)" "num_part (trim b)"
      and k': "k = TimeCondition f tz MATCH_RANGE [] (trim a) (trim b)"
      using k by (auto split: if_splits intro: numeric_part)
    have "cond_text (TimeCondition f tz m v a b) = range_text f tz (trim a) (trim b) []"
      using True k tz by (simp add: range_text_def numeric_def js_lit Let_def split: if_splits)
    then show ?thesis using good_range [OF tp n(2) num] paren_or_range k' by simp
  next
    case False
    then have num: "num_part (trim v)" and k': "k = TimeCondition f tz m (trim v) [] []"
      using k by (auto split: if_splits intro: numeric_part)
    let ?p = "time_mode_op m"
    have p: "?p = js ''=='' \<or> ?p = js ''>='' \<or> ?p = js ''<''" by (simp add: time_mode_op_def)
    have m: "time_op_mode ?p = m"
      using n(1) False by (auto simp: time_op_mode_def time_mode_op_def names_def js_lit)
    have "cond_text (TimeCondition f tz m v a b) = cmp_text f tz ?p (trim v)"
      using False k tz by (simp add: cmp_text_def numeric_def js_lit Let_def split: if_splits)
    then show ?thesis
      using good_cmp [OF tp n(2) num p] k' m no_bar_includes by (simp add: paren_or_def)
  qed
qed

lemma ph_text_good:
  assumes n: "normal (ParamHeaderCondition s p m v)" "plain_norm (ParamHeaderCondition s p m v)"
    and k: "canon_norm (ParamHeaderCondition s p m v) = Some k"
  shows "good_text (cond_text (ParamHeaderCondition s p m v)) k \<and> 124 \<notin> set (cond_text (ParamHeaderCondition s p m v))"
proof -
  have p: "trim p \<noteq> []" "list_all plain (trim p)" "list_all plain (trim v)" using n k by (auto split: if_splits)
  note quote = json_quote_plain [OF p(2)] json_quote_plain [OF p(3)]
  note q = quiet_props [OF plain_quiet [OF p(2)]] quiet_props [OF plain_quiet [OF p(3)]]
  consider (ex) "m = MATCH_EXISTS" | (has) "m = MATCH_CONTAINS" "s = SOURCE_HEADER" | (eq) "m = MATCH_EQ"
    using n by (auto simp: names_def js_lit)
  then show ?thesis
  proof cases
    case ex
    then show ?thesis using good_exists [OF p(2,1)] quote q k n(1)
      by (auto simp: names_def js_lit split: if_splits)
  next
    case has
    then show ?thesis using good_contains [OF p(2,1,3)] quote q k
      by (auto simp: names_def js_lit buildExprLiteral_def Let_def)
  next
    case eq
    have s: "s = SOURCE_PARAM \<or> s = SOURCE_HEADER" using n(1) by auto
    have m: "MATCH_EQ \<noteq> MATCH_EXISTS" "MATCH_EQ \<noteq> MATCH_CONTAINS" "MATCH_EQ \<noteq> MATCH_GT" "MATCH_EQ \<noteq> MATCH_GTE"
      "MATCH_EQ \<noteq> MATCH_LT" "MATCH_EQ \<noteq> MATCH_LTE" "SOURCE_PARAM \<noteq> SOURCE_HEADER"
      by (simp_all add: names_def js_lit)
    note g = good_eq [OF p(2,1) s p(3) trimmed_trim, OF literal_text [OF m(2) p(3)]]
    have "cond_text (ParamHeaderCondition s p m v) =
        s @ js ''(\"'' @ trim p @ js ''\") == '' @ buildExprLiteral MATCH_EQ v"
      using eq s p(1) quote(1) m
      by (elim disjE) (simp_all add: Let_def SOURCE_PARAM_def SOURCE_HEADER_def js_lit)
    moreover have "k = ParamHeaderCondition s (trim p) MATCH_EQ (trim v)" using k eq p m by (auto split: if_splits)
    ultimately show ?thesis using g by simp
  qed
qed

lemma cond_text_empty: "normal n \<Longrightarrow> canon_norm n = None \<Longrightarrow> cond_text n = []"
  by (cases n) (auto simp: numeric_def Let_def names_def js_lit split: if_splits)

lemma cond_text_good:
  "normal n \<Longrightarrow> plain_norm n \<Longrightarrow> canon_norm n = Some k \<Longrightarrow>
     good_text (cond_text n) k \<and> good_text (paren_or (cond_text n)) k"
proof (cases n)
  case (TimeCondition f tz m v a b)
  assume "normal n" "plain_norm n" "canon_norm n = Some k"
  then show ?thesis unfolding TimeCondition by (intro time_text_good) simp_all
next
  case (ParamHeaderCondition s p m v)
  assume "normal n" "plain_norm n" "canon_norm n = Some k"
  then have "good_text (cond_text n) k" "124 \<notin> set (cond_text n)"
    using ph_text_good unfolding ParamHeaderCondition by blast+
  then show ?thesis using no_bar_includes by (simp add: paren_or_def)
qed

lemma build_good:
  assumes "plain_cond c"
  shows "case canon_cond c of None \<Rightarrow> buildRequestConditionExpr c = []
     | Some k \<Rightarrow> good_text (buildRequestConditionExpr c) k \<and> good_text (paren_or (buildRequestConditionExpr c)) k"
  using assms normal_normalize [of "Some (as_partial c)"] cond_text_empty cond_text_good
  unfolding plain_cond_def canon_cond_def build_text normalized_def [symmetric]
  by (auto split: option.split)

lemma build_all:
  "list_all plain_cond cs \<Longrightarrow>
     list_all2 (\<lambda>e k. good_text e k \<and> good_text (paren_or e) k)
       (filter (\<lambda>e. e \<noteq> []) (map buildRequestConditionExpr cs)) (List.map_filter canon_cond cs)"
proof (induction cs)
  case (Cons c cs)
  then show ?case using build_good [of c] by (auto simp: map_filter_simps good_text_def split: option.splits)
qed (simp add: map_filter_simps)

lemma parse_each_all:
  "list_all2 (\<lambda>x y. f x = Inr (Some y)) xs ys \<Longrightarrow> parse_each f xs = Inr (Some ys)"
  by (induction xs ys rule: list_all2_induct) auto

section \<open>Printed groups\<close>

definition canon_group :: "request_rule_group \<Rightarrow> request_rule_group option" where
  "canon_group g =
     (let ks = List.map_filter canon_cond (rg_conditions g); m = trim (rg_multiplier g)
      in if numeric m \<and> ks \<noteq> [] then Some \<lparr>rg_conditions = ks, rg_multiplier = m\<rparr> else None)"

definition plain_group :: "request_rule_group \<Rightarrow> bool" where
  "plain_group g \<longleftrightarrow> list_all plain_cond (rg_conditions g)"

lemma combine_conds_join:
  assumes "es \<noteq> []"
  shows "combine_conds es = join (js '' && '') (if length es = 1 then es else map paren_or es)"
  using assms by (cases es) (auto simp: combine_conds_def)

lemma conds_roundtrip:
  assumes g: "list_all2 good_text ps ks" and "ps \<noteq> []"
  shows "parse_each (\<lambda>ap. tryParseRequestCondition (trim ap)) (splitTopLevelAnd (join (js '' && '') ps)) = Inr (Some ks)"
    and "balanced (join (js '' && '') ps)" and "join (js '' && '') ps \<noteq> []"
proof -
  have all: "list_all (\<lambda>e. trimmed e \<and> e \<noteq> []) ps" "list_all (\<lambda>e. balanced e \<and> 38 \<notin> set e) ps"
    using g by (auto simp: list_all2_conv_all_nth list_all_length good_text_def)
  have "list_all2 (\<lambda>x y. tryParseRequestCondition (trim x) = Inr (Some y)) ps ks"
    using g by (rule list_all2_mono) (simp add: good_text_def trim_id)
  then show "parse_each (\<lambda>ap. tryParseRequestCondition (trim ap)) (splitTopLevelAnd (join (js '' && '') ps)) = Inr (Some ks)"
    using splitTopLevelAnd_join [OF assms(2) all] by (simp add: parse_each_all)
  show "balanced (join (js '' && '') ps)"
    using all(2) by (intro balanced_join) (auto simp: js_lit no_paren_def list_all_iff)
  show "join (js '' && '') ps \<noteq> []" using assms(2) all(1) by (cases ps; cases "tl ps") auto
qed

lemma group_text_paren:
  assumes "balanced X" "num_part m"
  shows "paren_text (40 # X @ js '' ? '' @ m @ js '' : 1)'')"
proof -
  have "balanced (X @ js '' ? '' @ m @ js '' : 1'')"
    using assms(1) quiet_props(3) [OF num_quiet [OF assms(2)]]
    by (simp add: balanced_def bal_from_append js_lit bal_from_flat no_paren_def)
  then show ?thesis unfolding paren_text_def
    by (intro exI [of _ "X @ js '' ? '' @ m @ js '' : 1''"]) (simp add: js_lit)
qed

lemma group_roundtrip:
  assumes "plain_group g"
  shows "case canon_group g of None \<Rightarrow> buildRuleGroupFactor g = []
     | Some k \<Rightarrow> paren_text (buildRuleGroupFactor g) \<and> tryParseRuleGroupFactor (buildRuleGroupFactor g) = Inr (Some k)"
proof -
  let ?m = "trim (rg_multiplier g)"
  let ?ks = "List.map_filter canon_cond (rg_conditions g)"
  let ?es = "filter (\<lambda>e. e \<noteq> []) (map buildRequestConditionExpr (rg_conditions g))"
  let ?ps = "if length ?es = 1 then ?es else map paren_or ?es"
  have all: "list_all2 (\<lambda>e k. good_text e k \<and> good_text (paren_or e) k) ?es ?ks"
    using assms build_all by (simp add: plain_group_def)
  have ps: "list_all2 good_text ?ps ?ks"
    using all by (auto simp: list_all2_conv_all_nth)
  have ne: "?es = [] \<longleftrightarrow> ?ks = []" using list_all2_lengthD [OF all] by (metis length_0_conv)
  show ?thesis
  proof (cases "numeric ?m \<and> ?ks \<noteq> []")
    case False
    then show ?thesis using ne by (auto simp: canon_group_def buildRuleGroupFactor_def numeric_def Let_def)
  next
    case True
    then have m: "num_part ?m" and es: "?es \<noteq> []" and psn: "?ps \<noteq> []"
      using ne numeric_part by auto
    let ?X = "join (js '' && '') ?ps"
    note r = conds_roundtrip [OF ps psn]
    have b: "buildRuleGroupFactor g = 40 # ?X @ js '' ? '' @ ?m @ js '' : 1)''"
      using True es combine_conds_join [OF es] by (simp add: buildRuleGroupFactor_def numeric_def Let_def js_lit)
    have "paren_text (buildRuleGroupFactor g)" unfolding b using r(2) m by (rule group_text_paren)
    moreover have "tryParseRuleGroupFactor (buildRuleGroupFactor g) = Inr (Some \<lparr>rg_conditions = ?ks, rg_multiplier = ?m\<rparr>)"
      using True r(1) unfolding b tryParseRuleGroupFactor_def group_rx_hit [OF r(3) m] by (simp add: grp_def)
    ultimately show ?thesis using True by (simp add: canon_group_def Let_def)
  qed
qed

lemma groups_all:
  "list_all plain_group gs \<Longrightarrow>
     list_all2 (\<lambda>e k. paren_text e \<and> tryParseRuleGroupFactor e = Inr (Some k))
       (filter (\<lambda>e. e \<noteq> []) (map buildRuleGroupFactor gs)) (List.map_filter canon_group gs)"
proof (induction gs)
  case (Cons g gs)
  then show ?case using group_roundtrip [of g]
    by (auto simp: map_filter_simps paren_text_def split: option.splits)
qed (simp add: map_filter_simps)

lemma paren_join_trimmed:
  assumes "es \<noteq> []" "list_all paren_text es"
  shows "trimmed (join (js '' * '') es)" "join (js '' * '') es \<noteq> []"
proof -
  have "join (js '' * '') es \<noteq> [] \<and> hd (join (js '' * '') es) = 40 \<and> last (join (js '' * '') es) = 41"
    using assms by (induction es rule: induct_list012) (auto simp: paren_text_def)
  then show "trimmed (join (js '' * '') es)" "join (js '' * '') es \<noteq> []"
    by (auto simp: trimmed_def is_ws_def)
qed

lemma rules_text:
  assumes "list_all plain_group gs" "List.map_filter canon_group gs \<noteq> []"
  obtains es where "es \<noteq> []" "list_all paren_text es" "buildRequestRuleExpr gs = join (js '' * '') es"
    "list_all2 (\<lambda>e k. tryParseRuleGroupFactor e = Inr (Some k)) es (List.map_filter canon_group gs)"
proof
  let ?es = "filter (\<lambda>e. e \<noteq> []) (map buildRuleGroupFactor gs)"
  note all = groups_all [OF assms(1)]
  show "?es \<noteq> []" using assms(2) list_all2_lengthD [OF all] by (metis length_0_conv)
  show "list_all paren_text ?es" using all by (auto simp: list_all2_conv_all_nth list_all_length)
  show "buildRequestRuleExpr gs = join (js '' * '') ?es" by (simp add: buildRequestRuleExpr_def)
  show "list_all2 (\<lambda>e k. tryParseRuleGroupFactor e = Inr (Some k)) ?es (List.map_filter canon_group gs)"
    using all by (rule list_all2_mono) simp
qed

lemma tryParse_join:
  assumes "es \<noteq> []" "list_all paren_text es" "list_all2 (\<lambda>e k. tryParseRuleGroupFactor e = Inr (Some k)) es ks"
  shows "tryParseRequestRuleExpr (join (js '' * '') es) = Inr (Some ks)"
  using assms paren_join_trimmed [OF assms(1,2)]
  by (simp add: tryParseRequestRuleExpr_def trim_id splitTopLevelMultiply_join parse_each_all)

lemma no_rules: "list_all plain_group gs \<Longrightarrow> List.map_filter canon_group gs = [] \<Longrightarrow> buildRequestRuleExpr gs = []"
  using list_all2_lengthD [OF groups_all [of gs]] by (simp add: buildRequestRuleExpr_def filter_map)

text \<open>C1: On groups in plain text, of the condition forms that the grammar of the parser has, the parser inverts
  the printer: it returns exactly the groups and conditions that were printed, with values
  trimmed; incomplete conditions and groups, which the printer leaves out, are the only ones missing.\<close>

theorem request_rules_roundtrip:
  assumes "list_all plain_group gs"
  shows "tryParseRequestRuleExpr (buildRequestRuleExpr gs) = Inr (Some (List.map_filter canon_group gs))"
proof (cases "List.map_filter canon_group gs = []")
  case True
  then show ?thesis using no_rules [OF assms] by (simp add: tryParseRequestRuleExpr_def)
next
  case False
  then show ?thesis using rules_text [OF assms] tryParse_join by metis
qed

theorem request_rules_roundtrip_witness:
  "tryParseRequestRuleExpr (buildRequestRuleExpr
     [\<lparr>rg_conditions = [ParamHeaderCondition SOURCE_PARAM (js '' a.b '') MATCH_EQ (js ''x y''),
         TimeCondition (js ''hour'') (js ''UTC'') MATCH_RANGE [] (js ''22'') (js ''6'')],
       rg_multiplier = js ''1.5''\<rparr>, createEmptyRuleGroup]) =
   Inr (Some [\<lparr>rg_conditions = [ParamHeaderCondition SOURCE_PARAM (js ''a.b'') MATCH_EQ (js ''x y''),
         TimeCondition (js ''hour'') (js ''UTC'') MATCH_RANGE [] (js ''22'') (js ''6'')],
       rg_multiplier = js ''1.5''\<rparr>])"
proof -
  let ?gs = "[\<lparr>rg_conditions = [ParamHeaderCondition SOURCE_PARAM (js '' a.b '') MATCH_EQ (js ''x y''),
         TimeCondition (js ''hour'') (js ''UTC'') MATCH_RANGE [] (js ''22'') (js ''6'')],
       rg_multiplier = js ''1.5''\<rparr>, createEmptyRuleGroup]"
  have "list_all plain_group ?gs" by code_simp
  moreover have "List.map_filter canon_group ?gs =
      [\<lparr>rg_conditions = [ParamHeaderCondition SOURCE_PARAM (js ''a.b'') MATCH_EQ (js ''x y''),
         TimeCondition (js ''hour'') (js ''UTC'') MATCH_RANGE [] (js ''22'') (js ''6'')],
       rg_multiplier = js ''1.5''\<rparr>]" by code_simp
  ultimately show ?thesis using request_rules_roundtrip [of ?gs] by simp
qed

section \<open>Conditions that test a parameter for presence first\<close>

lemma guarded_text:
  assumes p: "list_all plain p" "trimmed p" "p \<noteq> []" and v: "list_all plain v" "numeric (trim v)"
    and m: "m \<in> {MATCH_CONTAINS, MATCH_GT, MATCH_GTE, MATCH_LT, MATCH_LTE}"
  obtains e where "buildRequestConditionExpr (ParamHeaderCondition SOURCE_PARAM p m v) =
      join (js '' && '') [js ''param(\"'' @ p @ js ''\") != nil'', e]"
    "trimmed e" "e \<noteq> []" "balanced e" "38 \<notin> set e" "tryParseRequestCondition e = Inr None"
proof -
  let ?c = "ParamHeaderCondition SOURCE_PARAM p m v"
  have n: "normalized ?c = ParamHeaderCondition SOURCE_PARAM p m v"
    using m by (auto simp: normalized_def normalizeCondition_def norm_source_def or_default_def option_mode_def
        getRequestRuleMatchOptions_def or_empty_def no_fields_def names_def js_lit)
  have pp: "path_part p" using p by (simp add: path_part_def plain_not_quote)
  have tp: "trim p = p" using p(2) by (rule trim_id)
  have tv: "list_all plain (trim v)"
    using v(1) set_trim [of v] by (auto simp: list_all_iff)
  note np = numeric_part [OF v(2)]
  note q = quiet_props [OF plain_quiet [OF p(1)]] quiet_props [OF plain_quiet [OF tv]]
  have d: "depth_after d c = d" if "c \<noteq> 40" "c \<noteq> 41" for d c using that by (simp add: depth_after_def)
  show thesis
  proof (cases "m = MATCH_CONTAINS")
    case True
    let ?e = "js ''has(param(\"'' @ p @ js ''\"), \"'' @ trim v @ js ''\")''"
    have "buildRequestConditionExpr ?c = join (js '' && '') [js ''param(\"'' @ p @ js ''\") != nil'', ?e]"
      unfolding build_text n using True tp p(1,3) tv
      by (simp add: json_quote_plain buildExprLiteral_def names_def js_lit Let_def)
    then show thesis
      using q d parse_param_has_alone
      by (intro that [of ?e]) (simp_all add: js_lit balanced_def bal_from_flat trimmed_def is_ws_def)
  next
    case False
    let ?e = "js ''param(\"'' @ p @ js ''\") '' @ cmp_mode_op m @ js '' '' @ trim v"
    have o: "\<exists>x t. cmp_mode_op m = x # t \<and> (x = 60 \<or> x = 62) \<and> list_all quiet (x # t)"
      using m False by (auto simp: cmp_mode_op_def names_def js_lit quiet_def)
    then obtain x t where x: "cmp_mode_op m = x # t" "x = 60 \<or> x = 62" "list_all quiet (x # t)" by blast
    have "buildRequestConditionExpr ?c = join (js '' && '') [js ''param(\"'' @ p @ js ''\") != nil'', ?e]"
      unfolding build_text n using False m tp p(1,3) tv v(2)
      by (auto simp: json_quote_plain numeric_def names_def js_lit Let_def cmp_mode_op_def)
    moreover have "tryParseRequestCondition ?e = Inr None"
      using parse_param_cmp_alone [OF pp x(2), of "t @ js '' '' @ trim v"] x(1) by simp
    ultimately show thesis
      using q d num_last [OF np] quiet_props [OF x(3)] x(1)
      by (intro that [of ?e])
        (simp_all add: js_lit balanced_def bal_from_flat bal_from_flat_end trimmed_def is_ws_def no_paren_def)
  qed
qed



section \<open>Joining and taking apart\<close>

lemma outer_loop_inside:
  "bal_from d s \<Longrightarrow> 0 < k \<Longrightarrow> t \<noteq> [] \<Longrightarrow> outer_loop (d + k) (s @ t) = outer_loop k t"
proof (induction s arbitrary: d)
  case (Cons x s)
  then have "depth_after (d + k) x \<noteq> 0" by (simp add: depth_after_shift)
  then show ?case using Cons by (simp add: depth_after_shift)
qed simp

lemma hasFullOuterParens_paren: "balanced s \<Longrightarrow> hasFullOuterParens (40 # s @ [41])"
  using outer_loop_inside [of 0 s 1 "[41]"]
  by (simp add: hasFullOuterParens_def balanced_def js_lit ends_with_def)

lemma unwrap_paren: "balanced s \<Longrightarrow> unwrapOuterParens (40 # s @ [41]) = unwrapOuterParens s"
proof -
  assume "balanced s"
  moreover have "trim (40 # s @ [41]) = 40 # s @ [41]" by (rule trim_id) (simp add: trimmed_def is_ws_def)
  ultimately show ?thesis
    using unwrap_loop.simps [of "40 # s @ [41]"] hasFullOuterParens_paren [of s]
    by (simp add: unwrapOuterParens_def strip_ends_def)
qed

lemma sort_parts_rules:
  "list_all2 (\<lambda>e k. tryParseRequestRuleExpr e = Inr (Some [k])) es ks \<Longrightarrow> sort_parts es = Inr (es, [])"
  by (induction es ks rule: list_all2_induct) auto

text \<open>C16: Taking apart a joined billing expression gives back the base, without redundant outer
  parentheses, and the rule text unchanged, for every base with balanced parentheses that is not itself a
  rule and every non-empty list of printed rules.\<close>

theorem split_combine_roundtrip:
  assumes "list_all plain_group gs" "List.map_filter canon_group gs \<noteq> []"
    and "trim base \<noteq> []" "balanced (trim base)"
    and "tryParseRequestRuleExpr (js ''('' @ trim base @ js '')'') = Inr None"
  shows "splitBillingExprAndRequestRules (combineBillingExpr base (buildRequestRuleExpr gs)) =
     Inr \<lparr>sb_billingExpr = unwrapOuterParens base, sb_requestRuleExpr = buildRequestRuleExpr gs\<rparr>"
proof -
  obtain es where es: "es \<noteq> []" "list_all paren_text es" "buildRequestRuleExpr gs = join (js '' * '') es"
    "list_all2 (\<lambda>e k. tryParseRuleGroupFactor e = Inr (Some k)) es (List.map_filter canon_group gs)"
    using rules_text [OF assms(1,2)] by metis
  let ?b = "40 # trim base @ [41]"
  have b: "paren_text ?b" using assms(4) by (auto simp: paren_text_def)
  have c: "combineBillingExpr base (buildRequestRuleExpr gs) = join (js '' * '') (?b # es)"
    using assms(3) es(1) paren_join_trimmed [OF es(1,2)]
    by (simp add: combineBillingExpr_def es(3) trim_id join_Cons Let_def) (simp add: js_lit)
  have all: "list_all paren_text (?b # es)" using b es(2) by simp
  have "list_all2 (\<lambda>e k. tryParseRequestRuleExpr e = Inr (Some [k])) es (List.map_filter canon_group gs)"
    using es(2,4) tryParse_join [of "[e]" for e] by (auto simp: list_all2_conv_all_nth list_all_length)
  then have "sort_parts (?b # es) = Inr (es, [?b])"
    using assms(5) sort_parts_rules by (simp add: js_lit)
  moreover have "unwrapOuterParens ?b = unwrapOuterParens base"
    using unwrap_paren [OF assms(4)] by (simp only: unwrapOuterParens_def trim_trim)
  ultimately show ?thesis
    using paren_join_trimmed [OF _ all] splitTopLevelMultiply_join [OF _ all] es(1)
    unfolding c by (simp add: splitBillingExprAndRequestRules_def es(3) trim_id Let_def)
qed

theorem split_combine_roundtrip_witness:
  "splitBillingExprAndRequestRules (combineBillingExpr (js ''tier(\"base\", p * 2)'') (buildRequestRuleExpr
     [\<lparr>rg_conditions = [ParamHeaderCondition SOURCE_HEADER (js ''x-beta'') MATCH_EXISTS []], rg_multiplier = js ''2''\<rparr>])) =
   Inr \<lparr>sb_billingExpr = js ''tier(\"base\", p * 2)'', sb_requestRuleExpr = js ''(header(\"x-beta\") != \"\" ? 2 : 1)''\<rparr>"
proof -
  let ?gs = "[\<lparr>rg_conditions = [ParamHeaderCondition SOURCE_HEADER (js ''x-beta'') MATCH_EXISTS []], rg_multiplier = js ''2''\<rparr>]"
  let ?b = "js ''tier(\"base\", p * 2)''"
  have "list_all plain_group ?gs" "List.map_filter canon_group ?gs \<noteq> []" "trim ?b \<noteq> []" "balanced (trim ?b)"
    "tryParseRequestRuleExpr (js ''('' @ trim ?b @ js '')'') = Inr None"
    by code_simp+
  moreover have "unwrapOuterParens ?b = ?b" "buildRequestRuleExpr ?gs = js ''(header(\"x-beta\") != \"\" ? 2 : 1)''"
    by code_simp+
  ultimately show ?thesis using split_combine_roundtrip [of ?gs ?b] by simp
qed

lemma unwrap_loop_done: "\<not> hasFullOuterParens (unwrap_loop s)"
proof (induction s rule: unwrap_loop.induct)
  case (1 s)
  then show ?case by (cases "hasFullOuterParens s") (simp_all add: unwrap_loop.simps [of s])
qed

lemma unwrap_loop_trimmed: "trimmed s \<Longrightarrow> trimmed (unwrap_loop s)"
proof (induction s rule: unwrap_loop.induct)
  case (1 s)
  then show ?case by (cases "hasFullOuterParens s") (simp_all add: unwrap_loop.simps [of s])
qed


text \<open>A header condition whose string literal has an escape that JSON does not know makes the parser throw a
  \<open>SyntaxError\<close> instead of returning null.\<close>

lemma bad_escape_throws:
  "tryParseRequestRuleExpr (js ''(has(header(\"x\"), \"'' @ [92] @ js ''q\") ? 2 : 1)'') = Inl SyntaxError"
  by code_simp

end
