(* ===== verification/Billing_Tiers.thy ===== *)
theory Billing_Tiers
  imports Billing_Expr
begin

text \<open>
  Tiered prices: the tier parser of features/pricing/lib/billing-expr.ts
  (\<open>parseTiersFromExpr\<close>) and the visual editor of features/pricing/lib/tier-expr.ts, which
  prints a configuration (\<open>generateExprFromVisualConfig\<close>) and reads one back
  (\<open>tryParseVisualConfig\<close>).
\<close>

section \<open>Variable registry\<close>

text \<open>The priced variables without a group are the base variables of the source.\<close>

datatype var_side = SideInput | SideOutput | SideCondition

record billing_var =
  bv_key :: jstr
  bv_field :: "jstr option"
  bv_tierField :: "jstr option"
  bv_label :: jstr
  bv_shortLabel :: jstr
  bv_side :: var_side
  bv_isBase :: bool
  bv_isConditionOnly :: bool
  bv_group :: "jstr option"

definition price_var :: "string \<Rightarrow> string \<Rightarrow> string \<Rightarrow> string \<Rightarrow> string \<Rightarrow> var_side \<Rightarrow> string option \<Rightarrow> billing_var" where
  "price_var k f t l sl side g = \<lparr>bv_key = js k, bv_field = Some (js f), bv_tierField = Some (js t), bv_label = js l,
     bv_shortLabel = js sl, bv_side = side, bv_isBase = (g = None), bv_isConditionOnly = False,
     bv_group = map_option js g\<rparr>"

definition BILLING_VARS :: "billing_var list" where
  "BILLING_VARS =
     [price_var ''p'' ''inputPrice'' ''input_unit_cost'' ''Input price'' ''Input'' SideInput None,
      price_var ''c'' ''outputPrice'' ''output_unit_cost'' ''Completion price'' ''Output'' SideOutput None,
      \<lparr>bv_key = js ''len'', bv_field = None, bv_tierField = None, bv_label = js ''Input length'', bv_shortLabel = js ''Length'',
        bv_side = SideCondition, bv_isBase = False, bv_isConditionOnly = True, bv_group = None\<rparr>,
      price_var ''cr'' ''cacheReadPrice'' ''cache_read_unit_cost'' ''Cache read price'' ''Cache Read'' SideInput (Some ''cache''),
      price_var ''cc'' ''cacheCreatePrice'' ''cache_create_unit_cost'' ''Cache create price'' ''Cache Write'' SideInput (Some ''cache''),
      price_var ''cc1h'' ''cacheCreate1hPrice'' ''cache_create_1h_unit_cost'' ''Cache create (1h) price'' ''Cache Write (1h)''
        SideInput (Some ''cache''),
      price_var ''img'' ''imagePrice'' ''image_unit_cost'' ''Image input price'' ''Image In'' SideInput (Some ''media''),
      price_var ''img_o'' ''imageOutputPrice'' ''image_output_unit_cost'' ''Image output price'' ''Image Out'' SideOutput
        (Some ''media''),
      price_var ''ai'' ''audioInputPrice'' ''audio_input_unit_cost'' ''Audio input price'' ''Audio In'' SideInput (Some ''media''),
      price_var ''ao'' ''audioOutputPrice'' ''audio_output_unit_cost'' ''Audio output price'' ''Audio Out'' SideOutput
        (Some ''media'')]"

definition BILLING_PRICING_VARS :: "billing_var list" where
  "BILLING_PRICING_VARS = filter (\<lambda>v. \<not> bv_isConditionOnly v) BILLING_VARS"

definition BILLING_CONDITION_VARS :: "jstr list" where
  "BILLING_CONDITION_VARS = map bv_key (filter (\<lambda>v. bv_isBase v \<or> bv_isConditionOnly v) BILLING_VARS)"

text \<open>\<open>Object.fromEntries\<close> of keys and fields; no key is an array index, so the order is kept.\<close>

definition BILLING_VAR_KEY_TO_FIELD :: "jstr jobj" where
  "BILLING_VAR_KEY_TO_FIELD = map (\<lambda>v. (bv_key v, the (bv_field v))) BILLING_PRICING_VARS"

definition BILLING_EXTRA_VARS :: "billing_var list" where
  "BILLING_EXTRA_VARS = filter (\<lambda>v. \<not> bv_isBase v \<and> \<not> bv_isConditionOnly v) BILLING_VARS"

text \<open>Pairs of the tier field and the expression variable.\<close>

definition BILLING_CACHE_VAR_MAP :: "(jstr \<times> jstr) list" where
  "BILLING_CACHE_VAR_MAP = map (\<lambda>v. (the (bv_tierField v), bv_key v)) BILLING_EXTRA_VARS"

abbreviation ws_star :: rx where
  "ws_star \<equiv> cstar is_ws"

definition BILLING_VAR_REGEX :: rx where
  "BILLING_VAR_REGEX = seqs
     [WordB, Cap 1 (alts (map (\<lambda>v. Lit (bv_key v)) BILLING_PRICING_VARS)), ws_star, Lit (js ''*''), ws_star,
      Cap 2 (cplus num_cls)]"

section \<open>Tier parser\<close>

record tier_condition =
  tc_var :: jstr
  tc_op :: jstr
  tc_value :: jsnum

record parsed_tier =
  pt_label :: jstr
  pt_conditions :: "tier_condition list"
  pt_prices :: "jsnum jobj"

definition version_rx :: rx where
  "version_rx = seqs [Bos, Lit (js ''v''), Cap 1 (cplus is_digit), Lit (js '':''), Cap 2 (cstar (\<lambda>_. True)), Eos]"

text \<open>Version and body.\<close>

definition stripExprVersion :: "jstr \<Rightarrow> jsnum \<times> jstr" where
  "stripExprVersion s =
     (if s = [] then (num_of_nat 1, [])
      else (case rx_match version_rx s of
          Some c \<Rightarrow> (to_Number (grp c 1), grp c 2)
        | None \<Rightarrow> (num_of_nat 1, s)))"

text \<open>The loop over matches: the first coefficient of every variable counts.\<close>

fun add_coeff :: "jsnum jobj \<Rightarrow> caps \<Rightarrow> jsnum jobj" where
  "add_coeff coeffs c = (if obj_has (grp c 1) coeffs then coeffs else obj_set (grp c 1) (to_Number (grp c 2)) coeffs)"

definition price_of :: "jsnum jobj \<Rightarrow> jstr \<Rightarrow> jsnum" where
  "price_of coeffs v = (case obj_get coeffs v of None \<Rightarrow> Fin 0 0 | Some x \<Rightarrow> or_zero x)"

definition parseTierBody :: "jstr \<Rightarrow> jsnum jobj" where
  "parseTierBody bodyStr =
     (let coeffs = foldl add_coeff [] (rx_all BILLING_VAR_REGEX [] bodyStr)
      in map (\<lambda>(v, f). (f, price_of coeffs v)) BILLING_VAR_KEY_TO_FIELD)"

definition cond_var_rx :: rx where
  "cond_var_rx = Alt (Lit (js ''p'')) (Alt (Lit (js ''c'')) (Lit (js ''len'')))"

definition cond_op_rx :: rx where
  "cond_op_rx = Alt (Lit (js ''<'')) (Alt (Lit (js ''<='')) (Alt (Lit (js ''>'')) (Lit (js ''>=''))))"

definition one_cond_rx :: rx where
  "one_cond_rx = seqs [cond_var_rx, ws_star, cond_op_rx, ws_star, cplus unum_cls]"

definition and_cond_rx :: rx where
  "and_cond_rx = seqs [ws_star, Lit (js ''&&''), ws_star, cond_var_rx, ws_star, cond_op_rx, ws_star, cplus unum_cls]"

definition condGroup :: rx where
  "condGroup = Cap 1 (Seq one_cond_rx (Star and_cond_rx))"

definition cond_prefix :: rx where
  "cond_prefix = opt (seqs [condGroup, ws_star, Lit (js ''?''), ws_star])"

definition not_close :: "jchar \<Rightarrow> bool" where
  "not_close c \<longleftrightarrow> c \<noteq> 41"

definition tierRe :: rx where
  "tierRe = seqs
     [cond_prefix, Lit (js ''tier(\"''), Cap 2 (cstar not_quote), Lit (js ''\",''), ws_star,
      Cap 3 (cplus not_close), Lit (js '')'')]"

definition tier_cond_rx :: rx where
  "tier_cond_rx = seqs [Bos, Cap 1 cond_var_rx, ws_star, Cap 2 cond_op_rx, ws_star, Cap 3 (cplus unum_cls), Eos]"

text \<open>\<open>split(/\s*&&\s*/)\<close>: the pieces between leftmost matches.\<close>

definition and_sep_rx :: rx where
  "and_sep_rx = seqs [ws_star, Lit (js ''&&''), ws_star]"

function rx_split :: "rx \<Rightarrow> jstr \<Rightarrow> jstr list" where
  "rx_split r s =
     (case rx_search r [] s of
        None \<Rightarrow> [s]
      | Some (w, pre, rest, c) \<Rightarrow>
          if length rest < length s
          then take (length s - length rest - length w) s # rx_split r rest else [s])"
  by pat_completeness auto
termination
  by (relation "measure (\<lambda>(r, s). length s)") auto

declare rx_split.simps [simp del]

definition parse_tier_conditions :: "jstr \<Rightarrow> tier_condition list" where
  "parse_tier_conditions condStr =
     (if condStr = [] then []
      else List.map_filter (\<lambda>cp.
        case rx_match tier_cond_rx (trim cp) of
          None \<Rightarrow> None
        | Some c \<Rightarrow> Some \<lparr>tc_var = grp c 1, tc_op = grp c 2, tc_value = to_Number (grp c 3)\<rparr>)
        (rx_split and_sep_rx condStr))"

definition parsed_tier_of :: "caps \<Rightarrow> parsed_tier" where
  "parsed_tier_of c =
     \<lparr>pt_label = grp c 2, pt_conditions = parse_tier_conditions (grp c 1), pt_prices = parseTierBody (grp c 3)\<rparr>"

definition parseTiersFromExpr :: "jstr \<Rightarrow> parsed_tier list" where
  "parseTiersFromExpr s =
     (if s = [] then [] else map parsed_tier_of (rx_all tierRe [] (snd (stripExprVersion s))))"

definition strip_ws :: "jstr \<Rightarrow> jstr" where
  "strip_ws s = filter (\<lambda>c. \<not> is_ws c) s"

text \<open>
  Labels are compared after both comparison signs, in ASCII and full-width forms, have lost their
  equals sign, and without white space.  Lower case is that of Unicode and an argument.
\<close>

definition label_sign :: "jchar \<Rightarrow> jchar \<Rightarrow> jchar \<Rightarrow> rx" where
  "label_sign sign both wide =
     (let equals = opt (Cls (\<lambda>c. c = 61 \<or> c = 0xFF1D)) in alts [Seq (Lit [sign]) equals, Lit [both], Seq (Lit [wide]) equals])"

definition normalizeTierLabel :: "(jstr \<Rightarrow> jstr) \<Rightarrow> jstr option \<Rightarrow> jstr" where
  "normalizeTierLabel toLowerCase label =
     (case label of
        None \<Rightarrow> []
      | Some l \<Rightarrow>
          if l = [] then []
          else toLowerCase (strip_ws (join [62] (rx_split (label_sign 62 0x2265 0xFF1E)
            (join [60] (rx_split (label_sign 60 0x2264 0xFF1C) l))))))"

section \<open>Visual configuration\<close>

datatype cache_mode = CACHE_MODE_TIMED | CACHE_MODE_GENERIC

datatype cond_value = VNum jsnum | VStr jstr

record tier_condition_input =
  ci_var :: jstr
  ci_op :: jstr
  ci_value :: "cond_value option"

record visual_tier =
  vt_label :: jstr
  vt_conditions :: "tier_condition_input list"
  input_unit_cost :: jsnum
  output_unit_cost :: jsnum
  vt_cache_mode :: cache_mode
  cache_read_unit_cost :: jsnum
  cache_create_unit_cost :: jsnum
  cache_create_1h_unit_cost :: jsnum
  image_unit_cost :: jsnum
  image_output_unit_cost :: jsnum
  audio_input_unit_cost :: jsnum
  audio_output_unit_cost :: jsnum

text \<open>The fields of \<open>Partial<VisualTier>\<close> that may be absent; the costs other than the first two are in a list by field name.\<close>

record partial_tier =
  pv_label :: "jstr option"
  pv_conditions :: "tier_condition_input list option"
  pv_input :: "jsnum option"
  pv_output :: "jsnum option"
  pv_cache_mode :: "cache_mode option"
  pv_costs :: "jsnum jobj"

definition opt_Number :: "jsnum option \<Rightarrow> jsnum" where
  "opt_Number x = (case x of None \<Rightarrow> NaN | Some v \<Rightarrow> v)"

definition getTierCacheMode :: "partial_tier \<Rightarrow> cache_mode" where
  "getTierCacheMode t =
     (case pv_cache_mode t of
        Some m \<Rightarrow> m
      | None \<Rightarrow>
          if num_less (Fin 0 0) (opt_Number (obj_get (pv_costs t) (js ''cache_create_1h_unit_cost'')))
          then CACHE_MODE_TIMED else CACHE_MODE_GENERIC)"

text \<open>The spread of \<open>tier\<close> puts a given label, cost, mode and condition list back unchanged.\<close>

definition normalizeVisualTier :: "partial_tier \<Rightarrow> visual_tier" where
  "normalizeVisualTier t =
     (let cost = (\<lambda>f. or_zero (opt_Number (obj_get (pv_costs t) (js f))))
      in \<lparr>vt_label = (case pv_label t of None \<Rightarrow> [] | Some l \<Rightarrow> l),
          vt_conditions = (case pv_conditions t of None \<Rightarrow> [] | Some cs \<Rightarrow> cs),
          input_unit_cost = (case pv_input t of None \<Rightarrow> Fin 0 0 | Some x \<Rightarrow> x),
          output_unit_cost = (case pv_output t of None \<Rightarrow> Fin 0 0 | Some x \<Rightarrow> x),
          vt_cache_mode = (case pv_cache_mode t of None \<Rightarrow> getTierCacheMode t | Some m \<Rightarrow> m),
          cache_read_unit_cost = cost ''cache_read_unit_cost'',
          cache_create_unit_cost = cost ''cache_create_unit_cost'',
          cache_create_1h_unit_cost = cost ''cache_create_1h_unit_cost'',
          image_unit_cost = cost ''image_unit_cost'',
          image_output_unit_cost = cost ''image_output_unit_cost'',
          audio_input_unit_cost = cost ''audio_input_unit_cost'',
          audio_output_unit_cost = cost ''audio_output_unit_cost''\<rparr>)"

definition tier_costs :: "visual_tier \<Rightarrow> jsnum jobj" where
  "tier_costs t =
     [(js ''cache_read_unit_cost'', cache_read_unit_cost t), (js ''cache_create_unit_cost'', cache_create_unit_cost t),
      (js ''cache_create_1h_unit_cost'', cache_create_1h_unit_cost t), (js ''image_unit_cost'', image_unit_cost t),
      (js ''image_output_unit_cost'', image_output_unit_cost t), (js ''audio_input_unit_cost'', audio_input_unit_cost t),
      (js ''audio_output_unit_cost'', audio_output_unit_cost t)]"

definition tier_partial :: "visual_tier \<Rightarrow> partial_tier" where
  "tier_partial t = \<lparr>pv_label = Some (vt_label t), pv_conditions = Some (vt_conditions t),
     pv_input = Some (input_unit_cost t), pv_output = Some (output_unit_cost t),
     pv_cache_mode = Some (vt_cache_mode t), pv_costs = tier_costs t\<rparr>"

definition createDefaultVisualConfig :: "visual_tier list" where
  "createDefaultVisualConfig =
     [normalizeVisualTier \<lparr>pv_label = Some (js ''base''), pv_conditions = Some [], pv_input = Some (Fin 0 0),
        pv_output = Some (Fin 0 0), pv_cache_mode = Some CACHE_MODE_GENERIC, pv_costs = []\<rparr>]"

text \<open>A configuration is its list of tiers; \<open>None\<close> is null or undefined.\<close>

definition normalizeVisualConfig :: "visual_tier list option \<Rightarrow> visual_tier list" where
  "normalizeVisualConfig config =
     (case config of
        None \<Rightarrow> createDefaultVisualConfig
      | Some ts \<Rightarrow> if ts = [] then createDefaultVisualConfig else map (\<lambda>t. normalizeVisualTier (tier_partial t)) ts)"

subsection \<open>Printer\<close>

definition value_str :: "cond_value \<Rightarrow> jstr" where
  "value_str v = (case v of VNum x \<Rightarrow> num_str x | VStr s \<Rightarrow> s)"

definition complete_cond :: "tier_condition_input \<Rightarrow> bool" where
  "complete_cond c \<longleftrightarrow> ci_var c \<noteq> [] \<and> ci_op c \<noteq> [] \<and> ci_value c \<noteq> None \<and> ci_value c \<noteq> Some (VStr [])"

definition tier_cond_text :: "tier_condition_input \<Rightarrow> jstr" where
  "tier_cond_text c = ci_var c @ js '' '' @ ci_op c @ js '' '' @ value_str (the (ci_value c))"

definition buildConditionStr :: "tier_condition_input list \<Rightarrow> jstr" where
  "buildConditionStr conds = join (js '' && '') (map tier_cond_text (filter complete_cond conds))"

definition cost_part :: "jstr \<Rightarrow> jsnum \<Rightarrow> jstr" where
  "cost_part v x = v @ js '' * '' @ num_str x"

definition extra_part :: "visual_tier \<Rightarrow> jstr \<times> jstr \<Rightarrow> jstr option" where
  "extra_part t fv =
     (let v = or_zero (opt_Number (obj_get (tier_costs t) (fst fv)))
      in if v \<noteq> Fin 0 0 then Some (cost_part (snd fv) v) else None)"

definition buildTierBodyExpr :: "visual_tier \<Rightarrow> jstr" where
  "buildTierBodyExpr t =
     join (js '' + '')
       ([cost_part (js ''p'') (or_zero (input_unit_cost t)), cost_part (js ''c'') (or_zero (output_unit_cost t))] @
        List.map_filter (extra_part t) BILLING_CACHE_VAR_MAP)"

definition tier_call :: "jstr \<Rightarrow> visual_tier \<Rightarrow> jstr" where
  "tier_call label t = js ''tier(\"'' @ label @ js ''\", '' @ buildTierBodyExpr t @ js '')''"

definition or_label :: "jstr \<Rightarrow> jstr \<Rightarrow> jstr" where
  "or_label l d = (if l = [] then d else l)"

definition tier_label :: "nat \<Rightarrow> visual_tier \<Rightarrow> jstr" where
  "tier_label i t = or_label (vt_label t) (js ''tier_'' @ nat_str (i + 1))"

text \<open>The loop over the tiers from index \<open>i\<close> on.\<close>

fun tier_parts :: "nat \<Rightarrow> visual_tier list \<Rightarrow> jstr list" where
  "tier_parts i [] = []"
| "tier_parts i (t # ts) =
     (let body = tier_call (tier_label i t) t; cond = buildConditionStr (vt_conditions t)
      in (if ts \<noteq> [] \<and> cond \<noteq> [] then cond @ js '' ? '' @ body else body) # tier_parts (Suc i) ts)"

definition generateExprFromVisualConfig :: "visual_tier list option \<Rightarrow> jstr" where
  "generateExprFromVisualConfig config =
     (case config of
        None \<Rightarrow> js ''p * 0 + c * 0''
      | Some [] \<Rightarrow> js ''p * 0 + c * 0''
      | Some [t] \<Rightarrow>
          (let body = tier_call (or_label (vt_label t) (js ''default'')) t; cond = buildConditionStr (vt_conditions t)
           in if cond \<noteq> [] then cond @ js '' ? '' @ body @ js '' : p * 0 + c * 0'' else body)
      | Some ts \<Rightarrow> join (js '' : '') (tier_parts 0 ts))"

subsection \<open>Reader\<close>

definition plain_version_rx :: rx where
  "plain_version_rx = seqs [Bos, Lit (js ''v''), cplus is_digit, Lit (js '':''), Cap 1 (cstar (\<lambda>_. True)), Eos]"

text \<open>An optional summand of a cache or media variable; its capture is number \<open>i\<close>.\<close>

definition opt_summand :: "nat \<Rightarrow> jstr \<Rightarrow> rx" where
  "opt_summand i v = opt (seqs
     [ws_star, Lit (js ''+''), ws_star, Lit v, ws_star, Lit (js ''*''), ws_star, Cap i (cplus num_cls)])"

text \<open>The body pattern with its captures from number \<open>i\<close> on.\<close>

definition body_pat :: "nat \<Rightarrow> rx list" where
  "body_pat i =
     [Lit (js ''p''), ws_star, Lit (js ''*''), ws_star, Cap i (cplus num_cls), ws_star, Lit (js ''+''), ws_star,
      Lit (js ''c''), ws_star, Lit (js ''*''), ws_star, Cap (i + 1) (cplus num_cls)] @
     map (\<lambda>(j, fv). opt_summand j (snd fv)) (zip [i + 2..<i + 9] BILLING_CACHE_VAR_MAP)"

definition singleRe :: rx where
  "singleRe = seqs ([Bos, Lit (js ''tier(\"''), Cap 1 (cstar not_quote), Lit (js ''\",''), ws_star] @ body_pat 2 @
     [Lit (js '')''), Eos])"

definition visualTierRe :: rx where
  "visualTierRe = seqs ([cond_prefix, Lit (js ''tier(\"''), Cap 2 (cstar not_quote), Lit (js ''\",''), ws_star] @
     body_pat 3 @ [Lit (js '')'')])"

definition as_input :: "tier_condition \<Rightarrow> tier_condition_input" where
  "as_input c = \<lparr>ci_var = tc_var c, ci_op = tc_op c, ci_value = Some (VNum (tc_value c))\<rparr>"

text \<open>The tier of a match whose costs are the captures from number \<open>i\<close> on.\<close>

definition visual_of :: "nat \<Rightarrow> jstr \<Rightarrow> tier_condition list \<Rightarrow> caps \<Rightarrow> visual_tier" where
  "visual_of i label conds c =
     normalizeVisualTier \<lparr>pv_label = Some label, pv_conditions = Some (map as_input conds),
       pv_input = Some (to_Number (grp c i)), pv_output = Some (to_Number (grp c (i + 1))), pv_cache_mode = None,
       pv_costs = List.map_filter (\<lambda>(j, fv). map_option (\<lambda>w. (fst fv, to_Number w)) (map_of c j))
         (zip [i + 2..<i + 9] BILLING_CACHE_VAR_MAP)\<rparr>"

definition unversioned :: "jstr \<Rightarrow> jstr" where
  "unversioned s = (case rx_match plain_version_rx s of Some c \<Rightarrow> grp c 1 | None \<Rightarrow> s)"

definition scan_visual_tiers :: "jstr \<Rightarrow> visual_tier list" where
  "scan_visual_tiers body =
     map (\<lambda>c. visual_of 3 (grp c 2) (parse_tier_conditions (grp c 1)) c) (rx_all visualTierRe [] body)"

definition tryParseVisualConfig :: "jstr option \<Rightarrow> visual_tier list option" where
  "tryParseVisualConfig exprStr =
     (case exprStr of
        None \<Rightarrow> None
      | Some s \<Rightarrow>
          if s = [] then None
          else (case rx_match singleRe (unversioned s) of
              Some c \<Rightarrow> Some (normalizeVisualConfig (Some [visual_of 2 (grp c 1) [] c]))
            | None \<Rightarrow>
                (let tiers = scan_visual_tiers (unversioned s); cfg = normalizeVisualConfig (Some tiers)
                 in if tiers = [] then None
                    else if strip_ws (generateExprFromVisualConfig (Some cfg)) \<noteq> strip_ws (unversioned s) then None
                    else Some cfg)))"

text \<open>Pairs of the expression variable and the key of the token count.\<close>

definition ESTIMATOR_VARS :: "(jstr \<times> jstr) list" where
  "ESTIMATOR_VARS =
     [(js ''cr'', js ''cacheReadTokens''), (js ''cc'', js ''cacheCreateTokens''), (js ''cc1h'', js ''cacheCreate1hTokens''),
      (js ''img'', js ''imageTokens''), (js ''img_o'', js ''imageOutputTokens''), (js ''ai'', js ''audioInputTokens''),
      (js ''ao'', js ''audioOutputTokens'')]"

definition exprUsesExtraVars :: "jstr \<Rightarrow> bool" where
  "exprUsesExtraVars s =
     (if s = [] then False
      else rx_test (seqs [WordB, Cap 1 (alts (map (\<lambda>f. Lit (fst f)) ESTIMATOR_VARS)), WordB]) s)"

end
