(* ===== verification/Tier_Match.thy ===== *)
theory Tier_Match
  imports Billing_Tiers Billing_Match
begin

text \<open>
  What the patterns of the tier parser capture on the texts that the visual editor prints:
  prices in the body of a tier, conditions, and whole tiers.  \<open>first_match\<close> names the match that
  JavaScript reports.
\<close>

section \<open>Printed numbers\<close>

lemma nat_str_num: "list_all num_cls (nat_str n)"
  using nat_str_digits by (auto simp: list_all_iff num_cls_def)

lemma exp_str_num: "list_all num_cls (exp_str e)"
  using nat_str_num by (auto simp: exp_str_def js_lit num_cls_def)

lemma list_all_take_drop: "list_all P s \<Longrightarrow> list_all P (take n s) \<and> list_all P (drop n s)"
  by (auto simp: list_all_iff dest: in_set_takeD in_set_dropD)

lemma layout_num:
  assumes "list_all num_cls ds" "ds \<noteq> []"
  shows "list_all num_cls (layout ds n)" "layout ds n \<noteq> []"
proof -
  have z: "list_all num_cls (replicate k 48)" for k by (auto simp: list_all_iff num_cls_def is_digit_def)
  have l: "num_cls 46" "num_cls 48" by (simp_all add: num_cls_def is_digit_def)
  show "list_all num_cls (layout ds n)"
    using assms(1) list_all_take_drop [OF assms(1)] exp_str_num z l by (simp add: layout_def js_lit)
  show "layout ds n \<noteq> []" using assms(2) by (simp add: layout_def js_lit)
qed

lemma pos_str_num: "list_all num_cls (pos_str m e)" "pos_str m e \<noteq> []"
proof -
  have "list_all num_cls (digits_layout p)" "digits_layout p \<noteq> []" for p
    using layout_num [OF nat_str_num nat_str_ne] by (cases p; simp)+
  moreover have "\<exists>p. pos_str m e = digits_layout p"
    by (cases "frac m e") (simp only: pos_str_def frac_str.simps, blast)
  ultimately show "list_all num_cls (pos_str m e)" "pos_str m e \<noteq> []" by metis+
qed

lemma num_str_num: "num_isFinite x \<Longrightarrow> list_all num_cls (num_str x) \<and> num_str x \<noteq> []"
  using pos_str_num by (cases x) (auto simp: js_lit num_cls_def is_digit_def)

text \<open>Finite numbers that read back; every binary64 value is one, and a concrete one is checked by evaluation.\<close>

definition num_back :: "jsnum \<Rightarrow> bool" where
  "num_back x \<longleftrightarrow> num_isFinite x \<and> to_Number (num_str x) = x"

section \<open>The body of a tier\<close>

definition var_keys :: "jstr list" where
  "var_keys = map bv_key BILLING_PRICING_VARS"

lemma var_keys_eq:
  "var_keys = [[112], [99], [99, 114], [99, 99], [99, 99, 49, 104], [105, 109, 103], [105, 109, 103, 95, 111],
     [97, 105], [97, 111]]"
  by code_simp

lemma var_alts_eq:
  "alts (map (\<lambda>v. Lit (bv_key v)) BILLING_PRICING_VARS) =
     Alt (Lit [112]) (Alt (Lit [99]) (Alt (Lit [99, 114]) (Alt (Lit [99, 99]) (Alt (Lit [99, 99, 49, 104])
       (Alt (Lit [105, 109, 103]) (Alt (Lit [105, 109, 103, 95, 111]) (Alt (Lit [97, 105]) (Lit [97, 111]))))))))"
proof -
  have "map (\<lambda>v. Lit (bv_key v)) BILLING_PRICING_VARS = map Lit var_keys" by (simp add: var_keys_def)
  then show ?thesis by (simp only: var_keys_eq list.map alts.simps)
qed

lemma seqs_cstar_stop:
  "\<not> P y \<Longrightarrow> \<not> P x \<Longrightarrow> rmatch (seqs (cstar P # Lit (x # l) # rs)) pre (y # t) c = rmatch (seqs (Lit (x # l) # rs)) pre (y # t) c"
  "\<not> P y \<Longrightarrow> \<not> P x \<Longrightarrow> P z \<Longrightarrow> rmatch (seqs (cstar P # Lit (x # l) # rs)) pre (z # y # t) c =
     rmatch (seqs (Lit (x # l) # rs)) (z # pre) (y # t) c"
  using seqs_cstar_lit [of P "[]" "y # t" x l rs pre c] seqs_cstar_lit [of P "[z]" "y # t" x l rs pre c] by simp_all

lemma var_hit:
  assumes "v \<in> set var_keys" "\<not> hd_word pre" "n \<noteq> []" "list_all num_cls n" "t = [] \<or> \<not> num_cls (hd t)"
  shows "first_match BILLING_VAR_REGEX pre ((v @ 32 # 42 # 32 # n) @ t) [] (rev n @ 32 # 42 # 32 # rev v @ pre, t, [(2, n), (1, v)])"
proof -
  have ws: "is_ws 32" "\<not> is_ws 42" "\<not> is_ws 114" "\<not> is_ws 99" "\<not> is_ws 49" "\<not> is_ws 95" by (simp_all add: is_ws_def)
  have n: "\<not> is_ws (hd (n @ t))" using assms(3,4) by (cases n) (auto simp: num_cls_not_ws)
  have r: "rmatch (seqs (Cap 1 (alts (map (\<lambda>v. Lit (bv_key v)) BILLING_PRICING_VARS)) # ws_star # Lit [42] # rs)) pre'
      (v @ 32 # 42 # u) [] = rmatch (seqs rs) (42 # 32 # rev v @ pre') u [(1, v)]" for rs pre' u
    using assms(1) unfolding var_keys_eq var_alts_eq list.set insert_iff empty_iff
    by (elim disjE FalseE) (simp_all add: rx_step seqs_cstar_stop ws)
  have w: "hd_word (v @ u)" for u using assms(1) by (auto simp: var_keys_eq hd_word_def is_word_char_def)
  have "first_match (seqs [ws_star, Cap 2 (cplus num_cls)]) p (32 # n @ t) c
      (rev n @ 32 # p, t, (2, n) # c)" for p c
  proof (rule first_match_Cons [OF _ first_match_Cons [OF _ first_match_Nil]])
    show "first_match ws_star p (32 # n @ t) c (32 # p, n @ t, c)"
      using first_match_cstar [of is_ws "[32]" "n @ t" p c] ws n by simp
    show "first_match (Cap 2 (cplus num_cls)) (32 # p) (n @ t) c (rev n @ 32 # p, t, (2, n) # c)"
      by (intro first_match_Cap first_match_cplus assms)
  qed
  then have "first_match BILLING_VAR_REGEX pre (v @ 32 # 42 # 32 # n @ t) []
      (rev n @ 32 # 42 # 32 # rev v @ pre, t, [(2, n), (1, v)])"
    using w assms(2) unfolding BILLING_VAR_REGEX_def first_match_def
    by (simp add: seqs_Cons [of WordB] js_lit r del: One_nat_def)
  then show ?thesis by simp
qed

definition part_text :: "jstr \<times> jsnum \<Rightarrow> jstr" where
  "part_text p = cost_part (fst p) (snd p)"

definition part_caps :: "jstr \<times> jsnum \<Rightarrow> caps" where
  "part_caps p = [(2, num_str (snd p)), (1, fst p)]"

lemma var_miss: "x \<notin> {112, 99, 105, 97} \<Longrightarrow> rmatch BILLING_VAR_REGEX pre (x # s) c = []"
  unfolding BILLING_VAR_REGEX_def var_alts_eq
  by (simp add: seqs_Cons [of WordB] rx_step del: One_nat_def)

lemma var_miss_end: "rmatch BILLING_VAR_REGEX pre [] c = []"
  unfolding BILLING_VAR_REGEX_def var_alts_eq
  by (simp add: seqs_Cons [of WordB] rx_step del: One_nat_def)

lemma body_matches:
  assumes "list_all (\<lambda>p. fst p \<in> set var_keys \<and> num_isFinite (snd p)) ps" "ps \<noteq> []"
  shows "\<not> hd_word pre \<Longrightarrow> rx_all BILLING_VAR_REGEX pre (join (js '' + '') (map part_text ps)) = map part_caps ps"
    and "rx_all BILLING_VAR_REGEX pre (js '' + '' @ join (js '' + '') (map part_text ps)) = map part_caps ps"
proof -
  have pt: "part_text p = fst p @ 32 # 42 # 32 # num_str (snd p)" for p
    by (simp add: part_text_def cost_part_def js_lit)
  have plus: "skips BILLING_VAR_REGEX pre' (js '' + '') s" for pre' s
    by (simp add: js_lit var_miss)
  have hit: "first_match BILLING_VAR_REGEX pre' (part_text p @ t) []
       (rev (num_str (snd p)) @ 32 # 42 # 32 # rev (fst p) @ pre', t, part_caps p)"
    if "fst p \<in> set var_keys" "num_isFinite (snd p)" "\<not> hd_word pre'" "t = [] \<or> \<not> num_cls (hd t)" for p pre' t
    using var_hit [OF that(1,3) _ _ that(4)] num_str_num [OF that(2)] by (simp add: pt part_caps_def)
  have ne: "part_text p \<noteq> []" for p by (simp add: pt)
  have nc: "js '' + '' @ u = [] \<or> \<not> num_cls (hd (js '' + '' @ u))" for u by (simp add: js_lit)
  have nw: "\<not> hd_word (rev (js '' + '') @ pre')" for pre' by (simp add: js_lit hd_word_def is_word_char_def)
  define K where "K p pre' = rev (num_str (snd p)) @ 32 # 42 # 32 # rev (fst p) @ pre'" for p :: "jstr \<times> jsnum" and pre'
  have one: "rx_all BILLING_VAR_REGEX pre' (part_text p @ t) = part_caps p # rx_all BILLING_VAR_REGEX (K p pre') t"
    if "fst p \<in> set var_keys" "num_isFinite (snd p)" "\<not> hd_word pre'" "t = [] \<or> \<not> num_cls (hd t)" for p pre' t
    using rx_all_first [where u = "[]", OF _ _ ne, simplified, OF hit [OF that]] by (simp add: K_def)
  have two: "rx_all BILLING_VAR_REGEX pre' (js '' + '' @ part_text p @ t) =
      part_caps p # rx_all BILLING_VAR_REGEX (K p (rev (js '' + '') @ pre')) t"
    if "fst p \<in> set var_keys" "num_isFinite (snd p)" "t = [] \<or> \<not> num_cls (hd t)" for p pre' t
    using rx_all_first [OF plus hit [OF that(1,2) nw that(3)] ne] by (simp add: K_def)
  have e: "rx_all BILLING_VAR_REGEX pre' [] = []" for pre'
    by (rule rx_all_none) (simp_all add: var_miss_end)
  have both: "(\<not> hd_word pre \<longrightarrow> rx_all BILLING_VAR_REGEX pre (join (js '' + '') (map part_text ps)) = map part_caps ps) \<and>
     rx_all BILLING_VAR_REGEX pre (js '' + '' @ join (js '' + '') (map part_text ps)) = map part_caps ps" for pre
    using assms
  proof (induction ps arbitrary: pre rule: induct_list012)
    case (2 p)
    then show ?case using one [of p pre "[]"] two [of p "[]" pre] e by simp
  next
    case (3 p q ps)
    let ?t = "js '' + '' @ join (js '' + '') (map part_text (q # ps))"
    have "rx_all BILLING_VAR_REGEX pre' ?t = map part_caps (q # ps)" for pre' using 3 by simp
    moreover have p: "fst p \<in> set var_keys" "num_isFinite (snd p)" using 3 by simp_all
    ultimately show ?case
      using one [OF p _ nc, of pre "join (js '' + '') (map part_text (q # ps))"]
        two [OF p nc, of pre "join (js '' + '') (map part_text (q # ps))"] by simp
  qed simp
  show "\<not> hd_word pre \<Longrightarrow> rx_all BILLING_VAR_REGEX pre (join (js '' + '') (map part_text ps)) = map part_caps ps"
    and "rx_all BILLING_VAR_REGEX pre (js '' + '' @ join (js '' + '') (map part_text ps)) = map part_caps ps"
    using both by blast+
qed

text \<open>The first coefficient of a variable is the one that counts.\<close>

lemma coeffs_get:
  "obj_get (foldl add_coeff ob cs) k =
     (case obj_get ob k of Some x \<Rightarrow> Some x
      | None \<Rightarrow> map_of (map (\<lambda>c. (grp c 1, to_Number (grp c 2))) cs) k)"
proof (induction cs arbitrary: ob)
  case (Cons c cs)
  have "obj_has (grp c 1) ob \<longleftrightarrow> obj_get ob (grp c 1) \<noteq> None"
    by (simp add: obj_has_def obj_get_def map_of_eq_None_iff)
  then show ?case
    using Cons [of "add_coeff ob c"] by (auto simp: obj_get_set split: option.splits)
qed (simp split: option.split)

definition extra_cost :: "visual_tier \<Rightarrow> jstr \<Rightarrow> jsnum" where
  "extra_cost t f = or_zero (opt_Number (obj_get (tier_costs t) f))"

definition cost_parts :: "visual_tier \<Rightarrow> (jstr \<times> jsnum) list" where
  "cost_parts t =
     (js ''p'', or_zero (input_unit_cost t)) # (js ''c'', or_zero (output_unit_cost t)) #
     List.map_filter (\<lambda>fv. if extra_cost t (fst fv) \<noteq> Fin 0 0 then Some (snd fv, extra_cost t (fst fv)) else None)
       BILLING_CACHE_VAR_MAP"

definition tier_prices :: "visual_tier \<Rightarrow> jsnum jobj" where
  "tier_prices t =
     [(js ''inputPrice'', or_zero (input_unit_cost t)), (js ''outputPrice'', or_zero (output_unit_cost t)),
      (js ''cacheReadPrice'', or_zero (cache_read_unit_cost t)), (js ''cacheCreatePrice'', or_zero (cache_create_unit_cost t)),
      (js ''cacheCreate1hPrice'', or_zero (cache_create_1h_unit_cost t)), (js ''imagePrice'', or_zero (image_unit_cost t)),
      (js ''imageOutputPrice'', or_zero (image_output_unit_cost t)), (js ''audioInputPrice'', or_zero (audio_input_unit_cost t)),
      (js ''audioOutputPrice'', or_zero (audio_output_unit_cost t))]"

definition costs_ok :: "visual_tier \<Rightarrow> bool" where
  "costs_ok t \<longleftrightarrow> list_all (\<lambda>p. num_back (snd p)) (cost_parts t)"

lemma build_body: "buildTierBodyExpr t = join (js '' + '') (map part_text (cost_parts t))"
proof -
  have "List.map_filter (extra_part t) L = map part_text (List.map_filter
      (\<lambda>fv. if extra_cost t (fst fv) \<noteq> Fin 0 0 then Some (snd fv, extra_cost t (fst fv)) else None) L)" for L
    by (induction L) (auto simp: map_filter_simps extra_part_def extra_cost_def part_text_def Let_def)
  then show ?thesis by (simp add: buildTierBodyExpr_def cost_parts_def part_text_def)
qed

lemma cache_var_map_eq:
  "BILLING_CACHE_VAR_MAP =
     [(js ''cache_read_unit_cost'', js ''cr''), (js ''cache_create_unit_cost'', js ''cc''),
      (js ''cache_create_1h_unit_cost'', js ''cc1h''), (js ''image_unit_cost'', js ''img''),
      (js ''image_output_unit_cost'', js ''img_o''), (js ''audio_input_unit_cost'', js ''ai''),
      (js ''audio_output_unit_cost'', js ''ao'')]"
  by code_simp

lemma key_to_field_eq:
  "BILLING_VAR_KEY_TO_FIELD =
     [(js ''p'', js ''inputPrice''), (js ''c'', js ''outputPrice''), (js ''cr'', js ''cacheReadPrice''),
      (js ''cc'', js ''cacheCreatePrice''), (js ''cc1h'', js ''cacheCreate1hPrice''), (js ''img'', js ''imagePrice''),
      (js ''img_o'', js ''imageOutputPrice''), (js ''ai'', js ''audioInputPrice''), (js ''ao'', js ''audioOutputPrice'')]"
  by code_simp

lemma cost_parts_vars: "list_all (\<lambda>p. fst p \<in> set var_keys) (cost_parts t)"
  by (auto simp: list_all_iff cost_parts_def cache_var_map_eq set_map_filter var_keys_eq js_lit split: if_splits)

lemma map_of_nonzero:
  "map_of (List.map_filter (\<lambda>fv. if g (fst fv) \<noteq> z then Some (snd fv, g (fst fv)) else None) ((f, k) # L)) v =
     (if k = v \<and> g f \<noteq> z then Some (g f)
      else map_of (List.map_filter (\<lambda>fv. if g (fst fv) \<noteq> z then Some (snd fv, g (fst fv)) else None) L) v)"
  by (simp add: map_filter_simps)

lemma cost_parts_get:
  assumes "(f, v) \<in> set BILLING_CACHE_VAR_MAP"
  shows "map_of (cost_parts t) v = (if extra_cost t f \<noteq> Fin 0 0 then Some (extra_cost t f) else None)"
  using assms unfolding cost_parts_def cache_var_map_eq list.set insert_iff empty_iff prod.inject
  by (elim disjE FalseE conjE) (simp_all add: map_of_nonzero del: map_filter_simps, simp_all)

lemma or_zero_or_zero [simp]: "or_zero (or_zero x) = or_zero x"
  by (simp add: or_zero_def)

lemma parseTierBody_build:
  assumes "costs_ok t"
  shows "parseTierBody (buildTierBodyExpr t) = tier_prices t"
proof -
  have ok: "list_all (\<lambda>p. fst p \<in> set var_keys \<and> num_isFinite (snd p)) (cost_parts t)"
    using assms cost_parts_vars [of t] by (auto simp: list_all_iff costs_ok_def num_back_def)
  have ne: "cost_parts t \<noteq> []" by (simp add: cost_parts_def)
  let ?co = "foldl add_coeff [] (map part_caps (cost_parts t))"
  have rb: "map (\<lambda>c. (grp c 1, to_Number (grp c 2))) (map part_caps (cost_parts t)) = cost_parts t"
    using assms by (auto simp: costs_ok_def num_back_def part_caps_def grp_def list_all_iff intro!: map_idI)
  have get: "obj_get ?co k = map_of (cost_parts t) k" for k
    unfolding coeffs_get rb by (simp add: obj_get_def)
  have extra: "price_of ?co v = extra_cost t f" if "(f, v) \<in> set BILLING_CACHE_VAR_MAP" for f v
    using cost_parts_get [OF that, of t] by (simp add: price_of_def get extra_cost_def)
  have base: "price_of ?co (js ''p'') = or_zero (input_unit_cost t)" "price_of ?co (js ''c'') = or_zero (output_unit_cost t)"
    unfolding price_of_def get by (simp_all add: cost_parts_def)
  have "rx_all BILLING_VAR_REGEX [] (buildTierBodyExpr t) = map part_caps (cost_parts t)"
    unfolding build_body by (rule body_matches(1) [OF ok ne]) (simp add: hd_word_def)
  then show ?thesis
    using extra base
    by (simp add: parseTierBody_def key_to_field_eq cache_var_map_eq tier_prices_def extra_cost_def tier_costs_def
        obj_get_def opt_Number_def)
qed

section \<open>Tier conditions\<close>

definition cond_vars :: "jstr list" where
  "cond_vars = [js ''p'', js ''c'', js ''len'']"

definition cond_ops :: "jstr list" where
  "cond_ops = [js ''<'', js ''<='', js ''>'', js ''>='']"

text \<open>A complete condition as the editor offers it, with a bound that prints without a minus sign.\<close>

definition cond_ok :: "tier_condition_input \<Rightarrow> bool" where
  "cond_ok c \<longleftrightarrow> ci_var c \<in> set cond_vars \<and> ci_op c \<in> set cond_ops \<and>
     value_str (the (ci_value c)) \<noteq> [] \<and> list_all unum_cls (value_str (the (ci_value c)))"

lemma ws_facts: "is_ws 32" "\<not> is_ws 38" "\<not> is_ws 63" "\<not> is_ws 60" "\<not> is_ws 61" "\<not> is_ws 62" "\<not> is_ws 116"
  by (simp_all add: is_ws_def)

lemma unum_not_ws: "unum_cls x \<Longrightarrow> \<not> is_ws x \<and> x \<noteq> 38"
  by (auto simp: unum_cls_def is_digit_not_ws) (simp_all add: is_ws_def is_digit_def)

lemma first_ws: "\<not> is_ws (hd s) \<Longrightarrow> s \<noteq> [] \<Longrightarrow> first_match ws_star pre (32 # s) c (32 # pre, s, c)"
  using first_match_cstar [of is_ws "[32]" s pre c] ws_facts by simp

lemma first_no_ws: "\<not> is_ws (hd s) \<Longrightarrow> s \<noteq> [] \<Longrightarrow> first_match ws_star pre s c (pre, s, c)"
  using first_match_cstar [of is_ws "[]" s pre c] by simp

lemma seqs_Alt: "rmatch (seqs (Alt r1 r2 # rs)) pre s c = rmatch (seqs (r1 # rs)) pre s c @ rmatch (seqs (r2 # rs)) pre s c"
  by (simp add: seqs_Cons)

lemma var_step:
  "v \<in> set cond_vars \<Longrightarrow> rmatch (seqs (cond_var_rx # rs)) pre (v @ s) c = rmatch (seqs rs) (rev v @ pre) s c"
  "v \<in> set cond_vars \<Longrightarrow> rmatch (seqs (Cap i cond_var_rx # rs)) pre (v @ s) c = rmatch (seqs rs) (rev v @ pre) s ((i, v) # c)"
  by (auto simp: cond_vars_def cond_var_rx_def js_lit seqs_Alt rx_step)

lemma op_step:
  assumes "\<And>p u d. rmatch (seqs rs) p (61 # u) d = []" "q \<in> set cond_ops"
  shows "rmatch (seqs (cond_op_rx # rs)) pre (q @ 32 # s) c = rmatch (seqs rs) (rev q @ pre) (32 # s) c"
    "rmatch (seqs (Cap i cond_op_rx # rs)) pre (q @ 32 # s) c = rmatch (seqs rs) (rev q @ pre) (32 # s) ((i, q) # c)"
  using assms by (auto simp: cond_ops_def cond_op_rx_def js_lit seqs_Alt rx_step)

lemma ws_num_miss:
  "rmatch (seqs (ws_star # cplus unum_cls # rs)) p (61 # u) d = []"
  "rmatch (seqs (ws_star # Cap i (cplus unum_cls) # rs)) p (61 # u) d = []"
proof -
  have "rmatch (cplus unum_cls) q (61 # u) d = []" for q by (simp add: cplus_def unum_cls_def is_digit_def)
  moreover have "rmatch ws_star p (61 # u) d = [(p, 61 # u, d)]"
    by (simp add: cstar_def rmatch_star_cls ws_facts)
  ultimately show "rmatch (seqs (ws_star # cplus unum_cls # rs)) p (61 # u) d = []"
    "rmatch (seqs (ws_star # Cap i (cplus unum_cls) # rs)) p (61 # u) d = []"
    by (simp_all add: seqs_Cons)
qed

lemma op_hd: "q \<in> set cond_ops \<Longrightarrow> q \<noteq> [] \<and> \<not> is_ws (hd q) \<and> 38 \<notin> set q"
  by (auto simp: cond_ops_def js_lit ws_facts)

lemma var_hd: "v \<in> set cond_vars \<Longrightarrow> v \<noteq> [] \<and> \<not> is_ws (hd v) \<and> 38 \<notin> set v"
  by (auto simp: cond_vars_def js_lit is_ws_def)

text \<open>The part of the condition patterns after the variable.\<close>

lemma cond_tail_first:
  assumes "q \<in> set cond_ops" "n \<noteq> []" "list_all unum_cls n" "t = [] \<or> \<not> unum_cls (hd t)"
  shows "first_match (seqs [ws_star, cond_op_rx, ws_star, cplus unum_cls]) pre (32 # q @ 32 # n @ t) c
     (rev n @ 32 # rev q @ 32 # pre, t, c)"
proof (rule first_match_Cons [OF first_ws])
  have n: "\<not> is_ws (hd (n @ t))" "n @ t \<noteq> []" using assms(2,3) unum_not_ws by (cases n; auto)+
  have "first_match (seqs [ws_star, cplus unum_cls]) p (32 # n @ t) c (rev n @ 32 # p, t, c)" for p
    by (rule first_match_Cons [OF first_ws [OF n] first_match_Cons [OF first_match_cplus first_match_Nil]]) (use assms in auto)
  then show "first_match (seqs [cond_op_rx, ws_star, cplus unum_cls]) (32 # pre) (q @ 32 # n @ t) c
      (rev n @ 32 # rev q @ 32 # pre, t, c)"
    unfolding first_match_def op_step(1) [OF ws_num_miss(1) assms(1)] by simp
qed (use op_hd [OF assms(1)] in auto)

lemma cond_text_eq: "tier_cond_text c = ci_var c @ 32 # ci_op c @ 32 # value_str (the (ci_value c))"
  by (simp add: tier_cond_text_def js_lit)

lemma one_cond_first:
  assumes "cond_ok c" "t = [] \<or> \<not> unum_cls (hd t)"
  shows "first_match one_cond_rx pre (tier_cond_text c @ t) d (rev (tier_cond_text c) @ pre, t, d)"
  using cond_tail_first [of "ci_op c" "value_str (the (ci_value c))" t "rev (ci_var c) @ pre" d] assms
  by (simp add: first_match_def one_cond_rx_def cond_text_eq var_step(1) cond_ok_def)

lemma and_cond_first:
  assumes "cond_ok c" "t = [] \<or> \<not> unum_cls (hd t)"
  shows "first_match and_cond_rx pre (32 # 38 # 38 # 32 # tier_cond_text c @ t) d
     (rev (tier_cond_text c) @ 32 # 38 # 38 # 32 # pre, t, d)"
proof -
  have v: "\<not> is_ws (hd (tier_cond_text c @ t))" "tier_cond_text c @ t \<noteq> []"
    using var_hd [of "ci_var c"] assms(1) by (auto simp: cond_text_eq cond_ok_def)
  have "first_match (seqs [cond_var_rx, ws_star, cond_op_rx, ws_star, cplus unum_cls]) p (tier_cond_text c @ t) d
      (rev (tier_cond_text c) @ p, t, d)" for p
    using one_cond_first [OF assms] by (simp add: one_cond_rx_def)
  then have "first_match (seqs [ws_star, cond_var_rx, ws_star, cond_op_rx, ws_star, cplus unum_cls]) p
      (32 # tier_cond_text c @ t) d (rev (tier_cond_text c) @ 32 # p, t, d)" for p
    by (rule first_match_Cons [OF first_ws [OF v]])
  then have "first_match (seqs [Lit (js ''&&''), ws_star, cond_var_rx, ws_star, cond_op_rx, ws_star, cplus unum_cls]) p
      (38 # 38 # 32 # tier_cond_text c @ t) d (rev (tier_cond_text c) @ 32 # 38 # 38 # p, t, d)" for p
    by (simp add: first_match_def seqs_Lit js_lit)
  then show ?thesis unfolding and_cond_rx_def
    by (intro first_match_Cons [OF first_ws]) (simp_all add: ws_facts)
qed

lemma and_cond_stop: "rmatch and_cond_rx pre (32 # 63 # u) d = []"
  unfolding and_cond_rx_def js_lit
  using seqs_cstar_lit [of is_ws "[32]" "63 # u" 38] by (simp add: ws_facts seqs_Lit)

lemma and_conds_first:
  "list_all cond_ok cs \<Longrightarrow> t = 32 # 63 # u \<Longrightarrow>
     first_match (Star and_cond_rx) pre (concat (map (\<lambda>c. js '' && '' @ tier_cond_text c) cs) @ t) d
       (rev (concat (map (\<lambda>c. js '' && '' @ tier_cond_text c) cs)) @ pre, t, d)"
proof (induction cs arbitrary: pre)
  case Nil
  then show ?case using first_match_Star_stop [OF and_cond_stop] by simp
next
  case (Cons c cs)
  let ?r = "concat (map (\<lambda>c. js '' && '' @ tier_cond_text c) cs) @ t"
  have "?r = [] \<or> \<not> unum_cls (hd ?r)" using Cons.prems by (cases cs) (auto simp: js_lit unum_cls_def is_digit_def)
  then have "first_match and_cond_rx pre (32 # 38 # 38 # 32 # tier_cond_text c @ ?r) d
      (rev (tier_cond_text c) @ 32 # 38 # 38 # 32 # pre, ?r, d)"
    using Cons.prems by (intro and_cond_first) auto
  from first_match_Star_step [OF this _ Cons.IH] show ?case
    using Cons.prems by (simp add: js_lit)
qed

lemma join_concat: "join sep (x # xs) = x @ concat (map (\<lambda>y. sep @ y) xs)"
  by (induction xs arbitrary: x) (auto simp: join_Cons)

lemma condGroup_first:
  assumes "list_all cond_ok cs" "cs \<noteq> []"
  shows "first_match condGroup pre (join (js '' && '') (map tier_cond_text cs) @ 32 # 63 # u) d
     (rev (join (js '' && '') (map tier_cond_text cs)) @ pre, 32 # 63 # u,
       (1, join (js '' && '') (map tier_cond_text cs)) # d)"
proof -
  obtain c cs' where cs: "cs = c # cs'" using assms(2) by (cases cs) auto
  let ?r = "concat (map (\<lambda>c. js '' && '' @ tier_cond_text c) cs') @ 32 # 63 # u"
  have j: "join (js '' && '') (map tier_cond_text cs) = tier_cond_text c @ concat (map (\<lambda>c. js '' && '' @ tier_cond_text c) cs')"
    by (simp add: cs join_concat o_def)
  have "?r = [] \<or> \<not> unum_cls (hd ?r)" by (cases cs') (auto simp: js_lit unum_cls_def is_digit_def)
  then have "first_match one_cond_rx pre (tier_cond_text c @ ?r) d (rev (tier_cond_text c) @ pre, ?r, d)"
    using assms(1) cs by (intro one_cond_first) auto
  moreover have "first_match (Star and_cond_rx) (rev (tier_cond_text c) @ pre) ?r d
      (rev (concat (map (\<lambda>c. js '' && '' @ tier_cond_text c) cs')) @ rev (tier_cond_text c) @ pre, 32 # 63 # u, d)"
    using assms(1) cs by (intro and_conds_first) auto
  ultimately have "first_match (Seq one_cond_rx (Star and_cond_rx)) pre (tier_cond_text c @ ?r) d
      (rev (concat (map (\<lambda>c. js '' && '' @ tier_cond_text c) cs')) @ rev (tier_cond_text c) @ pre, 32 # 63 # u, d)"
    by (rule first_match_Seq)
  then show ?thesis unfolding condGroup_def j by (intro first_match_Cap) simp
qed

section \<open>Tiers in the text\<close>

definition cond_prefix_text :: "tier_condition_input list \<Rightarrow> jstr" where
  "cond_prefix_text cs = (if cs = [] then [] else join (js '' && '') (map tier_cond_text cs) @ js '' ? '')"

definition label_ok :: "jstr \<Rightarrow> bool" where
  "label_ok l \<longleftrightarrow> list_all not_quote l"

lemma cond_prefix_first:
  assumes "list_all cond_ok cs" "t = 116 # u"
  shows "\<exists>p. first_match cond_prefix pre (cond_prefix_text cs @ t) []
     (p, t, if cs = [] then [] else [(1, join (js '' && '') (map tier_cond_text cs))])"
proof (cases "cs = []")
  case True
  have "rmatch (seqs [condGroup, ws_star, Lit (js ''?''), ws_star]) pre (116 # u) [] = []"
    by (simp add: seqs_Cons condGroup_def one_cond_rx_def cond_var_rx_def js_lit)
  then show ?thesis using True assms(2) by (auto simp: cond_prefix_def cond_prefix_text_def intro!: first_match_opt_skip)
next
  case False
  let ?j = "join (js '' && '') (map tier_cond_text cs)"
  have "first_match (seqs [condGroup, ws_star, Lit (js ''?''), ws_star]) pre (?j @ 32 # 63 # 32 # t) []
      (32 # 63 # 32 # rev ?j @ pre, t, [(1, ?j)])"
  proof (rule first_match_Cons [OF condGroup_first [OF assms(1) False]], rule first_match_Cons [OF first_ws])
    show "first_match (seqs [Lit (js ''?''), ws_star]) (32 # rev ?j @ pre) (63 # 32 # t) [(1, ?j)]
        (32 # 63 # 32 # rev ?j @ pre, t, [(1, ?j)])"
      using first_match_Cons [OF first_ws first_match_Nil, of t] assms(2) ws_facts
      by (simp add: first_match_def seqs_Lit js_lit)
  qed (simp_all add: ws_facts)
  then show ?thesis using False
    by (auto simp: cond_prefix_def cond_prefix_text_def js_lit intro!: exI first_match_opt)
qed

lemma tier_first:
  assumes "list_all cond_ok cs" "label_ok l" "list_all not_close b" "b \<noteq> []" "\<not> is_ws (hd b)"
  shows "\<exists>p. first_match tierRe pre ((cond_prefix_text cs @ js ''tier(\"'' @ l @ js ''\", '' @ b @ js '')'') @ t) []
     (p, t, [(3, b), (2, l)] @ (if cs = [] then [] else [(1, join (js '' && '') (map tier_cond_text cs))]))"
proof -
  let ?s = "js ''tier(\"'' @ l @ js ''\", '' @ b @ js '')'' @ t"
  obtain p u where p: "first_match cond_prefix pre (cond_prefix_text cs @ ?s) []
     (p, ?s, if cs = [] then [] else [(1, join (js '' && '') (map tier_cond_text cs))])"
    using cond_prefix_first [OF assms(1), of ?s "js ''ier(\"'' @ l @ js ''\", '' @ b @ js '')'' @ t" pre]
    by (auto simp: js_lit)
  define d where "d = (if cs = [] then [] else [(1 :: nat, join (js '' && '') (map tier_cond_text cs))])"
  have b: "b @ 41 # t \<noteq> []" "\<not> is_ws (hd (b @ 41 # t))" using assms(4,5) by auto
  have "first_match (seqs [Cap 3 (cplus not_close), Lit (js '')'')]) q (b @ 41 # t) e (41 # rev b @ q, t, (3, b) # e)" for q e
    by (rule first_match_Cons [OF first_match_Cap [OF first_match_cplus]])
      (use assms in \<open>auto simp: not_close_def first_match_def seqs_Lit seqs_Nil js_lit\<close>)
  then have 1: "first_match (seqs [ws_star, Cap 3 (cplus not_close), Lit (js '')'')]) q (32 # b @ 41 # t) e
      (41 # rev b @ 32 # q, t, (3, b) # e)" for q e
    by (rule first_match_Cons [OF first_ws [OF b(2,1)]])
  have "first_match (Cap 2 (cstar not_quote)) q (l @ 34 # v) e (rev l @ q, 34 # v, (2, l) # e)" for q e v
    using assms(2) by (intro first_match_Cap first_match_cstar) (auto simp: label_ok_def not_quote_def)
  then have 2: "first_match (seqs [Cap 2 (cstar not_quote), Lit (js ''\",''), ws_star, Cap 3 (cplus not_close), Lit (js '')'')]) q
      (l @ 34 # 44 # 32 # b @ 41 # t) e (41 # rev b @ 32 # 44 # 34 # rev l @ q, t, (3, b) # (2, l) # e)" for q e
  proof (rule first_match_Cons)
    show "first_match (seqs [Lit (js ''\",''), ws_star, Cap 3 (cplus not_close), Lit (js '')'')]) (rev l @ q)
        (34 # 44 # 32 # b @ 41 # t) ((2, l) # e) (41 # rev b @ 32 # 44 # 34 # rev l @ q, t, (3, b) # (2, l) # e)"
      using 1 [of "44 # 34 # rev l @ q" "(2, l) # e"] by (simp add: first_match_def seqs_Lit js_lit)
  qed
  have "\<exists>p'. first_match (seqs [Lit (js ''tier(\"''), Cap 2 (cstar not_quote), Lit (js ''\",''), ws_star,
      Cap 3 (cplus not_close), Lit (js '')'')]) p ?s d (p', t, (3, b) # (2, l) # d)"
    using 2 [of "34 # 40 # 114 # 101 # 105 # 116 # p" d]
    by (intro exI [of _ "41 # rev b @ 32 # 44 # 34 # rev l @ 34 # 40 # 114 # 101 # 105 # 116 # p"])
      (simp add: first_match_def seqs_Lit js_lit)
  then obtain p' where "first_match (seqs [cond_prefix, Lit (js ''tier(\"''), Cap 2 (cstar not_quote), Lit (js ''\",''),
      ws_star, Cap 3 (cplus not_close), Lit (js '')'')]) pre (cond_prefix_text cs @ ?s) [] (p', t, (3, b) # (2, l) # d)"
    using first_match_Cons [OF p [folded d_def]] by blast
  then show ?thesis unfolding tierRe_def d_def by (intro exI) simp
qed

lemma tier_miss: "x \<notin> {112, 99, 108, 116} \<Longrightarrow> rmatch tierRe pre (x # s) [] = []"
  by (simp add: tierRe_def cond_prefix_def opt_def seqs_Cons condGroup_def one_cond_rx_def cond_var_rx_def js_lit)

lemma tier_miss_end: "rmatch tierRe pre [] [] = []"
  by (simp add: tierRe_def cond_prefix_def opt_def seqs_Cons condGroup_def one_cond_rx_def cond_var_rx_def js_lit)

end
