(* ===== verification/Tier_Rules.thy ===== *)
theory Tier_Rules
  imports Tier_Match
begin

text \<open>
  The tier parser of billing-expr.ts inverts the printer of tier-expr.ts, and the visual reader never
  returns a configuration that prints as a different expression.
\<close>

section \<open>Reading the conditions back\<close>

definition parsed_cond :: "tier_condition_input \<Rightarrow> tier_condition" where
  "parsed_cond c = \<lparr>tc_var = ci_var c, tc_op = ci_op c, tc_value = to_Number (value_str (the (ci_value c)))\<rparr>"

lemma cond_text_shape:
  assumes "cond_ok c"
  shows "tier_cond_text c \<noteq> []" "\<not> is_ws (hd (tier_cond_text c))" "\<not> is_ws (last (tier_cond_text c))" "38 \<notin> set (tier_cond_text c)"
proof -
  note v = var_hd [of "ci_var c"] and q = op_hd [of "ci_op c"]
  have n: "value_str (the (ci_value c)) \<noteq> []" "\<forall>x \<in> set (value_str (the (ci_value c))). \<not> is_ws x \<and> x \<noteq> 38"
    using assms unum_not_ws by (auto simp: cond_ok_def list_all_iff)
  show "tier_cond_text c \<noteq> []" by (simp add: cond_text_eq)
  show "\<not> is_ws (hd (tier_cond_text c))" using v assms by (simp add: cond_text_eq cond_ok_def)
  show "\<not> is_ws (last (tier_cond_text c))" using n by (simp add: cond_text_eq)
  show "38 \<notin> set (tier_cond_text c)" using n v q assms by (auto simp: cond_text_eq cond_ok_def)
qed

lemma and_sep_miss:
  assumes "u \<noteq> []" "38 \<notin> set u" "\<not> is_ws (last u)"
  shows "rmatch and_sep_rx pre (u @ s) c = []"
proof -
  let ?w = "takeWhile is_ws u"
  have "dropWhile is_ws u \<noteq> []" using assms(1,3) by (auto simp: dropWhile_eq_Nil_conv)
  then obtain y z where y: "dropWhile is_ws u = y # z" by (cases "dropWhile is_ws u") auto
  have u: "u = ?w @ y # z" using y takeWhile_dropWhile_id by metis
  have ny: "\<not> is_ws y" using y hd_dropWhile [of is_ws u] by auto
  have "y \<noteq> 38" using assms(2) u by (metis in_set_conv_decomp)
  moreover have "list_all is_ws ?w" by (auto simp: list_all_iff dest: set_takeWhileD)
  ultimately have "rmatch and_sep_rx pre ((?w @ y # z) @ s) c = []"
    using ny seqs_cstar_lit [of is_ws ?w "y # z @ s" 38]
    by (simp add: and_sep_rx_def js_lit ws_facts seqs_Lit)
  then show ?thesis using u by simp
qed

lemma and_sep_skips:
  "38 \<notin> set u \<Longrightarrow> u = [] \<or> \<not> is_ws (last u) \<Longrightarrow> skips and_sep_rx pre u s"
proof (induction u arbitrary: pre)
  case (Cons x u)
  then have "rmatch and_sep_rx pre ((x # u) @ s) [] = []" by (intro and_sep_miss) auto
  then show ?case using Cons by (auto split: if_splits)
qed simp

lemma and_sep_end: "rmatch and_sep_rx pre [] [] = []"
  by (simp add: and_sep_rx_def seqs_Cons cstar_def rmatch_star_cls js_lit)

lemma rx_split_last:
  assumes "38 \<notin> set u" "u \<noteq> []" "\<not> is_ws (last u)"
  shows "rx_split and_sep_rx u = [u]"
  using rx_search_skips [OF and_sep_skips, of u "[]" "[]"] assms and_sep_end
  by (subst rx_split.simps) simp

lemma rx_split_step:
  assumes "38 \<notin> set u" "u \<noteq> []" "\<not> is_ws (last u)" "s \<noteq> []" "\<not> is_ws (hd s)"
  shows "rx_split and_sep_rx (u @ js '' && '' @ s) = u # rx_split and_sep_rx s"
proof -
  have "first_match (seqs [ws_star]) q (32 # s) [] (32 # q, s, [])" for q
    by (rule first_match_Cons [OF first_ws first_match_Nil]) (use assms in auto)
  then have 1: "first_match (seqs [Lit [38, 38], ws_star]) q (38 # 38 # 32 # s) [] (32 # 38 # 38 # q, s, [])" for q
    by (simp add: first_match_def seqs_Lit)
  have "first_match and_sep_rx p (32 # 38 # 38 # 32 # s) [] (32 # 38 # 38 # 32 # p, s, [])" for p
    unfolding and_sep_rx_def js_lit by simp (rule first_match_Cons [OF first_ws 1], simp_all add: ws_facts)
  then have "first_match and_sep_rx p (js '' && '' @ s) [] (32 # 38 # 38 # 32 # p, s, [])" for p
    by (simp add: js_lit)
  from rx_search_first [OF this]
  have "rx_search and_sep_rx [] (u @ js '' && '' @ s) = Some (js '' && '', 32 # 38 # 38 # 32 # rev u, s, [])"
    using rx_search_skips [OF and_sep_skips, of u "[]" "js '' && '' @ s"] assms by simp
  then show ?thesis by (subst rx_split.simps) (simp add: js_lit)
qed

lemma split_conds:
  "list_all cond_ok cs \<Longrightarrow> cs \<noteq> [] \<Longrightarrow>
     rx_split and_sep_rx (join (js '' && '') (map tier_cond_text cs)) = map tier_cond_text cs"
proof (induction cs rule: induct_list012)
  case (2 c)
  then show ?case using cond_text_shape [of c] by (simp add: rx_split_last)
next
  case (3 c d cs)
  let ?s = "join (js '' && '') (map tier_cond_text (d # cs))"
  have "?s \<noteq> []" "\<not> is_ws (hd ?s)"
    using cond_text_shape [of d] 3 by (cases cs; simp)+
  then show ?case using cond_text_shape [of c] 3 by (simp add: rx_split_step)
qed simp

lemma tier_cond_match:
  assumes "cond_ok c"
  shows "rx_match tier_cond_rx (tier_cond_text c) =
     Some [(3, value_str (the (ci_value c))), (2, ci_op c), (1, ci_var c)]"
proof -
  let ?n = "value_str (the (ci_value c))"
  have n: "?n \<noteq> []" "\<not> is_ws (hd ?n)" "list_all unum_cls ?n"
    using assms unum_not_ws by (auto simp: cond_ok_def list_all_iff)
  note q = op_hd [of "ci_op c"]
  have "first_match (seqs [Cap 3 (cplus unum_cls), Eos]) p ?n e (rev ?n @ p, [], (3, ?n) # e)" for p e
  proof (rule first_match_Cons)
    show "first_match (Cap 3 (cplus unum_cls)) p ?n e (rev ?n @ p, [], (3, ?n) # e)"
      using first_match_Cap [OF first_match_cplus [OF n(1,3), of "[]" p e], of 3] by simp
  qed (simp add: first_match_def seqs_Eos seqs_Nil)
  then have "first_match (seqs [ws_star, Cap 3 (cplus unum_cls), Eos]) p (32 # ?n) e (rev ?n @ 32 # p, [], (3, ?n) # e)" for p e
    by (rule first_match_Cons [OF first_ws [OF n(2,1)]])
  then have "first_match (seqs [Cap 2 cond_op_rx, ws_star, Cap 3 (cplus unum_cls), Eos]) p (ci_op c @ 32 # ?n) e
      (rev ?n @ 32 # rev (ci_op c) @ p, [], (3, ?n) # (2, ci_op c) # e)" for p e
    using op_step(2) [OF ws_num_miss(2)] assms by (simp add: first_match_def cond_ok_def)
  then have "first_match (seqs [ws_star, Cap 2 cond_op_rx, ws_star, Cap 3 (cplus unum_cls), Eos]) p (32 # ci_op c @ 32 # ?n) e
      (rev ?n @ 32 # rev (ci_op c) @ 32 # p, [], (3, ?n) # (2, ci_op c) # e)" for p e
    using q assms by (intro first_match_Cons [OF first_ws]) (auto simp: cond_ok_def)
  from this [of "rev (ci_var c)" "[(1, ci_var c)]"] show ?thesis
    using var_step(2) [of "ci_var c"] assms
    by (auto simp: tier_cond_rx_def rx_match_Bos cond_text_eq first_match_def cond_ok_def)
qed

lemma parse_conditions:
  assumes "list_all cond_ok cs" "cs \<noteq> []"
  shows "parse_tier_conditions (join (js '' && '') (map tier_cond_text cs)) = map parsed_cond cs"
proof -
  have ne: "join (js '' && '') (map tier_cond_text cs) \<noteq> []"
    using assms cond_text_shape(1) by (cases cs; cases "tl cs") auto
  have t: "trim (tier_cond_text c) = tier_cond_text c" if "c \<in> set cs" for c
    using cond_text_shape [of c] that assms(1) by (auto simp: list_all_iff trimmed_def intro!: trim_id)
  show ?thesis
    using assms ne t tier_cond_match unfolding parse_tier_conditions_def split_conds [OF assms]
    by (auto simp: map_filter_def o_def list_all_iff parsed_cond_def grp_def intro!: map_filter_all)
qed

section \<open>Printing and parsing a configuration\<close>

definition shown_conds :: "visual_tier \<Rightarrow> tier_condition_input list" where
  "shown_conds t = filter complete_cond (vt_conditions t)"

text \<open>Labels without a quote, conditions as the editor offers them, costs that read back.\<close>

definition tier_ok :: "visual_tier \<Rightarrow> bool" where
  "tier_ok t \<longleftrightarrow> label_ok (vt_label t) \<and> list_all cond_ok (shown_conds t) \<and> costs_ok t"

definition shown_tier :: "jstr \<Rightarrow> tier_condition_input list \<Rightarrow> visual_tier \<Rightarrow> parsed_tier" where
  "shown_tier l cs t = \<lparr>pt_label = l, pt_conditions = map parsed_cond cs, pt_prices = tier_prices t\<rparr>"

text \<open>What a reader of the printed configuration should see: the last of several tiers has no condition.\<close>

fun shown_tiers_from :: "nat \<Rightarrow> visual_tier list \<Rightarrow> parsed_tier list" where
  "shown_tiers_from i [] = []"
| "shown_tiers_from i (t # ts) =
     shown_tier (tier_label i t) (if ts = [] then [] else shown_conds t) t # shown_tiers_from (Suc i) ts"

definition shown_tiers :: "visual_tier list \<Rightarrow> parsed_tier list" where
  "shown_tiers ts =
     (case ts of
        [t] \<Rightarrow> [shown_tier (or_label (vt_label t) (js ''default'')) (shown_conds t) t]
      | _ \<Rightarrow> shown_tiers_from 0 ts)"

lemma body_chars:
  assumes "costs_ok t"
  shows "list_all not_close (buildTierBodyExpr t)" "buildTierBodyExpr t \<noteq> []" "\<not> is_ws (hd (buildTierBodyExpr t))"
proof -
  have "list_all not_close (part_text p)" if "p \<in> set (cost_parts t)" for p
  proof -
    have "fst p \<in> set var_keys" "num_isFinite (snd p)"
      using that assms cost_parts_vars [of t] by (auto simp: list_all_iff costs_ok_def num_back_def)
    then show ?thesis using num_str_num [of "snd p"]
      by (auto simp: part_text_def cost_part_def js_lit var_keys_eq not_close_def list_all_iff num_cls_def is_digit_def)
  qed
  then show "list_all not_close (buildTierBodyExpr t)"
    using set_join [of "js '' + ''" "map part_text (cost_parts t)"]
    by (fastforce simp: build_body list_all_iff not_close_def js_lit)
  show "buildTierBodyExpr t \<noteq> []" "\<not> is_ws (hd (buildTierBodyExpr t))"
    by (simp_all add: buildTierBodyExpr_def cost_part_def js_lit is_ws_def)
qed

lemma label_ok_default: "label_ok l \<Longrightarrow> label_ok (or_label l (js ''tier_'' @ nat_str n))" "label_ok l \<Longrightarrow> label_ok (or_label l (js ''default''))"
  using nat_str_no [of 34 n] by (auto simp: label_ok_def or_label_def js_lit not_quote_def list_all_iff is_digit_def)

lemma tier_first_call:
  assumes "list_all cond_ok cs" "label_ok l" "costs_ok t"
  obtains p c where "first_match tierRe pre ((cond_prefix_text cs @ tier_call l t) @ r) [] (p, r, c)"
    "parsed_tier_of c = shown_tier l cs t"
proof -
  note b = body_chars [OF assms(3)]
  obtain p where p: "first_match tierRe pre ((cond_prefix_text cs @ tier_call l t) @ r) []
     (p, r, [(3, buildTierBodyExpr t), (2, l)] @ (if cs = [] then [] else [(1, join (js '' && '') (map tier_cond_text cs))]))"
    using tier_first [OF assms(1,2) b] unfolding tier_call_def by blast
  have "parsed_tier_of ([(3, buildTierBodyExpr t), (2, l)] @
      (if cs = [] then [] else [(1, join (js '' && '') (map tier_cond_text cs))])) = shown_tier l cs t"
    using parse_conditions [OF assms(1)] parseTierBody_build [OF assms(3)]
    by (simp add: parsed_tier_of_def shown_tier_def grp_def) (simp add: parse_tier_conditions_def)
  with p show thesis by (rule that)
qed

lemma cond_str_shown: "buildConditionStr (vt_conditions t) = join (js '' && '') (map tier_cond_text (shown_conds t))"
  by (simp add: buildConditionStr_def shown_conds_def)

lemma cond_str_Nil: "list_all cond_ok cs \<Longrightarrow> join (js '' && '') (map tier_cond_text cs) = [] \<longleftrightarrow> cs = []"
  using cond_text_shape(1) by (cases cs; cases "tl cs") auto

lemma tier_parts_text:
  assumes "list_all tier_ok (t # ts)"
  shows "tier_parts i (t # ts) =
     (cond_prefix_text (if ts = [] then [] else shown_conds t) @ tier_call (tier_label i t) t) # tier_parts (Suc i) ts"
  using assms cond_str_Nil [of "shown_conds t"]
  by (simp add: cond_prefix_text_def cond_str_shown Let_def tier_ok_def)

lemma colon_skips: "skips tierRe pre (js '' : '') s"
  by (simp add: js_lit tier_miss)

lemma rx_all_tiers_from:
  assumes "list_all tier_ok ts" "ts \<noteq> []"
  shows "map parsed_tier_of (rx_all tierRe pre (join (js '' : '') (tier_parts i ts))) = shown_tiers_from i ts \<and>
     map parsed_tier_of (rx_all tierRe pre (js '' : '' @ join (js '' : '') (tier_parts i ts))) = shown_tiers_from i ts"
  using assms
proof (induction ts arbitrary: i pre)
  case (Cons t ts)
  let ?cs = "if ts = [] then [] else shown_conds t"
  let ?w = "cond_prefix_text ?cs @ tier_call (tier_label i t) t"
  let ?r = "if ts = [] then [] else js '' : '' @ join (js '' : '') (tier_parts (Suc i) ts)"
  have ok: "list_all cond_ok ?cs" "label_ok (tier_label i t)" "costs_ok t"
    using Cons.prems label_ok_default by (auto simp: tier_ok_def tier_label_def)
  have j: "join (js '' : '') (tier_parts i (t # ts)) = ?w @ ?r"
    unfolding tier_parts_text [OF Cons.prems(1)] by (cases ts) (simp_all add: Let_def)
  have ne: "?w \<noteq> []" by (simp add: tier_call_def js_lit)
  have r: "map parsed_tier_of (rx_all tierRe p ?r) = shown_tiers_from (Suc i) ts" for p
  proof (cases "ts = []")
    case True
    then show ?thesis using rx_all_none [of tierRe p "[]"] tier_miss_end by simp
  next
    case False
    then show ?thesis using Cons by simp
  qed
  obtain p c where 1: "first_match tierRe pre (?w @ ?r) [] (p, ?r, c)" "parsed_tier_of c = shown_tier (tier_label i t) ?cs t"
    using tier_first_call [OF ok, of pre ?r] by blast
  obtain p' c' where 2: "first_match tierRe (rev (js '' : '') @ pre) (?w @ ?r) [] (p', ?r, c')"
    "parsed_tier_of c' = shown_tier (tier_label i t) ?cs t"
    using tier_first_call [OF ok, of "rev (js '' : '') @ pre" ?r] by blast
  have "map parsed_tier_of (rx_all tierRe pre (?w @ ?r)) = shown_tiers_from i (t # ts)"
    using rx_all_first [where u = "[]", OF _ _ ne, of tierRe pre ?r p c] 1 r [of p] by simp
  moreover have "map parsed_tier_of (rx_all tierRe pre (js '' : '' @ ?w @ ?r)) = shown_tiers_from i (t # ts)"
    using rx_all_first [OF colon_skips 2(1) ne] 2(2) r [of p'] by simp
  ultimately show ?case unfolding j by blast
qed simp

lemma zero_skips: "skips tierRe pre (js '' : p * 0 + c * 0'') []"
proof -
  have "rmatch tierRe q (112 # 32 # 42 # u) [] = []" "rmatch tierRe q (99 # 32 # 42 # u) [] = []" for q u
    by (simp_all add: tierRe_def cond_prefix_def opt_def seqs_Cons condGroup_def one_cond_rx_def cond_var_rx_def
        cond_op_rx_def js_lit cstar_def rmatch_star_cls ws_facts is_ws_def)
  then show ?thesis by (simp add: js_lit tier_miss)
qed

lemma generated_no_version:
  assumes "s = x # s'" "x \<noteq> 118"
  shows "snd (stripExprVersion s) = s"
  using assms by (simp add: stripExprVersion_def version_rx_def rx_match_Bos seqs_Lit js_lit)

lemma tier_text_hd:
  assumes "list_all cond_ok cs"
  shows "\<exists>x s'. (cond_prefix_text cs @ tier_call l t) @ r = x # s' \<and> x \<noteq> 118"
proof (cases cs)
  case Nil
  then show ?thesis by (simp add: cond_prefix_text_def tier_call_def js_lit)
next
  case (Cons c cs')
  have "\<exists>x s. ci_var c = x # s \<and> x \<noteq> 118" using assms Cons by (auto simp: cond_ok_def cond_vars_def js_lit)
  then show ?thesis using Cons by (cases cs') (auto simp: cond_prefix_text_def cond_text_eq)
qed

lemma parse_generated_single:
  assumes "tier_ok t"
  shows "parseTiersFromExpr (generateExprFromVisualConfig (Some [t])) = shown_tiers [t]"
proof -
  let ?l = "or_label (vt_label t) (js ''default'')"
  let ?w = "cond_prefix_text (shown_conds t) @ tier_call ?l t"
  let ?r = "if shown_conds t = [] then [] else js '' : p * 0 + c * 0''"
  have ok: "list_all cond_ok (shown_conds t)" "label_ok ?l" "costs_ok t"
    using assms label_ok_default by (auto simp: tier_ok_def)
  have g: "generateExprFromVisualConfig (Some [t]) = ?w @ ?r"
    using cond_str_Nil [OF ok(1)]
    by (simp add: generateExprFromVisualConfig_def cond_str_shown cond_prefix_text_def Let_def)
  have r: "rx_all tierRe p ?r = []" for p
    using zero_skips by (intro rx_all_none) (simp_all add: tier_miss_end)
  obtain p c where 1: "first_match tierRe [] (?w @ ?r) [] (p, ?r, c)" "parsed_tier_of c = shown_tier ?l (shown_conds t) t"
    using tier_first_call [OF ok, of "[]" ?r] by blast
  have ne: "?w \<noteq> []" by (simp add: tier_call_def js_lit)
  obtain x s' where x: "?w @ ?r = x # s'" "x \<noteq> 118" using tier_text_hd [OF ok(1)] by metis
  have "map parsed_tier_of (rx_all tierRe [] (?w @ ?r)) = shown_tiers [t]"
    using rx_all_first [where u = "[]", OF _ _ ne, of tierRe "[]" ?r p c] 1 r by (simp add: shown_tiers_def)
  then show ?thesis unfolding g parseTiersFromExpr_def
    using generated_no_version [OF x] x by simp
qed

lemma parse_generated_many:
  assumes "list_all tier_ok (t # u # ts)"
  shows "parseTiersFromExpr (generateExprFromVisualConfig (Some (t # u # ts))) = shown_tiers (t # u # ts)"
proof -
  let ?g = "join (js '' : '') (tier_parts 0 (t # u # ts))"
  have "list_all cond_ok (shown_conds t)" using assms by (simp add: tier_ok_def)
  then obtain x s' where x: "?g = x # s'" "x \<noteq> 118"
    using tier_text_hd [of "shown_conds t" "tier_label 0 t" t "js '' : '' @ join (js '' : '') (tier_parts 1 (u # ts))"]
    unfolding tier_parts_text [OF assms] by (auto simp: Let_def)
  have "generateExprFromVisualConfig (Some (t # u # ts)) = ?g"
    by (simp add: generateExprFromVisualConfig_def)
  then show ?thesis unfolding parseTiersFromExpr_def
    using rx_all_tiers_from [OF assms, of "[]" 0] generated_no_version [OF x] x by (simp add: shown_tiers_def)
qed

lemma parse_generated:
  assumes "list_all tier_ok ts" "ts \<noteq> []"
  shows "parseTiersFromExpr (generateExprFromVisualConfig (Some ts)) = shown_tiers ts"
proof (cases ts)
  case (Cons t ts')
  then show ?thesis
    using assms parse_generated_single [of t] parse_generated_many [of t] by (cases ts') auto
qed (use assms in simp)

text \<open>C2: Parsing the expression that the visual editor prints gives back its tiers: the labels (with the
  printer's defaults), the complete conditions of every tier but the last of several, and all nine prices.\<close>

theorem tiers_roundtrip:
  assumes "list_all tier_ok ts" "ts \<noteq> []"
  shows "parseTiersFromExpr (generateExprFromVisualConfig (Some ts)) = shown_tiers ts"
  by (rule parse_generated [OF assms])

theorem tiers_roundtrip_witness:
  "parseTiersFromExpr (generateExprFromVisualConfig (Some
     [(hd createDefaultVisualConfig)\<lparr>vt_label := [], input_unit_cost := to_Number (js ''2.5''),
        vt_conditions := [\<lparr>ci_var = js ''len'', ci_op = js ''<='', ci_value = Some (VStr (js ''32000''))\<rparr>]\<rparr>,
      (hd createDefaultVisualConfig)\<lparr>image_unit_cost := to_Number (js ''0.1'')\<rparr>])) =
   shown_tiers
     [(hd createDefaultVisualConfig)\<lparr>vt_label := [], input_unit_cost := to_Number (js ''2.5''),
        vt_conditions := [\<lparr>ci_var = js ''len'', ci_op = js ''<='', ci_value = Some (VStr (js ''32000''))\<rparr>]\<rparr>,
      (hd createDefaultVisualConfig)\<lparr>image_unit_cost := to_Number (js ''0.1'')\<rparr>]"
  by (rule tiers_roundtrip) code_simp+

text \<open>When the visual reader accepts an expression that is not a single unconditional tier, the configuration it
  returns is not empty and prints as the same expression up to white space, so saving it again changes no price.\<close>

lemma visual_config_prints_back:
  assumes "tryParseVisualConfig (Some s) = Some cfg" "rx_match singleRe (unversioned s) = None"
  shows "strip_ws (generateExprFromVisualConfig (Some cfg)) = strip_ws (unversioned s) \<and> cfg \<noteq> []"
  using assms
  by (auto simp: tryParseVisualConfig_def normalizeVisualConfig_def createDefaultVisualConfig_def Let_def split: if_splits)

end
