(* ===== verification/Js_Expr.thy ===== *)
theory Js_Expr
  imports Js_Regex Js_Json
begin

text \<open>
  The JavaScript expressions that the price estimator hands to the compiler: number and string
  literals, names, calls, the arithmetic, relational and logical operators, and the conditional.
  Texts that use anything else of the language are told apart from syntax errors, so a statement
  about the estimator says whether it covers a text.
\<close>

section \<open>Tokens\<close>

datatype js_token = TNum jsnum | TStr jstr | TId jstr | TOp jstr

definition ident_char :: "jchar \<Rightarrow> bool" where
  "ident_char c \<longleftrightarrow> is_word_char c \<or> c = 36"

text \<open>Characters of a double-quoted literal without escapes.\<close>

definition plain_char :: "jchar \<Rightarrow> bool" where
  "plain_char c \<longleftrightarrow> c \<noteq> 34 \<and> c \<noteq> 92 \<and> c \<noteq> 10 \<and> c \<noteq> 13"

text \<open>
  The operator at the start of a text, the longest one first; \<open>None\<close> when the text starts with
  another operator of the language.
\<close>

definition op_chars :: jstr where
  "op_chars = js ''<>+-*/?=.&|!%^~''"

definition lex_op :: "jstr \<Rightarrow> (jstr \<times> jstr) option" where
  "lex_op s =
     (let two = take 2 s; r2 = drop 2 s; one = take 1 s; r1 = drop 1 s in
      if two \<in> set [js ''<='', js ''>='', js ''&&'', js ''||''] \<and> (r2 = [] \<or> hd r2 \<notin> set op_chars) then Some (two, r2)
      else if one \<in> set [js ''('', js '')'', js '','', js '':''] then Some (one, r1)
      else if one \<in> set [js ''<'', js ''>'', js ''+'', js ''-'', js ''*'', js ''/'', js ''?''] \<and> (r1 = [] \<or> hd r1 \<notin> set op_chars)
      then Some (one, r1)
      else None)"

lemma lex_op_shorter: "lex_op s = Some (w, r) \<Longrightarrow> length r < length s"
  by (cases s) (auto simp: lex_op_def Let_def js_def split: if_splits)

definition lex_num :: "jstr \<Rightarrow> (jsnum \<times> jstr) option" where
  "lex_num s =
     (case p_num s of
        Some (JNum x, r) \<Rightarrow> if r = [] \<or> \<not> ident_char (hd r) \<and> hd r \<noteq> 46 then Some (x, r) else None
      | _ \<Rightarrow> None)"

lemma lex_num_shorter: "lex_num s = Some (x, r) \<Longrightarrow> length r < length s"
  using p_num_shorter by (auto simp: lex_num_def split: option.splits json.splits if_splits)

definition lex_str :: "jstr \<Rightarrow> (jstr \<times> jstr) option" where
  "lex_str s =
     (let w = takeWhile plain_char s; r = dropWhile plain_char s in
      if r \<noteq> [] \<and> hd r = 34 then Some (w, drop 1 r) else None)"

lemma lex_str_shorter: "lex_str s = Some (w, r) \<Longrightarrow> length r \<le> length s"
proof -
  assume "lex_str s = Some (w, r)"
  then have "r = drop 1 (dropWhile plain_char s)" by (auto simp: lex_str_def Let_def split: if_splits)
  then show ?thesis using length_dropWhile_le [of plain_char s] by simp
qed

function tokens_of :: "jstr \<Rightarrow> js_token list option" where
  "tokens_of s =
     (case s of
        [] \<Rightarrow> Some []
      | c # t \<Rightarrow>
          if is_ws c then tokens_of t
          else if is_digit c then
            (case lex_num s of None \<Rightarrow> None | Some (x, r) \<Rightarrow> map_option ((#) (TNum x)) (tokens_of r))
          else if ident_char c then
            map_option ((#) (TId (takeWhile ident_char s))) (tokens_of (dropWhile ident_char s))
          else if c = 34 then
            (case lex_str t of None \<Rightarrow> None | Some (w, r) \<Rightarrow> map_option ((#) (TStr w)) (tokens_of r))
          else (case lex_op s of None \<Rightarrow> None | Some (w, r) \<Rightarrow> map_option ((#) (TOp w)) (tokens_of r)))"
  by pat_completeness auto
termination
  using le_imp_less_Suc [OF lex_str_shorter] lex_num_shorter lex_op_shorter
  by (relation "measure length") (force intro: le_imp_less_Suc length_dropWhile_le)+

declare tokens_of.simps [simp del]

section \<open>Syntax\<close>

datatype js_expr =
    ENum jsnum
  | EStr jstr
  | EId jstr
  | EBin jstr js_expr js_expr
  | ECond js_expr js_expr js_expr
  | ECall jstr "js_expr list"

abbreviation tok :: "string \<Rightarrow> js_token" where
  "tok s \<equiv> TOp (js s)"

text \<open>
  The pieces between the operators of a set that stand outside parentheses, each but the first
  with its operator; \<open>None\<close> when the parentheses are not balanced.
\<close>

fun top_pieces :: "jstr list \<Rightarrow> nat \<Rightarrow> js_token list \<Rightarrow> (js_token list \<times> (jstr \<times> js_token list) list) option" where
  "top_pieces ops d [] = (if d = 0 then Some ([], []) else None)"
| "top_pieces ops d (t # ts) =
     (if t = tok '')'' \<and> d = 0 then None
      else (case top_pieces ops (if t = tok ''('' then Suc d else if t = tok '')'' then d - 1 else d) ts of
          None \<Rightarrow> None
        | Some (p, ps) \<Rightarrow>
            (case t of
               TOp w \<Rightarrow> if d = 0 \<and> w \<in> set ops then Some ([], (w, p) # ps) else Some (t # p, ps)
             | _ \<Rightarrow> Some (t # p, ps))))"

lemma top_pieces_length:
  "top_pieces ops d ts = Some (p, ps) \<Longrightarrow> length ts = length p + (\<Sum>(w, q) \<leftarrow> ps. Suc (length q))"
proof (induction ops d ts arbitrary: p ps rule: top_pieces.induct)
  case (2 ops d t ts)
  then show ?case by (cases t) (auto split: option.splits if_splits prod.splits)
qed (auto split: if_splits)

lemma piece_shorter:
  assumes "top_pieces ops d ts = Some (p, q # qs)"
  shows "length p < length ts" and "(w, r) \<in> set (q # qs) \<Longrightarrow> length r < length ts"
proof -
  have l: "length ts = length p + (\<Sum>(w, q) \<leftarrow> q # qs. Suc (length q))" by (rule top_pieces_length [OF assms])
  then show "length p < length ts" by (cases q) simp
  assume "(w, r) \<in> set (q # qs)"
  then have "Suc (length r) \<le> (\<Sum>(w, q) \<leftarrow> q # qs. Suc (length q))"
    using member_le_sum_list [of "Suc (length r)" "map (\<lambda>(w, q). Suc (length q)) (q # qs)"] by (force simp: image_iff)
  then show "length r < length ts" using l by linarith
qed

lemma piece_le:
  assumes "top_pieces ops d ts = Some (p, ps)"
  shows "length p \<le> length ts" and "(w, r) \<in> set ps \<Longrightarrow> length r \<le> length ts"
  using top_pieces_length [OF assms] piece_shorter [of ops d ts p] assms by (cases ps; force)+

text \<open>The conditional: the part before the first question mark outside parentheses, up to its colon, and after it.\<close>

fun split_colon :: "nat \<Rightarrow> nat \<Rightarrow> js_token list \<Rightarrow> (js_token list \<times> js_token list) option" where
  "split_colon d n [] = None"
| "split_colon d n (t # ts) =
     (if t = tok '':'' \<and> d = 0 \<and> n = 0 then Some ([], ts)
      else if t = tok '')'' \<and> d = 0 then None
      else map_option (\<lambda>(a, b). (t # a, b))
        (split_colon (if t = tok ''('' then Suc d else if t = tok '')'' then d - 1 else d)
          (if d = 0 \<and> t = tok ''?'' then Suc n else if d = 0 \<and> t = tok '':'' then n - 1 else n) ts))"

fun split_question :: "nat \<Rightarrow> js_token list \<Rightarrow> (js_token list \<times> js_token list) option" where
  "split_question d [] = None"
| "split_question d (t # ts) =
     (if t = tok ''?'' \<and> d = 0 then Some ([], ts)
      else map_option (\<lambda>(a, b). (t # a, b))
        (split_question (if t = tok ''('' then Suc d else if t = tok '')'' then d - 1 else d) ts))"

lemma split_colon_length: "split_colon d n ts = Some (a, b) \<Longrightarrow> length ts = Suc (length a + length b)"
  by (induction d n ts arbitrary: a b rule: split_colon.induct) (auto split: if_splits)

lemma split_question_length: "split_question d ts = Some (a, b) \<Longrightarrow> length ts = Suc (length a + length b)"
  by (induction d ts arbitrary: a b rule: split_question.induct) (auto split: if_splits)

text \<open>A colon outside parentheses that belongs to no question mark: a syntax error whatever stands around it.\<close>

fun stray_colon :: "nat \<Rightarrow> nat \<Rightarrow> js_token list \<Rightarrow> bool" where
  "stray_colon d n [] = False"
| "stray_colon d n (t # ts) =
     (if t = tok '':'' \<and> d = 0 \<and> n = 0 then True
      else if t = tok '')'' \<and> d = 0 then False
      else stray_colon (if t = tok ''('' then Suc d else if t = tok '')'' then d - 1 else d)
        (if d = 0 \<and> t = tok ''?'' then Suc n else if d = 0 \<and> t = tok '':'' then n - 1 else n) ts)"

text \<open>The binary operators, the weakest first; all associate to the left.\<close>

definition LEVELS :: "jstr list list" where
  "LEVELS = [[js ''||''], [js ''&&''], [js ''<'', js ''<='', js ''>'', js ''>=''], [js ''+'', js ''-''], [js ''*'', js ''/'']]"

definition left_assoc :: "js_expr \<Rightarrow> (jstr \<times> js_expr) list \<Rightarrow> js_expr" where
  "left_assoc e ps = foldl (\<lambda>l (w, r). EBin w l r) e ps"

definition ends_call :: "js_token list \<Rightarrow> bool" where
  "ends_call r \<longleftrightarrow> r \<noteq> [] \<and> last r = tok '')''"

function (sequential) parse_cond :: "js_token list \<Rightarrow> js_expr option"
  and parse_level :: "jstr list list \<Rightarrow> js_token list \<Rightarrow> js_expr option" where
  "parse_cond ts =
     (case split_question 0 ts of
        None \<Rightarrow> parse_level LEVELS ts
      | Some (a, r) \<Rightarrow>
          (case split_colon 0 0 r of
             None \<Rightarrow> None
           | Some (b, c) \<Rightarrow>
               (case (parse_level LEVELS a, parse_cond b, parse_cond c) of
                  (Some x, Some y, Some z) \<Rightarrow> Some (ECond x y z)
                | _ \<Rightarrow> None)))"
| "parse_level (ops # levels) ts =
     (case top_pieces ops 0 ts of
        None \<Rightarrow> None
      | Some (p, []) \<Rightarrow> parse_level levels ts
      | Some (p, q # qs) \<Rightarrow>
          (case (parse_level levels p, those (map (\<lambda>(w, r). map_option (Pair w) (parse_level levels r)) (q # qs))) of
             (Some e, Some es) \<Rightarrow> Some (left_assoc e es)
           | _ \<Rightarrow> None))"
| "parse_level [] [TNum x] = Some (ENum x)"
| "parse_level [] [TStr s] = Some (EStr s)"
| "parse_level [] [TId w] = Some (EId w)"
| "parse_level [] (TId f # TOp w # r) =
     (if w = js ''('' \<and> ends_call r
      then (case top_pieces [js '',''] 0 (butlast r) of
          None \<Rightarrow> None
        | Some (p, ps) \<Rightarrow> map_option (ECall f) (those (map parse_cond (p # map snd ps))))
      else None)"
| "parse_level [] (TOp w # r) =
     (if w = js ''('' \<and> ends_call r \<and> top_pieces [] 0 (butlast r) \<noteq> None then parse_cond (butlast r) else None)"
| "parse_level [] _ = None"
  by pat_completeness auto
termination
  by (relation "measures [\<lambda>x. case x of Inl ts \<Rightarrow> length ts | Inr (ls, ts) \<Rightarrow> length ts,
      \<lambda>x. case x of Inl ts \<Rightarrow> Suc (length LEVELS) | Inr (ls, ts) \<Rightarrow> length ls]")
    (auto dest!: split_question_length split_colon_length simp: less_Suc_eq_le
      dest: piece_shorter(1) piece_shorter(2) [OF _ list.set_intros(1)] piece_shorter(2) [OF _ list.set_intros(2)] piece_le)

declare parse_cond.simps [simp del] parse_level.simps(1) [simp del]

text \<open>\<open>None\<close> is a text that uses other parts of the language.\<close>

definition compile_expr :: "jstr \<Rightarrow> (js_error + js_expr) option" where
  "compile_expr s =
     (case tokens_of s of
        None \<Rightarrow> None
      | Some ts \<Rightarrow> if stray_colon 0 0 ts then Some (Inl SyntaxError) else map_option Inr (parse_cond ts))"

section \<open>Evaluation\<close>

datatype js_value = NumV jsnum | StrV jstr | BoolV bool

fun value_truthy :: "js_value \<Rightarrow> bool" where
  "value_truthy (NumV x) = num_truthy x"
| "value_truthy (StrV s) = (s \<noteq> [])"
| "value_truthy (BoolV b) = b"

fun value_Number :: "js_value \<Rightarrow> jsnum" where
  "value_Number (NumV x) = x"
| "value_Number (StrV s) = to_Number s"
| "value_Number (BoolV b) = num_of_nat (if b then 1 else 0)"

fun num_neg :: "jsnum \<Rightarrow> jsnum" where
  "num_neg NaN = NaN"
| "num_neg (Infty n) = Infty (\<not> n)"
| "num_neg (Fin m e) = Fin (- m) e"

definition num_le :: "jsnum \<Rightarrow> jsnum \<Rightarrow> bool" where
  "num_le x y \<longleftrightarrow> x \<noteq> NaN \<and> y \<noteq> NaN \<and> \<not> num_less y x"

fun num_floor :: "jsnum \<Rightarrow> jsnum" where
  "num_floor (Fin m e) = (if 0 \<le> e then Fin m e else to_double (m div 2 ^ nat (- e)) 1)"
| "num_floor x = x"

definition num_max :: "jsnum \<Rightarrow> jsnum \<Rightarrow> jsnum" where
  "num_max x y = (if x = NaN \<or> y = NaN then NaN else if num_less x y then y else x)"

definition num_abs :: "jsnum \<Rightarrow> jsnum" where
  "num_abs x = (if num_less x (Fin 0 0) then num_neg x else x)"

text \<open>The operators on two numbers; \<open>None\<close> when an operand has to be converted.\<close>

definition binary_op :: "jstr \<Rightarrow> js_value \<Rightarrow> js_value \<Rightarrow> js_value option" where
  "binary_op w a b =
     (case (a, b) of
        (NumV x, NumV y) \<Rightarrow>
          map_of [(js ''+'', NumV (num_add x y)), (js ''-'', NumV (num_add x (num_neg y))), (js ''*'', NumV (num_mul x y)),
            (js ''/'', NumV (num_div x y)), (js ''<'', BoolV (num_less x y)), (js ''<='', BoolV (num_le x y)),
            (js ''>'', BoolV (num_less y x)), (js ''>='', BoolV (num_le y x))] w
      | _ \<Rightarrow> None)"

text \<open>The functions of the estimator: \<open>tier\<close> stores its first argument and returns the second; the others are those of \<open>Math\<close>.\<close>

definition math_call :: "jstr \<Rightarrow> jsnum list \<Rightarrow> jsnum option" where
  "math_call f xs =
     (if f = js ''max'' then Some (foldl num_max (Infty True) xs)
      else if f = js ''min'' then Some (num_neg (foldl num_max (Infty True) (map num_neg xs)))
      else (case xs of
          [x] \<Rightarrow>
            if f = js ''abs'' then Some (num_abs x)
            else if f = js ''floor'' then Some (num_floor x)
            else if f = js ''ceil'' then Some (num_neg (num_floor (num_neg x)))
            else None
        | _ \<Rightarrow> None))"

fun number_of :: "js_value \<Rightarrow> jsnum option" where
  "number_of (NumV x) = Some x"
| "number_of _ = None"

definition call_function :: "jstr \<Rightarrow> js_value list \<Rightarrow> jstr \<Rightarrow> (js_value \<times> jstr) option" where
  "call_function f vs m =
     (if f = js ''tier'' then (case vs of [StrV name, v] \<Rightarrow> Some (v, name) | _ \<Rightarrow> None)
      else (case those (map number_of vs) of
          None \<Rightarrow> None
        | Some xs \<Rightarrow> map_option (\<lambda>x. (NumV x, m)) (math_call f xs)))"

text \<open>The value and the last stored tier; \<open>None\<close> is outside the model.\<close>

fun eval_expr :: "(jstr \<times> jsnum) list \<Rightarrow> js_expr \<Rightarrow> jstr \<Rightarrow> (js_value \<times> jstr) option"
  and eval_args :: "(jstr \<times> jsnum) list \<Rightarrow> js_expr list \<Rightarrow> jstr \<Rightarrow> (js_value list \<times> jstr) option" where
  "eval_expr env (ENum x) m = Some (NumV x, m)"
| "eval_expr env (EStr s) m = Some (StrV s, m)"
| "eval_expr env (EId v) m = map_option (\<lambda>x. (NumV x, m)) (map_of env v)"
| "eval_expr env (EBin w a b) m =
     (case eval_expr env a m of
        None \<Rightarrow> None
      | Some (x, m1) \<Rightarrow>
          if w = js ''&&'' then (if value_truthy x then eval_expr env b m1 else Some (x, m1))
          else if w = js ''||'' then (if value_truthy x then Some (x, m1) else eval_expr env b m1)
          else (case eval_expr env b m1 of
              None \<Rightarrow> None
            | Some (y, m2) \<Rightarrow> map_option (\<lambda>v. (v, m2)) (binary_op w x y)))"
| "eval_expr env (ECond a b c) m =
     (case eval_expr env a m of
        None \<Rightarrow> None
      | Some (x, m1) \<Rightarrow> if value_truthy x then eval_expr env b m1 else eval_expr env c m1)"
| "eval_expr env (ECall f as) m =
     (case eval_args env as m of None \<Rightarrow> None | Some (vs, m1) \<Rightarrow> call_function f vs m1)"
| "eval_args env [] m = Some ([], m)"
| "eval_args env (a # as) m =
     (case eval_expr env a m of
        None \<Rightarrow> None
      | Some (v, m1) \<Rightarrow> map_option (\<lambda>(vs, m2). (v # vs, m2)) (eval_args env as m1))"

section \<open>Reading printed text\<close>

lemma ident_not_ws: "ident_char c \<Longrightarrow> \<not> is_ws c"
  by (auto simp: ident_char_def is_word_char_def is_ws_def)

lemma lex_Nil [simp]: "tokens_of [] = Some []"
  by (simp add: tokens_of.simps)

lemma lex_space [simp]: "tokens_of (32 # s) = tokens_of s"
  by (subst tokens_of.simps) (simp add: is_ws_def)

definition stops :: "jstr \<Rightarrow> bool" where
  "stops s \<longleftrightarrow> s = [] \<or> \<not> ident_char (hd s) \<and> hd s \<noteq> 46"

lemma lex_ident:
  assumes "w \<noteq> []" "list_all ident_char w" "\<not> is_digit (hd w)" "stops s"
  shows "tokens_of (w @ s) = map_option ((#) (TId w)) (tokens_of s)"
proof -
  have t: "takeWhile ident_char (w @ s) = w" "dropWhile ident_char (w @ s) = s"
    using assms(2,4) by (cases s; simp add: list_all_iff takeWhile_append stops_def dropWhile_append)+
  obtain c v where w: "w = c # v" using assms(1) by (cases w) auto
  then show ?thesis using t assms(2,3) ident_not_ws [of c] by (subst tokens_of.simps) simp
qed

lemma lex_number:
  assumes "p_num w = Some (JNum x, [])" "is_digit (hd w)" "stops s"
  shows "tokens_of (w @ s) = map_option ((#) (TNum x)) (tokens_of s)"
proof -
  obtain c v where w: "w = c # v" using p_num_hd [OF assms(1)] by (cases w) auto
  have "num_end s" using assms(3) by (auto simp: num_end_def stops_def ident_char_def is_word_char_def is_digit_def)
  then have "p_num (w @ s) = Some (JNum x, s)" using p_num_append [OF _ assms(1)] by simp
  then have "lex_num (w @ s) = Some (x, s)" using assms(3) by (simp add: lex_num_def stops_def)
  moreover have "\<not> is_ws c" using assms(2) by (auto simp: w is_digit_def is_ws_def)
  ultimately show ?thesis using assms(2) by (subst tokens_of.simps) (simp add: w)
qed

lemma lex_string:
  assumes "list_all plain_char w"
  shows "tokens_of (34 # w @ 34 # s) = map_option ((#) (TStr w)) (tokens_of s)"
proof -
  have "takeWhile plain_char (w @ 34 # s) = w" "dropWhile plain_char (w @ 34 # s) = 34 # s"
    using assms by (simp_all add: list_all_iff takeWhile_append dropWhile_append plain_char_def)
  then have "lex_str (w @ 34 # s) = Some (w, s)" by (simp add: lex_str_def)
  then show ?thesis by (subst tokens_of.simps) (simp add: is_ws_def is_digit_def ident_char_def is_word_char_def)
qed

lemma lex_operator:
  assumes "lex_op (c # t) = Some (w, r)" "\<not> is_ws c" "\<not> is_digit c" "\<not> ident_char c" "c \<noteq> 34"
  shows "tokens_of (c # t) = map_option ((#) (TOp w)) (tokens_of r)"
  using assms by (subst tokens_of.simps) simp

lemmas op_facts = lex_op_def op_chars_def is_ws_def is_digit_def ident_char_def is_word_char_def js_lit Let_def

lemma lex_op_spaced:
  "lex_op (60 # 61 # 32 # s) = Some (js ''<='', 32 # s)"
  "lex_op (62 # 61 # 32 # s) = Some (js ''>='', 32 # s)"
  "lex_op (38 # 38 # 32 # s) = Some (js ''&&'', 32 # s)"
  "lex_op (60 # 32 # s) = Some (js ''<'', 32 # s)"
  "lex_op (62 # 32 # s) = Some (js ''>'', 32 # s)"
  "lex_op (43 # 32 # s) = Some (js ''+'', 32 # s)"
  "lex_op (42 # 32 # s) = Some (js ''*'', 32 # s)"
  "lex_op (63 # 32 # s) = Some (js ''?'', 32 # s)"
  "lex_op (58 # s) = Some (js '':'', s)"
  "lex_op (40 # s) = Some (js ''('', s)"
  "lex_op (41 # s) = Some (js '')'', s)"
  "lex_op (44 # s) = Some (js '','', s)"
  by (simp_all add: op_facts)

lemma tokens_spaced:
  "tokens_of (60 # 61 # 32 # s) = map_option ((#) (tok ''<='')) (tokens_of s)"
  "tokens_of (62 # 61 # 32 # s) = map_option ((#) (tok ''>='')) (tokens_of s)"
  "tokens_of (38 # 38 # 32 # s) = map_option ((#) (tok ''&&'')) (tokens_of s)"
  "tokens_of (60 # 32 # s) = map_option ((#) (tok ''<'')) (tokens_of s)"
  "tokens_of (62 # 32 # s) = map_option ((#) (tok ''>'')) (tokens_of s)"
  "tokens_of (43 # 32 # s) = map_option ((#) (tok ''+'')) (tokens_of s)"
  "tokens_of (42 # 32 # s) = map_option ((#) (tok ''*'')) (tokens_of s)"
  "tokens_of (63 # 32 # s) = map_option ((#) (tok ''?'')) (tokens_of s)"
  "tokens_of (58 # s) = map_option ((#) (tok '':'')) (tokens_of s)"
  "tokens_of (40 # s) = map_option ((#) (tok ''('')) (tokens_of s)"
  "tokens_of (41 # s) = map_option ((#) (tok '')'')) (tokens_of s)"
  "tokens_of (44 # s) = map_option ((#) (tok '','')) (tokens_of s)"
  by (simp_all add: lex_op_spaced [THEN lex_operator] op_facts)

section \<open>Segments\<close>

text \<open>Tokens with balanced parentheses, one level deep, that contain none of a set of operators outside them.\<close>

definition paren_free :: "js_token list \<Rightarrow> bool" where
  "paren_free ts \<longleftrightarrow> tok ''('' \<notin> set ts \<and> tok '')'' \<notin> set ts"

inductive segment :: "jstr list \<Rightarrow> js_token list \<Rightarrow> bool" for ops where
  segment_Nil: "segment ops []"
| segment_plain: "segment ops (t # ts)"
  if "t \<notin> TOp ` set ops" "t \<noteq> tok ''(''" "t \<noteq> tok '')''" "segment ops ts"
| segment_paren: "segment ops (tok ''('' # xs @ tok '')'' # ts)"
  if "paren_free xs" "segment ops ts" "js ''('' \<notin> set ops" "js '')'' \<notin> set ops"

lemma segment_append: "segment ops xs \<Longrightarrow> segment ops ys \<Longrightarrow> segment ops (xs @ ys)"
  by (induction rule: segment.induct) (auto intro: segment.intros)

definition before :: "'a list \<Rightarrow> ('a list \<times> 'b) option \<Rightarrow> ('a list \<times> 'b) option" where
  "before xs r = map_option (\<lambda>(p, q). (xs @ p, q)) r"

lemma before_simps [simp]:
  "before [] r = r" "before xs (before ys r) = before (xs @ ys) r" "before xs None = None" "before xs (Some (p, q)) = Some (xs @ p, q)"
  by (cases r; auto simp: before_def)+

lemma before_Cons: "map_option (\<lambda>(p, q). (x # p, q)) r = before [x] r"
  by (simp add: before_def)

lemma pieces_inside: "paren_free xs \<Longrightarrow> top_pieces ops (Suc d) (xs @ ts) = before xs (top_pieces ops (Suc d) ts)"
proof (induction xs)
  case (Cons x xs)
  then show ?case by (cases x; cases "top_pieces ops (Suc d) ts") (auto simp: paren_free_def)
qed simp

lemma colon_inside: "paren_free xs \<Longrightarrow> split_colon (Suc d) n (xs @ ts) = before xs (split_colon (Suc d) n ts)"
  by (induction xs) (auto simp: paren_free_def before_Cons)

lemma question_inside: "paren_free xs \<Longrightarrow> split_question (Suc d) (xs @ ts) = before xs (split_question (Suc d) ts)"
  by (induction xs) (auto simp: paren_free_def before_Cons)

lemma stray_inside: "paren_free xs \<Longrightarrow> stray_colon (Suc d) n (xs @ ts) = stray_colon (Suc d) n ts"
  by (induction xs) (auto simp: paren_free_def)

lemma pieces_segment: "segment ops xs \<Longrightarrow> top_pieces ops 0 (xs @ ts) = before xs (top_pieces ops 0 ts)"
proof (induction rule: segment.induct)
  case (segment_plain t xs)
  then show ?case by (cases t; cases "top_pieces ops 0 ts") auto
next
  case (segment_paren xs ys)
  then show ?case by (cases "top_pieces ops 0 ts") (auto simp: pieces_inside)
qed simp

lemma pieces_one: "segment ops xs \<Longrightarrow> top_pieces ops 0 xs = Some (xs, [])"
  using pieces_segment [of ops xs "[]"] by simp

lemma pieces_joined:
  "segment ops x \<Longrightarrow> list_all (\<lambda>(w, y). w \<in> set ops \<and> segment ops y) ys \<Longrightarrow> js ''('' \<notin> set ops \<Longrightarrow> js '')'' \<notin> set ops \<Longrightarrow>
   top_pieces ops 0 (x @ concat (map (\<lambda>(w, y). TOp w # y) ys)) = Some (x, ys)"
proof (induction ys arbitrary: x)
  case (Cons q ys)
  obtain w y where q: "q = (w, y)" by (cases q)
  have "top_pieces ops 0 (y @ concat (map (\<lambda>(w, y). TOp w # y) ys)) = Some (y, ys)"
    using Cons by (simp add: q)
  moreover have "TOp w \<noteq> tok ''(''" "TOp w \<noteq> tok '')''" using Cons.prems by (auto simp: q)
  ultimately show ?case using Cons.prems by (simp add: q pieces_segment)
qed (simp add: pieces_one)

lemma colon_segment: "segment [js ''?'', js '':''] xs \<Longrightarrow> split_colon 0 n (xs @ ts) = before xs (split_colon 0 n ts)"
  by (induction rule: segment.induct) (auto simp: colon_inside before_Cons)

lemma question_segment: "segment [js ''?'', js '':''] xs \<Longrightarrow> split_question 0 (xs @ ts) = before xs (split_question 0 ts)"
  by (induction rule: segment.induct) (auto simp: question_inside before_Cons)

lemma stray_segment: "segment [js ''?'', js '':''] xs \<Longrightarrow> stray_colon 0 n (xs @ ts) = stray_colon 0 n ts"
  by (induction rule: segment.induct) (auto simp: stray_inside)

section \<open>Composing texts, tokens and expressions\<close>

text \<open>A text is read as a list of tokens, whatever follows it.\<close>

definition reads :: "jstr \<Rightarrow> js_token list \<Rightarrow> bool" where
  "reads w ts \<longleftrightarrow> (\<forall>s. stops s \<longrightarrow> tokens_of (w @ s) = map_option ((@) ts) (tokens_of s))"

lemma readsD: "reads w ts \<Longrightarrow> stops s \<Longrightarrow> tokens_of (w @ s) = map_option ((@) ts) (tokens_of s)"
  by (simp add: reads_def)

lemma reads_whole: "reads w ts \<Longrightarrow> tokens_of w = Some ts"
  using readsD [of w ts "[]"] by (simp add: stops_def)

lemma stops_space [simp]: "stops (32 # s)"
  by (simp add: stops_def ident_char_def is_word_char_def)

lemma map_Cons_append: "map_option ((#) x) (map_option ((@) xs) r) = map_option ((@) (x # xs)) r"
  by (cases r) auto

lemma map_append_append: "map_option ((@) xs) (map_option ((@) ys) r) = map_option ((@) (xs @ ys)) r"
  by (cases r) auto

lemma map_append_Cons: "map_option ((@) xs) (map_option ((#) y) r) = map_option ((@) (xs @ [y])) r"
  by (cases r) auto

lemmas token_maps = map_Cons_append map_append_append map_append_Cons

text \<open>Texts and tokens joined by an operator.\<close>

definition joined :: "string \<Rightarrow> js_token list list \<Rightarrow> js_token list" where
  "joined w xs = (case xs of [] \<Rightarrow> [] | y # ys \<Rightarrow> y @ concat (map (\<lambda>(w, z). TOp w # z) (map (Pair (js w)) ys)))"

lemma joined_Cons2: "joined w (x # y # ys) = x @ tok w # joined w (y # ys)"
  by (simp add: joined_def)

lemma joined_one: "joined w [x] = x"
  by (simp add: joined_def)

lemma reads_join:
  assumes "\<And>s. tokens_of (js w @ 32 # s) = map_option ((#) (tok w)) (tokens_of s)"
  shows "list_all2 reads ws tss \<Longrightarrow> ws \<noteq> [] \<Longrightarrow> reads (join (js '' '' @ js w @ js '' '') ws) (joined w tss)"
proof (induction rule: list_all2_induct)
  case (Cons x xs y ys)
  show ?case
  proof (cases xs)
    case Nil
    then show ?thesis using Cons by (simp add: joined_one)
  next
    case (Cons x' xs')
    then obtain y' ys' where y: "ys = y' # ys'" using Cons.hyps by (cases ys) auto
    have IH: "reads (join (js '' '' @ js w @ js '' '') xs) (joined w ys)" using Cons.IH Cons by simp
    show ?thesis unfolding reads_def
    proof (intro allI impI)
      fix s assume s: "stops s"
      have "join (js '' '' @ js w @ js '' '') (x # xs) @ s = x @ 32 # js w @ 32 # join (js '' '' @ js w @ js '' '') xs @ s"
        by (simp add: Cons js_lit)
      then show "tokens_of (join (js '' '' @ js w @ js '' '') (x # xs) @ s) = map_option ((@) (joined w (y # ys))) (tokens_of s)"
        using readsD [OF Cons.hyps(1)] readsD [OF IH s] by (simp add: assms token_maps y joined_Cons2)
    qed
  qed
qed simp

lemma parse_segment: "segment [js ''?'', js '':''] xs \<Longrightarrow> parse_cond xs = parse_level LEVELS xs"
  using question_segment [of xs "[]"] by (simp add: parse_cond.simps)

lemma parse_conditional:
  assumes "segment [js ''?'', js '':''] a" "segment [js ''?'', js '':''] b"
  shows "parse_cond (a @ tok ''?'' # b @ tok '':'' # c) =
     (case (parse_level LEVELS a, parse_cond b, parse_cond c) of (Some x, Some y, Some z) \<Rightarrow> Some (ECond x y z) | _ \<Rightarrow> None)"
  using question_segment [OF assms(1)] colon_segment [OF assms(2)] by (subst parse_cond.simps) simp

lemma level_skip: "segment ops xs \<Longrightarrow> parse_level (ops # ls) xs = parse_level ls xs"
  by (simp add: parse_level.simps(1) pieces_one)

lemma those_all: "(\<And>x. x \<in> set xs \<Longrightarrow> f x = Some (g x)) \<Longrightarrow> those (map f xs) = Some (map g xs)"
  by (induction xs) auto

lemma level_many:
  assumes "top_pieces ops 0 ts = Some (p, ps)" "ps \<noteq> []" "parse_level ls p = Some e"
    and "those (map (\<lambda>(w, r). map_option (Pair w) (parse_level ls r)) ps) = Some es"
  shows "parse_level (ops # ls) ts = Some (left_assoc e es)"
proof -
  obtain q qs where "ps = q # qs" using assms(2) by (cases ps) auto
  then show ?thesis using assms unfolding parse_level.simps(1) by (simp only: option.case prod.case list.case)
qed

definition chain :: "string \<Rightarrow> js_expr list \<Rightarrow> js_expr" where
  "chain w es = left_assoc (hd es) (map (Pair (js w)) (tl es))"

lemma level_joined:
  assumes "js w \<in> set ops" "js ''('' \<notin> set ops" "js '')'' \<notin> set ops" "xs \<noteq> []"
    and "\<And>x. x \<in> set xs \<Longrightarrow> segment ops (f x) \<and> parse_level ls (f x) = Some (g x)"
  shows "parse_level (ops # ls) (joined w (map f xs)) = Some (chain w (map g xs))"
proof -
  obtain y ys where xs: "xs = y # ys" using assms(4) by (cases xs) auto
  show ?thesis
  proof (cases ys)
    case Nil
    then show ?thesis using assms(5) [of y] by (simp add: xs joined_one level_skip left_assoc_def chain_def)
  next
    case (Cons z zs)
    have t: "top_pieces ops 0 (joined w (map f xs)) = Some (f y, map (Pair (js w)) (map f ys))"
      unfolding joined_def xs list.map list.case
      using assms(1,5) by (intro pieces_joined assms) (auto simp: xs list_all_iff)
    have "those (map (\<lambda>(w, r). map_option (Pair w) (parse_level ls r)) (map (Pair (js w)) (map f ys))) = Some (map (\<lambda>x. (js w, g x)) ys)"
      unfolding map_map comp_def prod.case using assms(5) by (intro those_all) (auto simp: xs)
    then show ?thesis using level_many [OF t] assms(5) [of y] Cons by (simp add: xs chain_def comp_def)
  qed
qed

end
