(* ===== verification/Tier_Eval.thy ===== *)
theory Tier_Eval
  imports Tier_Rules Js_Expr
begin

text \<open>
  The price estimator of features/pricing/lib/tier-expr.ts (\<open>evalExprLocally\<close>), which compiles an
  expression and evaluates it for given token counts, and what it shows for the expressions that
  the visual editor prints.
\<close>

section \<open>Estimator\<close>

record EvalResult =
  ev_cost :: jsnum
  ev_matchedTier :: jstr
  ev_error :: "js_error option"

definition token_count :: "jsnum jobj \<Rightarrow> jstr \<Rightarrow> jsnum" where
  "token_count extraTokenValues key = or_zero (opt_Number (obj_get extraTokenValues key))"

definition estimator_env :: "jsnum \<Rightarrow> jsnum \<Rightarrow> jsnum jobj \<Rightarrow> (jstr \<times> jsnum) list" where
  "estimator_env promptTokens completionTokens extraTokenValues =
     (let cacheReadTokens = token_count extraTokenValues (js ''cacheReadTokens'');
          cacheCreateTokens = token_count extraTokenValues (js ''cacheCreateTokens'');
          cacheCreate1hTokens = token_count extraTokenValues (js ''cacheCreate1hTokens'');
          len = num_add (num_add (num_add promptTokens cacheReadTokens) cacheCreateTokens) cacheCreate1hTokens in
      [(js ''p'', promptTokens), (js ''c'', completionTokens), (js ''len'', len)] @
      map (\<lambda>(v, key). (v, token_count extraTokenValues key)) ESTIMATOR_VARS)"

text \<open>\<open>None\<close> when the expression uses parts of JavaScript that Js_Expr does not have.\<close>

definition evalExprLocally :: "jstr \<Rightarrow> jsnum \<Rightarrow> jsnum \<Rightarrow> jsnum jobj \<Rightarrow> EvalResult option" where
  "evalExprLocally exprStr promptTokens completionTokens extraTokenValues =
     (if trim exprStr = [] then Some \<lparr>ev_cost = Fin 0 0, ev_matchedTier = [], ev_error = None\<rparr>
      else (case compile_expr exprStr of
          None \<Rightarrow> None
        | Some (Inl e) \<Rightarrow> Some \<lparr>ev_cost = Fin 0 0, ev_matchedTier = [], ev_error = Some e\<rparr>
        | Some (Inr e) \<Rightarrow>
            map_option (\<lambda>(v, matchedTier). \<lparr>ev_cost = or_zero (value_Number v), ev_matchedTier = matchedTier, ev_error = None\<rparr>)
              (eval_expr (estimator_env promptTokens completionTokens extraTokenValues) e [])))"

section \<open>What a configuration costs\<close>

text \<open>The summands of a tier, the cost for token counts, and whether its conditions hold.\<close>

definition extra_summand :: "visual_tier \<Rightarrow> jstr \<times> jstr \<Rightarrow> (jstr \<times> jsnum) option" where
  "extra_summand t fv =
     (let v = or_zero (opt_Number (obj_get (tier_costs t) (fst fv))) in if v \<noteq> Fin 0 0 then Some (snd fv, v) else None)"

definition summands :: "visual_tier \<Rightarrow> (jstr \<times> jsnum) list" where
  "summands t =
     [(js ''p'', or_zero (input_unit_cost t)), (js ''c'', or_zero (output_unit_cost t))] @
     List.map_filter (extra_summand t) BILLING_CACHE_VAR_MAP"

definition count_of :: "(jstr \<times> jsnum) list \<Rightarrow> jstr \<Rightarrow> jsnum" where
  "count_of env v = (case map_of env v of Some x \<Rightarrow> x | None \<Rightarrow> NaN)"

definition tier_cost :: "(jstr \<times> jsnum) list \<Rightarrow> visual_tier \<Rightarrow> jsnum" where
  "tier_cost env t =
     (case map (\<lambda>(v, x). num_mul (count_of env v) x) (summands t) of [] \<Rightarrow> Fin 0 0 | y # ys \<Rightarrow> foldl num_add y ys)"

definition cond_number :: "tier_condition_input \<Rightarrow> jsnum" where
  "cond_number c = (case p_num (value_str (the (ci_value c))) of Some (JNum y, _) \<Rightarrow> y | _ \<Rightarrow> NaN)"

definition cond_true :: "(jstr \<times> jsnum) list \<Rightarrow> tier_condition_input \<Rightarrow> bool" where
  "cond_true env c =
     (let x = count_of env (ci_var c); y = cond_number c in
      if ci_op c = js ''<'' then num_less x y
      else if ci_op c = js ''<='' then num_le x y
      else if ci_op c = js ''>'' then num_less y x
      else num_le y x)"

definition complete_conds :: "visual_tier \<Rightarrow> tier_condition_input list" where
  "complete_conds t = filter complete_cond (vt_conditions t)"

text \<open>Of several tiers the first whose conditions hold counts, and the last one otherwise.\<close>

fun chosen_tier :: "(jstr \<times> jsnum) list \<Rightarrow> nat \<Rightarrow> visual_tier list \<Rightarrow> jstr \<times> visual_tier" where
  "chosen_tier env i [] = ([], hd createDefaultVisualConfig)"
| "chosen_tier env i [t] = (tier_label i t, t)"
| "chosen_tier env i (t # ts) =
     (if list_all (cond_true env) (complete_conds t) then (tier_label i t, t) else chosen_tier env (Suc i) ts)"

definition tier_result :: "(jstr \<times> jsnum) list \<Rightarrow> jstr \<times> visual_tier \<Rightarrow> EvalResult" where
  "tier_result env lt = \<lparr>ev_cost = or_zero (tier_cost env (snd lt)), ev_matchedTier = fst lt, ev_error = None\<rparr>"

definition estimate :: "(jstr \<times> jsnum) list \<Rightarrow> visual_tier list \<Rightarrow> EvalResult" where
  "estimate env ts =
     (case ts of
        [t] \<Rightarrow>
          if list_all (cond_true env) (complete_conds t) then tier_result env (or_label (vt_label t) (js ''default''), t)
          else \<lparr>ev_cost = Fin 0 0, ev_matchedTier = [], ev_error = None\<rparr>
      | _ \<Rightarrow>
          if list_ex (\<lambda>t. complete_conds t = []) (butlast ts)
          then \<lparr>ev_cost = Fin 0 0, ev_matchedTier = [], ev_error = Some SyntaxError\<rparr>
          else tier_result env (chosen_tier env 0 ts))"

section \<open>Printed tiers\<close>

definition price_ok :: "jsnum \<Rightarrow> bool" where
  "price_ok x \<longleftrightarrow> num_ok x \<and> is_digit (hd (num_str x))"

definition eval_cond_ok :: "tier_condition_input \<Rightarrow> bool" where
  "eval_cond_ok c \<longleftrightarrow> ci_var c \<in> set BILLING_CONDITION_VARS \<and> ci_op c \<in> set [js ''<'', js ''<='', js ''>'', js ''>=''] \<and>
     p_num (value_str (the (ci_value c))) = Some (JNum (cond_number c), []) \<and> is_digit (hd (value_str (the (ci_value c))))"

definition eval_tier_ok :: "visual_tier \<Rightarrow> bool" where
  "eval_tier_ok t \<longleftrightarrow> list_all plain_char (vt_label t) \<and> list_all (\<lambda>(v, x). price_ok x) (summands t) \<and>
     list_all eval_cond_ok (complete_conds t)"

definition cond_tokens :: "tier_condition_input \<Rightarrow> js_token list" where
  "cond_tokens c = [TId (ci_var c), TOp (ci_op c), TNum (cond_number c)]"

definition summand_tokens :: "jstr \<times> jsnum \<Rightarrow> js_token list" where
  "summand_tokens s = [TId (fst s), tok ''*'', TNum (snd s)]"

definition body_tokens :: "visual_tier \<Rightarrow> js_token list" where
  "body_tokens t = joined ''+'' (map summand_tokens (summands t))"

definition call_tokens :: "jstr \<Rightarrow> visual_tier \<Rightarrow> js_token list" where
  "call_tokens label t = [TId (js ''tier''), tok ''('', TStr label, tok '',''] @ body_tokens t @ [tok '')'']"

definition conds_tokens :: "visual_tier \<Rightarrow> js_token list" where
  "conds_tokens t = joined ''&&'' (map cond_tokens (complete_conds t))"

text \<open>Every word the printer writes is read as its token.\<close>

definition ident_word :: "jstr \<Rightarrow> bool" where
  "ident_word v \<longleftrightarrow> v \<noteq> [] \<and> list_all ident_char v \<and> \<not> is_digit (hd v)"

lemma condition_words: "v \<in> set BILLING_CONDITION_VARS \<Longrightarrow> ident_word v"
proof -
  have "list_all ident_word BILLING_CONDITION_VARS" by code_simp
  then show "v \<in> set BILLING_CONDITION_VARS \<Longrightarrow> ident_word v" by (simp add: list_all_iff)
qed

lemma cache_words: "fv \<in> set BILLING_CACHE_VAR_MAP \<Longrightarrow> ident_word (snd fv)"
proof -
  have "list_all (\<lambda>fv. ident_word (snd fv)) BILLING_CACHE_VAR_MAP" by code_simp
  then show "fv \<in> set BILLING_CACHE_VAR_MAP \<Longrightarrow> ident_word (snd fv)" by (simp add: list_all_iff)
qed

lemma summand_words: "s \<in> set (summands t) \<Longrightarrow> ident_word (fst s)"
proof -
  have "ident_word (js ''p'')" "ident_word (js ''c'')" by code_simp+
  then show "s \<in> set (summands t) \<Longrightarrow> ident_word (fst s)"
    using cache_words by (auto simp: summands_def extra_summand_def Let_def set_map_filter split: if_splits)
qed

lemma map_Cons_one: "map_option ((#) x) r = map_option ((@) [x]) r"
  by (cases r) auto

lemma reads_cond:
  assumes "eval_cond_ok c"
  shows "reads (tier_cond_text c) (cond_tokens c)"
proof -
  have op: "tokens_of (ci_op c @ 32 # s) = map_option ((#) (TOp (ci_op c))) (tokens_of s)" for s
    using assms by (auto simp: eval_cond_ok_def tokens_spaced js_lit)
  have v: "ident_word (ci_var c)" using assms condition_words by (simp add: eval_cond_ok_def)
  have n: "tokens_of (value_str (the (ci_value c)) @ s) = map_option ((#) (TNum (cond_number c))) (tokens_of s)" if "stops s" for s
    using assms lex_number [OF _ _ that] by (simp add: eval_cond_ok_def)
  show ?thesis
    using v lex_ident [of "ci_var c" "32 # s" for s] op n
    by (auto simp: reads_def tier_cond_text_def cond_tokens_def ident_word_def js_lit map_Cons_one map_append_append)
qed

lemma reads_summand:
  assumes "ident_word (fst s)" "price_ok (snd s)"
  shows "reads (cost_part (fst s) (snd s)) (summand_tokens s)"
proof -
  have n: "tokens_of (num_str (snd s) @ r) = map_option ((#) (TNum (snd s))) (tokens_of r)" if "stops r" for r
    using assms(2) lex_number [OF _ _ that] by (simp add: price_ok_def num_ok_def)
  show ?thesis
    using assms(1) lex_ident [of "fst s" "32 # r" for r] n
    by (auto simp: reads_def cost_part_def summand_tokens_def ident_word_def js_lit tokens_spaced map_Cons_one map_append_append
        simp del: num_str.simps)
qed

lemma body_text: "buildTierBodyExpr t = join (js '' + '') (map (\<lambda>s. cost_part (fst s) (snd s)) (summands t))"
proof -
  have "extra_part t = (\<lambda>fv. map_option (\<lambda>s. cost_part (fst s) (snd s)) (extra_summand t fv))"
    by (rule ext) (simp add: extra_part_def extra_summand_def Let_def)
  then have "List.map_filter (extra_part t) xs = map (\<lambda>s. cost_part (fst s) (snd s)) (List.map_filter (extra_summand t) xs)" for xs
    by (induction xs) (auto simp: List.map_filter_simps split: option.splits)
  then show ?thesis by (simp add: buildTierBodyExpr_def summands_def)
qed

lemma summands_ne: "summands t \<noteq> []"
  by (simp add: summands_def)

lemma reads_body:
  assumes "eval_tier_ok t"
  shows "reads (buildTierBodyExpr t) (body_tokens t)"
proof -
  have "list_all2 reads (map (\<lambda>s. cost_part (fst s) (snd s)) (summands t)) (map summand_tokens (summands t))"
    using assms unfolding list.rel_map
    by (intro list.rel_refl_strong reads_summand summand_words) (auto simp: eval_tier_ok_def list_all_iff)
  then have "reads (join (js '' '' @ js ''+'' @ js '' '') (map (\<lambda>s. cost_part (fst s) (snd s)) (summands t))) (body_tokens t)"
    unfolding body_tokens_def by (intro reads_join) (simp_all add: tokens_spaced js_lit summands_ne)
  moreover have "js '' '' @ js ''+'' @ js '' '' = js '' + ''" by (simp add: js_lit)
  ultimately show ?thesis unfolding body_text by simp
qed

lemma reads_conds:
  assumes "eval_tier_ok t" "complete_conds t \<noteq> []"
  shows "reads (buildConditionStr (vt_conditions t)) (conds_tokens t)"
proof -
  have "list_all2 reads (map tier_cond_text (complete_conds t)) (map cond_tokens (complete_conds t))"
    using assms(1) reads_cond by (auto simp: list_all2_conv_all_nth eval_tier_ok_def list_all_length)
  then have "reads (join (js '' '' @ js ''&&'' @ js '' '') (map tier_cond_text (complete_conds t))) (conds_tokens t)"
    unfolding conds_tokens_def by (intro reads_join) (simp_all add: tokens_spaced js_lit assms(2))
  moreover have "js '' '' @ js ''&&'' @ js '' '' = js '' && ''" by (simp add: js_lit)
  ultimately show ?thesis by (simp add: buildConditionStr_def complete_conds_def)
qed

lemma reads_call:
  assumes "eval_tier_ok t" "list_all plain_char label"
  shows "reads (tier_call label t) (call_tokens label t)"
proof -
  have "stops (41 # s)" for s by (simp add: stops_def ident_char_def is_word_char_def)
  then have b: "tokens_of (buildTierBodyExpr t @ 41 # s) = map_option ((@) (body_tokens t @ [tok '')''])) (tokens_of s)" for s
    using readsD [OF reads_body [OF assms(1)]] by (simp add: tokens_spaced token_maps)
  have i: "tokens_of (js ''tier'' @ 40 # s) = map_option ((#) (TId (js ''tier''))) (tokens_of (40 # s))" for s
    by (rule lex_ident) (simp_all add: js_lit ident_char_def is_word_char_def is_digit_def stops_def)
  have "tier_call label t @ s = js ''tier'' @ 40 # 34 # label @ 34 # 44 # 32 # buildTierBodyExpr t @ 41 # s" for s
    by (simp add: tier_call_def js_lit)
  then show ?thesis
    using b i lex_string [OF assms(2)] by (simp add: reads_def call_tokens_def tokens_spaced map_Cons_one map_append_append)
qed

section \<open>Parsed tiers\<close>

lemma segment_list:
  "list_all (\<lambda>t. t \<notin> TOp ` set ops \<and> t \<noteq> tok ''('' \<and> t \<noteq> tok '')'') ts \<Longrightarrow> segment ops ts"
  by (induction ts) (auto intro: segment.intros)

lemma segment_joined:
  "list_all (segment ops) xs \<Longrightarrow> js w \<notin> set ops \<Longrightarrow> js w \<noteq> js ''('' \<Longrightarrow> js w \<noteq> js '')'' \<Longrightarrow> segment ops (joined w xs)"
proof (induction xs rule: induct_list012)
  case (3 x y zs)
  then show ?case by (auto simp: joined_Cons2 intro!: segment_append segment_plain)
qed (auto simp: joined_def intro: segment_Nil)

definition cond_expr :: "tier_condition_input \<Rightarrow> js_expr" where
  "cond_expr c = EBin (ci_op c) (EId (ci_var c)) (ENum (cond_number c))"

definition summand_expr :: "jstr \<times> jsnum \<Rightarrow> js_expr" where
  "summand_expr s = EBin (js ''*'') (EId (fst s)) (ENum (snd s))"

abbreviation conds_expr :: "visual_tier \<Rightarrow> js_expr" where
  "conds_expr t \<equiv> chain ''&&'' (map cond_expr (complete_conds t))"

abbreviation body_expr :: "visual_tier \<Rightarrow> js_expr" where
  "body_expr t \<equiv> chain ''+'' (map summand_expr (summands t))"

definition call_expr :: "jstr \<Rightarrow> visual_tier \<Rightarrow> js_expr" where
  "call_expr label t = ECall (js ''tier'') [EStr label, body_expr t]"

abbreviation REL :: "jstr list" where
  "REL \<equiv> [js ''<'', js ''<='', js ''>'', js ''>='']"

lemma parse_binary:
  assumes "w \<in> set ops" "js ''('' \<notin> set ops" "js '')'' \<notin> set ops"
    and "parse_level ls [a] = Some x" "parse_level ls [b] = Some y" "segment ops [a]" "segment ops [b]"
  shows "parse_level (ops # ls) [a, TOp w, b] = Some (EBin w x y)"
proof -
  have "top_pieces ops 0 ([a] @ concat (map (\<lambda>(w, y). TOp w # y) [(w, [b])])) = Some ([a], [(w, [b])])"
    using assms by (intro pieces_joined) auto
  then show ?thesis using level_many [of ops "[a, TOp w, b]" "[a]" "[(w, [b])]" ls x "[(w, y)]"] assms(4,5) by (simp add: left_assoc_def)
qed

lemma operand_segment: "segment ops [TId v]" "segment ops [TNum x]" "segment ops [TStr s]"
  by (auto intro: segment.intros)

lemma operand_level: "parse_level ls [TId v] = Some (EId v)" "parse_level ls [TNum x] = Some (ENum x)" "parse_level ls [TStr s] = Some (EStr s)"
  by (induction ls) (simp_all add: level_skip operand_segment)

lemma parse_cond_tokens:
  assumes "eval_cond_ok c"
  shows "parse_level (drop 2 LEVELS) (cond_tokens c) = Some (cond_expr c)"
  using assms unfolding LEVELS_def cond_tokens_def cond_expr_def eval_cond_ok_def
  by (simp add: parse_binary operand_segment operand_level)

lemma parse_summand_tokens: "parse_level (drop 4 LEVELS) (summand_tokens s) = Some (summand_expr s)"
  unfolding LEVELS_def summand_tokens_def summand_expr_def by (simp add: parse_binary operand_segment operand_level)

lemma conds_segment:
  assumes "eval_tier_ok t" "set ops \<inter> (set REL \<union> {js ''&&''}) = {}"
  shows "segment ops (conds_tokens t)"
proof -
  have "segment ops (cond_tokens c)" if "c \<in> set (complete_conds t)" for c
  proof -
    have "ci_op c \<in> set REL" using assms(1) that by (auto simp: eval_tier_ok_def list_all_iff eval_cond_ok_def)
    then show ?thesis using assms(2) by (intro segment_list) (auto simp: cond_tokens_def)
  qed
  then show ?thesis unfolding conds_tokens_def using assms(2) by (intro segment_joined) (auto simp: list_all_iff)
qed

lemma body_segment:
  assumes "set ops \<inter> {js ''+'', js ''*''} = {}"
  shows "segment ops (body_tokens t)"
  unfolding body_tokens_def using assms
  by (intro segment_joined) (auto simp: list_all_iff summand_tokens_def intro!: segment_list)

lemma body_paren_free: "paren_free (body_tokens t)"
proof -
  have "paren_free (joined ''+'' (map summand_tokens ss))" for ss
    by (induction ss rule: induct_list012) (auto simp: joined_def paren_free_def summand_tokens_def)
  then show ?thesis by (simp add: body_tokens_def)
qed

lemma call_segment:
  assumes "js ''('' \<notin> set ops" "js '')'' \<notin> set ops"
  shows "segment ops (call_tokens label t)"
proof -
  have "call_tokens label t = TId (js ''tier'') # tok ''('' # ([TStr label, tok '',''] @ body_tokens t) @ tok '')'' # []"
    by (simp add: call_tokens_def)
  moreover have "paren_free ([TStr label, tok '',''] @ body_tokens t)" using body_paren_free by (simp add: paren_free_def)
  ultimately have "segment ops (tok ''('' # ([TStr label, tok '',''] @ body_tokens t) @ tok '')'' # [])"
    using assms by (intro segment_paren segment_Nil) auto
  from segment_plain [OF _ _ _ this, of "TId (js ''tier'')"] show ?thesis by (auto simp: call_tokens_def)
qed

lemma parse_conds:
  assumes "eval_tier_ok t" "complete_conds t \<noteq> []"
  shows "parse_level LEVELS (conds_tokens t) = Some (conds_expr t)"
proof -
  have "segment [js ''&&''] (cond_tokens c)" "parse_level (drop 2 LEVELS) (cond_tokens c) = Some (cond_expr c)"
    if "c \<in> set (complete_conds t)" for c
  proof -
    have "eval_cond_ok c" using assms(1) that by (auto simp: eval_tier_ok_def list_all_iff)
    then show "segment [js ''&&''] (cond_tokens c)" "parse_level (drop 2 LEVELS) (cond_tokens c) = Some (cond_expr c)"
      using parse_cond_tokens [of c] by (auto simp: cond_tokens_def eval_cond_ok_def intro!: segment_list)
  qed
  then have "parse_level ([js ''&&''] # drop 2 LEVELS) (conds_tokens t) = Some (conds_expr t)"
    unfolding conds_tokens_def using assms(2) by (intro level_joined) auto
  moreover have "segment [js ''||''] (conds_tokens t)" by (rule conds_segment [OF assms(1)]) simp
  ultimately show ?thesis by (simp add: LEVELS_def level_skip)
qed

text \<open>Joined summands, which are also the expression printed when no tier applies.\<close>

lemma parse_summands:
  assumes "ss \<noteq> []"
  shows "parse_cond (joined ''+'' (map summand_tokens ss)) = Some (chain ''+'' (map summand_expr ss))"
proof -
  have s: "segment ops (summand_tokens s)" if "js ''*'' \<notin> set ops" for ops s
    using that by (auto simp: summand_tokens_def intro!: segment_list)
  have j: "segment ops (joined ''+'' (map summand_tokens ss))" if "set ops \<inter> {js ''+'', js ''*''} = {}" for ops
    using that s by (intro segment_joined) (auto simp: list_all_iff)
  have "parse_level ([js ''+'', js ''-''] # drop 4 LEVELS) (joined ''+'' (map summand_tokens ss)) = Some (chain ''+'' (map summand_expr ss))"
    using s parse_summand_tokens assms by (intro level_joined) auto
  then show ?thesis using j by (simp add: parse_segment LEVELS_def level_skip)
qed

lemma parse_call: "parse_cond (call_tokens label t) = Some (call_expr label t)"
proof -
  let ?r = "[TStr label, tok '',''] @ body_tokens t @ [tok '')'']"
  have "top_pieces [js '',''] 0 ([TStr label] @ concat (map (\<lambda>(w, y). TOp w # y) [(js '','', body_tokens t)])) =
      Some ([TStr label], [(js '','', body_tokens t)])"
    by (intro pieces_joined) (auto simp: operand_segment body_segment)
  then have p: "top_pieces [js '',''] 0 (butlast ?r) = Some ([TStr label], [(js '','', body_tokens t)])"
    by (simp add: butlast_append)
  have "parse_cond [TStr label] = Some (EStr label)"
    using parse_segment [OF operand_segment(3)] by (simp add: operand_level)
  moreover have "parse_cond (body_tokens t) = Some (body_expr t)"
    unfolding body_tokens_def by (rule parse_summands [OF summands_ne])
  ultimately have "parse_level [] (TId (js ''tier'') # TOp (js ''('') # ?r) = Some (call_expr label t)"
    using p by (simp add: ends_call_def call_expr_def)
  then have "parse_level [] (call_tokens label t) = Some (call_expr label t)" by (simp add: call_tokens_def)
  then show ?thesis using call_segment by (simp add: parse_segment LEVELS_def level_skip)
qed

section \<open>Evaluated tiers\<close>

text \<open>The variables of the registry are in the environment.\<close>

definition in_env :: "(jstr \<times> jsnum) list \<Rightarrow> jstr \<Rightarrow> bool" where
  "in_env env v \<longleftrightarrow> map_of env v = Some (count_of env v)"

lemma estimator_vars:
  assumes "v \<in> set (BILLING_CONDITION_VARS @ map snd BILLING_CACHE_VAR_MAP @ [js ''p'', js ''c''])"
  shows "in_env (estimator_env p c x) v"
proof -
  have "list_all (\<lambda>v. v \<in> set (map js [''p'', ''c'', ''len'', ''cr'', ''cc'', ''cc1h'', ''img'', ''img_o'', ''ai'', ''ao'']))
      (BILLING_CONDITION_VARS @ map snd BILLING_CACHE_VAR_MAP @ [js ''p'', js ''c''])"
    by code_simp
  then have "v \<in> fst ` set (estimator_env p c x)"
    using assms unfolding list_all_iff by (auto simp: estimator_env_def ESTIMATOR_VARS_def Let_def)
  then have "map_of (estimator_env p c x) v \<noteq> None" by (simp add: map_of_eq_None_iff)
  then show ?thesis by (auto simp: in_env_def count_of_def)
qed

lemma summand_vars: "s \<in> set (summands t) \<Longrightarrow> in_env (estimator_env p c x) (fst s)"
  using estimator_vars [of "fst s" p c x]
  by (auto simp: summands_def extra_summand_def Let_def set_map_filter split: if_splits) (metis imageI snd_conv)+

lemma eval_cond:
  assumes "eval_cond_ok c" "in_env env (ci_var c)"
  shows "eval_expr env (cond_expr c) m = Some (BoolV (cond_true env c), m)"
  using assms by (auto simp: cond_expr_def in_env_def eval_cond_ok_def cond_true_def binary_op_def)

lemma eval_and:
  assumes "eval_expr env e m = Some (BoolV b, m)" "list_all (\<lambda>x. eval_expr env (f x) m = Some (BoolV (g x), m)) xs"
  shows "eval_expr env (left_assoc e (map (Pair (js ''&&'')) (map f xs))) m = Some (BoolV (b \<and> list_all g xs), m)"
  using assms
proof (induction xs arbitrary: e b)
  case (Cons x xs)
  have "eval_expr env (EBin (js ''&&'') e (f x)) m = Some (BoolV (b \<and> g x), m)" using Cons.prems by simp
  from Cons.IH [OF this] Cons.prems show ?case by (simp add: left_assoc_def)
qed (simp add: left_assoc_def)

lemma eval_conds:
  assumes "eval_tier_ok t" "complete_conds t \<noteq> []" "\<And>v. v \<in> set BILLING_CONDITION_VARS \<Longrightarrow> in_env env v"
  shows "eval_expr env (conds_expr t) m = Some (BoolV (list_all (cond_true env) (complete_conds t)), m)"
proof -
  have "eval_expr env (cond_expr c) m = Some (BoolV (cond_true env c), m)" if "c \<in> set (complete_conds t)" for c
    using assms(1,3) that by (intro eval_cond) (auto simp: eval_tier_ok_def list_all_iff eval_cond_ok_def)
  then show ?thesis
    using assms(2) eval_and [of env "cond_expr (hd (complete_conds t))" m "cond_true env (hd (complete_conds t))"
        cond_expr "cond_true env" "tl (complete_conds t)"]
    by (cases "complete_conds t") (auto simp: chain_def list_all_iff)
qed

lemma eval_sum:
  assumes "eval_expr env e m = Some (NumV y, m)" "list_all (\<lambda>s. in_env env (fst s)) ss"
  shows "eval_expr env (left_assoc e (map (Pair (js ''+'')) (map summand_expr ss))) m =
     Some (NumV (foldl num_add y (map (\<lambda>(v, x). num_mul (count_of env v) x) ss)), m)"
  using assms
proof (induction ss arbitrary: e y)
  case (Cons s ss)
  have "eval_expr env (EBin (js ''+'') e (summand_expr s)) m = Some (NumV (num_add y (num_mul (count_of env (fst s)) (snd s))), m)"
    using Cons.prems by (simp add: summand_expr_def in_env_def binary_op_def)
  from Cons.IH [OF this] Cons.prems show ?case by (simp add: left_assoc_def case_prod_beta)
qed (simp add: left_assoc_def)

lemma eval_summands:
  assumes "ss \<noteq> []" "list_all (\<lambda>s. in_env env (fst s)) ss"
  shows "eval_expr env (chain ''+'' (map summand_expr ss)) m =
     Some (NumV (case map (\<lambda>(v, x). num_mul (count_of env v) x) ss of [] \<Rightarrow> Fin 0 0 | y # ys \<Rightarrow> foldl num_add y ys), m)"
proof -
  obtain s ss' where ss: "ss = s # ss'" using assms(1) by (cases ss) auto
  have "eval_expr env (summand_expr s) m = Some (NumV (num_mul (count_of env (fst s)) (snd s)), m)"
    using assms(2) by (simp add: ss summand_expr_def in_env_def binary_op_def)
  from eval_sum [OF this] assms(2) show ?thesis by (simp add: ss chain_def case_prod_beta)
qed

lemma eval_call:
  assumes "\<And>s. s \<in> set (summands t) \<Longrightarrow> in_env env (fst s)"
  shows "eval_expr env (call_expr label t) m = Some (NumV (tier_cost env t), label)"
  using eval_summands [OF summands_ne, of env t m] assms
  by (simp add: call_expr_def call_function_def tier_cost_def list_all_iff)

section \<open>Several tiers\<close>

fun parts_tokens :: "nat \<Rightarrow> visual_tier list \<Rightarrow> js_token list list" where
  "parts_tokens i [] = []"
| "parts_tokens i (t # ts) =
     (if ts \<noteq> [] \<and> complete_conds t \<noteq> [] then conds_tokens t @ tok ''?'' # call_tokens (tier_label i t) t
      else call_tokens (tier_label i t) t) # parts_tokens (Suc i) ts"

fun tiers_expr :: "nat \<Rightarrow> visual_tier list \<Rightarrow> js_expr" where
  "tiers_expr i [] = ENum NaN"
| "tiers_expr i [t] = call_expr (tier_label i t) t"
| "tiers_expr i (t # ts) = ECond (conds_expr t) (call_expr (tier_label i t) t) (tiers_expr (Suc i) ts)"

lemma label_plain: "eval_tier_ok t \<Longrightarrow> list_all plain_char (tier_label i t)"
proof -
  have "list_all plain_char (nat_str n)" for n
    using nat_str_digits by (fastforce simp: list_all_iff plain_char_def is_digit_def)
  then show "eval_tier_ok t \<Longrightarrow> list_all plain_char (tier_label i t)"
    by (auto simp: eval_tier_ok_def tier_label_def or_label_def js_lit plain_char_def)
qed

lemma no_condition_text: "eval_tier_ok t \<Longrightarrow> buildConditionStr (vt_conditions t) = [] \<longleftrightarrow> complete_conds t = []"
proof
  assume ok: "eval_tier_ok t" and e: "buildConditionStr (vt_conditions t) = []"
  show "complete_conds t = []"
  proof (rule ccontr)
    assume ne: "complete_conds t \<noteq> []"
    then have "tokens_of [] = Some (conds_tokens t)" using reads_whole [OF reads_conds [OF ok ne]] e by simp
    then show False using ne by (cases "complete_conds t") (auto simp: conds_tokens_def joined_def cond_tokens_def)
  qed
qed (simp add: buildConditionStr_def complete_conds_def)

lemma reads_parts: "list_all eval_tier_ok ts \<Longrightarrow> list_all2 reads (tier_parts i ts) (parts_tokens i ts)"
proof (induction ts arbitrary: i)
  case (Cons t ts)
  have c: "reads (tier_call (tier_label i t) t) (call_tokens (tier_label i t) t)"
    using Cons.prems label_plain by (intro reads_call) auto
  have "reads (buildConditionStr (vt_conditions t) @ js '' ? '' @ tier_call (tier_label i t) t)
      (conds_tokens t @ tok ''?'' # call_tokens (tier_label i t) t)" if "complete_conds t \<noteq> []"
    using readsD [OF reads_conds [OF _ that]] readsD [OF c] Cons.prems by (auto simp: reads_def js_lit tokens_spaced token_maps)
  then show ?case using Cons c no_condition_text by (simp add: Let_def)
qed simp

lemma parts_ne: "ts \<noteq> [] \<Longrightarrow> parts_tokens i ts \<noteq> [] \<and> tier_parts i ts \<noteq> []"
  by (cases ts) (auto simp: Let_def)

lemma tiers_tokens:
  assumes "list_all eval_tier_ok ts" "ts \<noteq> []"
  shows "tokens_of (join (js '' : '') (tier_parts i ts)) = Some (joined '':'' (parts_tokens i ts))"
proof -
  have "reads (join (js '' '' @ js '':'' @ js '' '') (tier_parts i ts)) (joined '':'' (parts_tokens i ts))"
    using reads_parts [OF assms(1)] parts_ne [OF assms(2)] by (intro reads_join) (auto simp: tokens_spaced js_lit)
  moreover have "js '' '' @ js '':'' @ js '' '' = js '' : ''" by (simp add: js_lit)
  ultimately show ?thesis by (simp add: reads_whole)
qed

lemma joined_parts:
  "joined '':'' (parts_tokens i (t # u # ts)) =
     (if complete_conds t \<noteq> [] then conds_tokens t @ tok ''?'' # call_tokens (tier_label i t) t @ tok '':'' # joined '':'' (parts_tokens (Suc i) (u # ts))
      else call_tokens (tier_label i t) t @ tok '':'' # joined '':'' (parts_tokens (Suc i) (u # ts)))"
  by (simp add: joined_Cons2)

lemma conds_alone: "eval_tier_ok t \<Longrightarrow> segment [js ''?'', js '':''] (conds_tokens t)"
  by (rule conds_segment) simp_all

lemma call_alone: "segment [js ''?'', js '':''] (call_tokens label t)"
  by (rule call_segment) simp_all

lemma stray_tiers:
  assumes "list_all eval_tier_ok ts" "ts \<noteq> []"
  shows "stray_colon 0 0 (joined '':'' (parts_tokens i ts)) = list_ex (\<lambda>t. complete_conds t = []) (butlast ts)"
  using assms
proof (induction ts arbitrary: i rule: induct_list012)
  case (2 t)
  then show ?case using stray_segment [OF call_alone, of 0 "tier_label i t" t "[]"] by (simp add: joined_one)
next
  case (3 t u ts)
  then show ?case
    unfolding joined_parts by (auto simp: stray_segment conds_alone call_alone)
qed simp

lemma parse_tiers:
  assumes "list_all eval_tier_ok ts" "ts \<noteq> []" "\<not> list_ex (\<lambda>t. complete_conds t = []) (butlast ts)"
  shows "parse_cond (joined '':'' (parts_tokens i ts)) = Some (tiers_expr i ts)"
  using assms
proof (induction ts arbitrary: i rule: induct_list012)
  case (2 t)
  then show ?case by (simp add: joined_one parse_call)
next
  case (3 t u ts)
  then show ?case
    unfolding joined_parts by (simp add: parse_conditional conds_alone call_alone parse_conds parse_call)
qed simp

lemma eval_tiers:
  assumes "list_all eval_tier_ok ts" "ts \<noteq> []" "\<not> list_ex (\<lambda>t. complete_conds t = []) (butlast ts)"
    and "\<And>v. v \<in> set BILLING_CONDITION_VARS \<Longrightarrow> in_env env v" "\<And>t s. s \<in> set (summands t) \<Longrightarrow> in_env env (fst s)"
  shows "eval_expr env (tiers_expr i ts) m =
     Some (NumV (tier_cost env (snd (chosen_tier env i ts))), fst (chosen_tier env i ts))"
  using assms
proof (induction ts arbitrary: i rule: induct_list012)
  case (2 t)
  then show ?case by (simp add: eval_call)
next
  case (3 t u ts)
  then show ?case by (simp add: eval_conds eval_call)
qed simp

section \<open>The estimator on printed configurations\<close>

lemma not_blank: "tokens_of s = Some ts \<Longrightarrow> ts \<noteq> [] \<Longrightarrow> trim s \<noteq> []"
proof
  assume t: "tokens_of s = Some ts" "ts \<noteq> []" and "trim s = []"
  then have "\<forall>c \<in> set s. is_ws c" by (simp add: jtrim.strip_blank)
  then have "tokens_of s = Some []"
  proof (induction s)
    case (Cons c s)
    then show ?case by (subst tokens_of.simps) simp
  qed simp
  then show False using t by simp
qed

lemma evaluated:
  assumes "tokens_of s = Some ts" "ts \<noteq> []" "\<not> stray_colon 0 0 ts" "parse_cond ts = Some e"
    and "eval_expr (estimator_env p c x) e [] = Some (NumV y, l)"
  shows "evalExprLocally s p c x = Some \<lparr>ev_cost = or_zero y, ev_matchedTier = l, ev_error = None\<rparr>"
  using assms not_blank by (simp add: evalExprLocally_def compile_expr_def)

lemma refused:
  assumes "tokens_of s = Some ts" "ts \<noteq> []" "stray_colon 0 0 ts"
  shows "evalExprLocally s p c x = Some \<lparr>ev_cost = Fin 0 0, ev_matchedTier = [], ev_error = Some SyntaxError\<rparr>"
  using assms not_blank by (simp add: evalExprLocally_def compile_expr_def)

lemma zero_cost: "or_zero (num_add (num_mul a (Fin 0 0)) (num_mul b (Fin 0 0))) = Fin 0 0"
  by (cases a; cases b) (auto simp: or_zero_def bin_double_def to_double_def over2_def)

definition free_summands :: "(jstr \<times> jsnum) list" where
  "free_summands = [(js ''p'', Fin 0 0), (js ''c'', Fin 0 0)]"

lemma free_text: "tokens_of (js ''p * 0 + c * 0'') = Some (joined ''+'' (map summand_tokens free_summands))"
  by code_simp

lemma estimate_single:
  assumes "eval_tier_ok t"
  shows "evalExprLocally (generateExprFromVisualConfig (Some [t])) p c x = Some (estimate (estimator_env p c x) [t])"
proof -
  let ?env = "estimator_env p c x" and ?l = "or_label (vt_label t) (js ''default'')"
  have l: "list_all plain_char ?l" using assms by (simp add: eval_tier_ok_def or_label_def js_lit plain_char_def)
  note c = reads_call [OF assms l]
  have call: "eval_expr ?env (call_expr ?l t) m = Some (NumV (tier_cost ?env t), ?l)" for m
    by (rule eval_call) (rule summand_vars)
  show ?thesis
  proof (cases "complete_conds t = []")
    case True
    then have g: "generateExprFromVisualConfig (Some [t]) = tier_call ?l t"
      using no_condition_text [OF assms] by (simp add: generateExprFromVisualConfig_def Let_def)
    have "\<not> stray_colon 0 0 (call_tokens ?l t)" using stray_segment [OF call_alone, of 0 ?l t "[]"] by simp
    then show ?thesis
      using True evaluated [OF reads_whole [OF c] _ _ parse_call call]
      by (simp add: g estimate_def tier_result_def call_tokens_def)
  next
    case False
    let ?z = "joined ''+'' (map summand_tokens free_summands)"
    let ?ts = "conds_tokens t @ tok ''?'' # call_tokens ?l t @ tok '':'' # ?z"
    have g: "generateExprFromVisualConfig (Some [t]) = buildConditionStr (vt_conditions t) @ 32 # 63 # 32 # tier_call ?l t @ 32 # 58 # 32 # js ''p * 0 + c * 0''"
      using False no_condition_text [OF assms] by (simp add: generateExprFromVisualConfig_def Let_def js_lit)
    have ts: "tokens_of (generateExprFromVisualConfig (Some [t])) = Some ?ts"
      unfolding g using readsD [OF reads_conds [OF assms False]] readsD [OF c] free_text by (simp add: tokens_spaced)
    have "segment [js ''?'', js '':''] ?z"
      by (rule segment_joined) (auto simp: list_all_iff free_summands_def summand_tokens_def intro!: segment_list)
    then have s: "\<not> stray_colon 0 0 ?ts"
      using stray_segment [of ?z 0 "[]"] by (simp add: stray_segment conds_alone assms call_alone)
    have z: "parse_cond ?z = Some (chain ''+'' (map summand_expr free_summands))"
      by (rule parse_summands) (simp add: free_summands_def)
    have pa: "parse_cond ?ts = Some (ECond (conds_expr t) (call_expr ?l t) (chain ''+'' (map summand_expr free_summands)))"
      using parse_conditional [OF conds_alone [OF assms] call_alone] parse_conds [OF assms False] parse_call z by simp
    have "in_env ?env (js ''p'')" "in_env ?env (js ''c'')" by (rule estimator_vars; simp)+
    then have free: "eval_expr ?env (chain ''+'' (map summand_expr free_summands)) m =
        Some (NumV (num_add (num_mul (count_of ?env (js ''p'')) (Fin 0 0)) (num_mul (count_of ?env (js ''c'')) (Fin 0 0))), m)" for m
      using eval_summands [of free_summands ?env m] by (simp add: free_summands_def)
    have conds: "eval_expr ?env (conds_expr t) m = Some (BoolV (list_all (cond_true ?env) (complete_conds t)), m)" for m
      using estimator_vars by (intro eval_conds [OF assms False]) auto
    show ?thesis
    proof (cases "list_all (cond_true ?env) (complete_conds t)")
      case True
      then show ?thesis using evaluated [OF ts _ s pa] conds call by (simp add: estimate_def tier_result_def)
    next
      case False
      then show ?thesis using evaluated [OF ts _ s pa] conds free by (simp add: estimate_def zero_cost)
    qed
  qed
qed

lemma estimated:
  assumes "list_all eval_tier_ok ts" "ts \<noteq> []"
  shows "evalExprLocally (generateExprFromVisualConfig (Some ts)) p c x = Some (estimate (estimator_env p c x) ts)"
proof (cases "length ts = 1")
  case True
  then show ?thesis using assms estimate_single by (cases ts) auto
next
  case False
  let ?env = "estimator_env p c x"
  obtain t u us where ts: "ts = t # u # us" using False assms(2) by (cases ts; cases "tl ts") auto
  have g: "generateExprFromVisualConfig (Some ts) = join (js '' : '') (tier_parts 0 ts)"
    by (simp add: generateExprFromVisualConfig_def ts)
  have e: "estimate ?env ts = (if list_ex (\<lambda>t. complete_conds t = []) (butlast ts)
      then \<lparr>ev_cost = Fin 0 0, ev_matchedTier = [], ev_error = Some SyntaxError\<rparr> else tier_result ?env (chosen_tier ?env 0 ts))"
    by (simp add: estimate_def ts)
  note k = tiers_tokens [OF assms, of 0]
  have ne: "joined '':'' (parts_tokens 0 ts) \<noteq> []" unfolding ts joined_parts by simp
  show ?thesis
  proof (cases "list_ex (\<lambda>t. complete_conds t = []) (butlast ts)")
    case True
    then show ?thesis using refused [OF k ne] stray_tiers [OF assms, of 0] by (simp add: g e)
  next
    case False
    have "eval_expr ?env (tiers_expr 0 ts) [] = Some (NumV (tier_cost ?env (snd (chosen_tier ?env 0 ts))), fst (chosen_tier ?env 0 ts))"
      using estimator_vars summand_vars by (intro eval_tiers [OF assms False]) auto
    then show ?thesis
      using evaluated [OF k ne _ parse_tiers [OF assms False]] stray_tiers [OF assms, of 0] False
      by (simp add: g e tier_result_def)
  qed
qed

text \<open>C7: For an expression that the visual editor prints, the estimator shows the label and the cost of the tier that applies:
  of several tiers the first whose conditions hold, and the last one otherwise; a single tier whose conditions fail costs
  nothing.  The cost is the sum of all priced token counts in double precision.  When a tier other than the last of several
  has no complete condition, what is printed is no expression and the estimator reports a syntax error.\<close>

theorem estimator_shows_tier:
  assumes "list_all eval_tier_ok ts" "ts \<noteq> []"
  shows "evalExprLocally (generateExprFromVisualConfig (Some ts)) p c x = Some (estimate (estimator_env p c x) ts)"
  by (rule estimated [OF assms])

definition sample_tiers :: "visual_tier list" where
  "sample_tiers =
     [(hd createDefaultVisualConfig)\<lparr>vt_label := js ''short'',
        vt_conditions := [\<lparr>ci_var = js ''len'', ci_op = js ''<='', ci_value = Some (VStr (js ''9''))\<rparr>]\<rparr>,
      (hd createDefaultVisualConfig)\<lparr>vt_label := [], input_unit_cost := Fin 1 0\<rparr>]"

lemma sample_tiers_facts:
  "list_all eval_tier_ok sample_tiers"
  "estimate (estimator_env (Fin 5 0) (Fin 1 0) [(js ''cacheReadTokens'', Fin 1 3)]) sample_tiers =
     \<lparr>ev_cost = Fin 5 0, ev_matchedTier = js ''tier_2'', ev_error = None\<rparr>"
  "sample_tiers \<noteq> []"
  by code_simp+

theorem estimator_shows_tier_witness:
  "evalExprLocally (generateExprFromVisualConfig (Some sample_tiers)) (Fin 5 0) (Fin 1 0) [(js ''cacheReadTokens'', Fin 1 3)] =
     Some \<lparr>ev_cost = Fin 5 0, ev_matchedTier = js ''tier_2'', ev_error = None\<rparr> \<and>
   evalExprLocally (generateExprFromVisualConfig (Some (rev sample_tiers))) (Fin 5 0) (Fin 1 0) [] =
     Some \<lparr>ev_cost = Fin 0 0, ev_matchedTier = [], ev_error = Some SyntaxError\<rparr>"
proof -
  have e: "estimate env (rev sample_tiers) = \<lparr>ev_cost = Fin 0 0, ev_matchedTier = [], ev_error = Some SyntaxError\<rparr>" for env
    by (simp add: estimate_def sample_tiers_def complete_conds_def createDefaultVisualConfig_def normalizeVisualTier_def)
  have "list_all eval_tier_ok (rev sample_tiers)" "rev sample_tiers \<noteq> []"
    using sample_tiers_facts by (simp_all add: list_all_iff)
  then show ?thesis
    using sample_tiers_facts e estimator_shows_tier [of sample_tiers] estimator_shows_tier [of "rev sample_tiers"] by simp
qed

end
