(* ===== verification/Tier_Logs.thy ===== *)
theory Tier_Logs
  imports Tier_Eval
begin

text \<open>
  What a usage log shows of tiered billing (features/usage-logs/lib/format.ts): the expression is
  decoded and parsed, and the tier whose label the log names is looked up.
\<close>

record LogOtherData =
  lo_cache_tokens :: "jsnum option"
  lo_cache_creation_tokens :: "jsnum option"
  lo_cache_creation_tokens_5m :: "jsnum option"
  lo_cache_creation_tokens_1h :: "jsnum option"
  lo_billing_mode :: "jstr option"
  lo_expr_b64 :: "jstr option"
  lo_matched_tier :: "jstr option"

record TieredBillingSummary =
  ts_tiers :: "parsed_tier list"
  ts_tier :: parsed_tier
  ts_priceEntries :: "(jstr \<times> jstr \<times> jsnum) list"

text \<open>The argument is \<open>atob\<close> followed by the text decoder of the browser; \<open>None\<close> when it throws.\<close>

definition decodeBillingExprB64 :: "(jstr \<Rightarrow> jstr option) \<Rightarrow> jstr option \<Rightarrow> jstr" where
  "decodeBillingExprB64 decode_base64 exprB64 =
     (case exprB64 of
        None \<Rightarrow> []
      | Some s \<Rightarrow> if s = [] then [] else (case decode_base64 s of Some w \<Rightarrow> w | None \<Rightarrow> []))"

definition resolveMatchedTier :: "(jstr \<Rightarrow> jstr) \<Rightarrow> parsed_tier list \<Rightarrow> jstr option \<Rightarrow> parsed_tier option" where
  "resolveMatchedTier toLowerCase tiers matchedLabel =
     (if tiers = [] then None
      else (case matchedLabel of
          None \<Rightarrow> None
        | Some l \<Rightarrow>
            if l = [] then None
            else find (\<lambda>tier.
              let l1 = normalizeTierLabel toLowerCase (Some (pt_label tier)); l2 = normalizeTierLabel toLowerCase (Some l)
              in l1 = l2 \<and> l1 \<noteq> []) tiers))"

definition hasAnyCacheTokens :: "LogOtherData \<Rightarrow> bool" where
  "hasAnyCacheTokens other =
     list_ex (\<lambda>x. num_less (Fin 0 0) (or_zero (opt_Number x)))
       [lo_cache_tokens other, lo_cache_creation_tokens other, lo_cache_creation_tokens_5m other, lo_cache_creation_tokens_1h other]"

definition getTieredBillingSummary ::
  "(jstr \<Rightarrow> jstr option) \<Rightarrow> (jstr \<Rightarrow> jstr) \<Rightarrow> LogOtherData option \<Rightarrow> TieredBillingSummary option" where
  "getTieredBillingSummary decode_base64 toLowerCase log =
     (case log of
        None \<Rightarrow> None
      | Some other \<Rightarrow>
          if lo_billing_mode other \<noteq> Some (js ''tiered_expr'') then None
          else (let exprStr = decodeBillingExprB64 decode_base64 (lo_expr_b64 other); tiers = parseTiersFromExpr exprStr in
            if exprStr = [] then None
            else map_option (\<lambda>tier.
              \<lparr>ts_tiers = tiers, ts_tier = tier,
               ts_priceEntries = List.map_filter (\<lambda>v.
                 let price = opt_Number (obj_get (pt_prices tier) (the (bv_field v))) in
                 if bv_group v = Some (js ''cache'') \<and> \<not> hasAnyCacheTokens other then None
                 else if num_isFinite price \<and> num_less (Fin 0 0) price
                 then Some (the (bv_field v), bv_shortLabel v, price) else None) BILLING_PRICING_VARS\<rparr>)
              (resolveMatchedTier toLowerCase tiers (lo_matched_tier other))))"

section \<open>The tier that applied\<close>

lemma chosen_shown:
  "ts \<noteq> [] \<Longrightarrow> \<exists>t u. t \<in> set ts \<and> chosen_tier env i ts = (pt_label u, t) \<and> u \<in> set (shown_tiers_from i ts) \<and> pt_prices u = tier_prices t"
proof (induction ts arbitrary: i rule: induct_list012)
  case (2 t)
  then show ?case by (intro exI [of _ t] exI [of _ "shown_tier (tier_label i t) [] t"]) (simp add: shown_tier_def)
next
  case (3 t t' ts)
  show ?case
  proof (cases "list_all (cond_true env) (complete_conds t)")
    case True
    then show ?thesis
      by (intro exI [of _ t] exI [of _ "shown_tier (tier_label i t) (shown_conds t) t"]) (simp add: shown_tier_def)
  next
    case False
    obtain w u where w: "w \<in> set (t' # ts)" "chosen_tier env (Suc i) (t' # ts) = (pt_label u, w)"
      "u \<in> set (shown_tiers_from (Suc i) (t' # ts))" "pt_prices u = tier_prices w"
      using 3(2) [of "Suc i"] by auto
    have "set (shown_tiers_from (Suc i) (t' # ts)) \<subseteq> set (shown_tiers_from i (t # t' # ts))"
      by (subst (2) shown_tiers_from.simps(2)) auto
    then show ?thesis using False w by (intro exI [of _ w] exI [of _ u]) auto
  qed
qed simp

lemma estimate_shown:
  assumes "ts \<noteq> []" "ev_matchedTier (estimate env ts) \<noteq> []"
  shows "\<exists>t u. t \<in> set ts \<and> u \<in> set (shown_tiers ts) \<and> pt_label u = ev_matchedTier (estimate env ts) \<and>
     pt_prices u = tier_prices t \<and> ev_cost (estimate env ts) = or_zero (tier_cost env t)"
proof (cases "length ts = 1")
  case True
  then obtain t where "ts = [t]" by (cases ts) auto
  then show ?thesis using assms(2) by (auto simp: estimate_def shown_tiers_def tier_result_def shown_tier_def split: if_splits)
next
  case False
  then obtain t u us where ts: "ts = t # u # us" using assms(1) by (cases ts; cases "tl ts") auto
  obtain t' u' where "t' \<in> set ts" "chosen_tier env 0 ts = (pt_label u', t')" "u' \<in> set (shown_tiers_from 0 ts)" "pt_prices u' = tier_prices t'"
    using chosen_shown [OF assms(1), of env 0] by blast
  moreover have "shown_tiers ts = shown_tiers_from 0 ts" by (simp add: shown_tiers_def ts)
  moreover have "estimate env ts = tier_result env (chosen_tier env 0 ts)"
    using assms(2) by (auto simp: estimate_def ts split: if_splits)
  ultimately show ?thesis by (auto simp: tier_result_def)
qed

lemma find_distinct:
  "u \<in> set us \<Longrightarrow> distinct (map f us) \<Longrightarrow> find (\<lambda>v. f v = f u \<and> Q (f v)) us = (if Q (f u) then Some u else None)"
proof (induction us)
  case (Cons v us)
  show ?case
  proof (cases "u = v")
    case True
    then have "f x \<noteq> f u" if "x \<in> set us" for x using Cons.prems(2) that by (auto simp: image_iff)
    then have "find (\<lambda>v. f v = f u \<and> Q (f v)) us = None" by (auto simp: find_None_iff)
    then show ?thesis using True by simp
  next
    case False
    then show ?thesis using Cons by auto
  qed
qed simp


definition sample_log :: LogOtherData where
  "sample_log = \<lparr>lo_cache_tokens = None, lo_cache_creation_tokens = None, lo_cache_creation_tokens_5m = None, lo_cache_creation_tokens_1h = None,
     lo_billing_mode = Some (js ''tiered_expr''), lo_expr_b64 = Some (js ''eA==''), lo_matched_tier = Some (js ''tier_2'')\<rparr>"


end
