(* ===== verification/Status_Code_Guard.thy ===== *)
theory Status_Code_Guard
  imports Js_Regex Js_Json "HOL-Library.List_Lexorder"
begin

text \<open>
  The guard on a channel's status code mapping (features/channels/lib/status-code-risk-guard.ts): entries that are
  not status codes, redirects of 504 and 524, and the redirects that an edit adds.  A \<open>Set\<close> is the list of its
  elements in order of insertion; \<open>sort\<close> without a comparator orders strings by code units, which is the
  lexicographic order of \<open>List_Lexorder\<close>.
\<close>

section \<open>Model\<close>

definition NON_REDIRECTABLE_STATUS_CODES :: "nat list" where
  "NON_REDIRECTABLE_STATUS_CODES = [504, 524]"

definition first_code_cls :: "jchar \<Rightarrow> bool" where
  "first_code_cls c \<longleftrightarrow> 49 \<le> c \<and> c \<le> 53"

definition status_code_rx :: rx where
  "status_code_rx = seqs [Bos, Cls first_code_cls, Cls is_digit, Cls is_digit, Eos]"

definition parseStatusCodeKey :: "jstr \<Rightarrow> nat option" where
  "parseStatusCodeKey rawKey =
     (if \<not> rx_test status_code_rx (trim rawKey) then None else Some (digits_val (trim rawKey)))"

text \<open>An integer between two bounds, of a finite \<open>number\<close>.\<close>

definition int_in :: "nat \<Rightarrow> nat \<Rightarrow> jsnum \<Rightarrow> nat option" where
  "int_in a b x =
     (case x of
        Fin m e \<Rightarrow> if int a \<le> over2 m e 0 \<and> over2 m e 0 \<le> int b then Some (nat (over2 m e 0)) else None
      | _ \<Rightarrow> None)"

definition parseStatusCodeMappingTarget :: "json \<Rightarrow> nat option" where
  "parseStatusCodeMappingTarget rawValue =
     (case rawValue of
        JNum x \<Rightarrow> if num_isInteger x then int_in 100 599 x else None
      | JStr s \<Rightarrow>
          if \<not> rx_test status_code_rx (trim s) then None
          else (let code = digits_val (trim s) in if 100 \<le> code \<and> code \<le> 599 then Some code else None)
      | _ \<Rightarrow> None)"

text \<open>The guards both collectors start with: the entries of a JSON object, otherwise nothing.\<close>

definition mapping_entries :: "jstr \<Rightarrow> json jobj" where
  "mapping_entries s =
     (if trim s = [] then []
      else (case JSON_parse s of Some (JObj ob) \<Rightarrow> ob | _ \<Rightarrow> []))"

definition arrow_text :: "jstr \<Rightarrow> json \<Rightarrow> jstr" where
  "arrow_text rawKey rawValue = rawKey @ js '' '' @ [8594] @ js '' '' @ json_str rawValue"

definition collectInvalidStatusCodeEntries :: "jstr \<Rightarrow> jstr list" where
  "collectInvalidStatusCodeEntries s =
     List.map_filter (\<lambda>(k, v).
       if parseStatusCodeKey k = None \<or> parseStatusCodeMappingTarget v = None then Some (arrow_text k v) else None)
       (mapping_entries s)"

definition redirect_text :: "nat \<Rightarrow> nat \<Rightarrow> jstr" where
  "redirect_text f t = nat_str f @ js '' -> '' @ nat_str t"

definition risky_mapping :: "jstr \<times> json \<Rightarrow> jstr option" where
  "risky_mapping kv =
     (case (parseStatusCodeKey (fst kv), parseStatusCodeMappingTarget (snd kv)) of
        (Some f, Some t) \<Rightarrow>
          if f \<notin> set NON_REDIRECTABLE_STATUS_CODES then None
          else if f = t then None else Some (redirect_text f t)
      | _ \<Rightarrow> None)"

definition collectDisallowedStatusCodeRedirects :: "jstr \<Rightarrow> jstr list" where
  "collectDisallowedStatusCodeRedirects s = sort (dedup (List.map_filter risky_mapping (mapping_entries s)))"

definition collectNewDisallowedStatusCodeRedirects :: "jstr \<Rightarrow> jstr \<Rightarrow> jstr list" where
  "collectNewDisallowedStatusCodeRedirects originalStr currentStr =
     (let currentRisky = collectDisallowedStatusCodeRedirects currentStr
      in if currentRisky = [] then []
         else filter (\<lambda>m. m \<notin> set (collectDisallowedStatusCodeRedirects originalStr)) currentRisky)"

section \<open>Codes\<close>

lemma status_code_rx_iff:
  "rx_test status_code_rx s \<longleftrightarrow> (\<exists>a b c. s = [a, b, c] \<and> first_code_cls a \<and> is_digit b \<and> is_digit c)"
  unfolding status_code_rx_def rx_test_Bos
  by (auto simp: seqs_Cons seqs_Nil split: list.splits if_splits)

lemma code_bounds:
  assumes "rx_test status_code_rx s"
  shows "100 \<le> digits_val s \<and> digits_val s \<le> 599"
  using assms by (auto simp: status_code_rx_iff digits_val_def first_code_cls_def is_digit_def)

lemma parseStatusCodeKey_bounds: "parseStatusCodeKey k = Some f \<Longrightarrow> 100 \<le> f \<and> f \<le> 599"
  using code_bounds by (auto simp: parseStatusCodeKey_def split: if_splits)

lemma parseTarget_bounds: "parseStatusCodeMappingTarget v = Some t \<Longrightarrow> 100 \<le> t \<and> t \<le> 599"
  by (auto simp: parseStatusCodeMappingTarget_def int_in_def Let_def split: json.splits jsnum.splits if_splits)

text \<open>White space that is not JSON has no value.\<close>

lemma JSON_parse_blank: "trim s = [] \<Longrightarrow> JSON_parse s = None"
proof -
  assume ws: "trim s = []"
  have "p_val (Suc n) s = None" for n
  proof (cases "skip_ws s")
    case (Cons x xs)
    then have "x \<in> set s" unfolding skip_ws_def by (metis list.set_intros(1) set_dropWhileD)
    then have "is_ws x" using ws by (auto simp: trim_eq_Nil)
    moreover have "x \<noteq> 45 \<and> \<not> is_digit x \<and> x \<noteq> 34 \<and> x \<noteq> 123 \<and> x \<noteq> 91 \<and> x \<noteq> 116 \<and> x \<noteq> 102 \<and> x \<noteq> 110"
      using \<open>is_ws x\<close> is_digit_not_ws by (auto simp: is_ws_def)
    moreover have "p_num (x # xs) = None"
      using calculation p_num_hd [of "x # xs"] by (cases "p_num (x # xs)") auto
    ultimately show ?thesis using Cons by (simp add: js_lit)
  qed simp
  then show ?thesis by (simp add: JSON_parse_def whole_def)
qed

lemma mapping_entries_parse: "JSON_parse s = Some (JObj ob) \<Longrightarrow> mapping_entries s = ob"
  using JSON_parse_blank [of s] by (auto simp: mapping_entries_def)

section \<open>Properties\<close>

lemma risky_mapping_iff:
  "risky_mapping (k, v) = Some x \<longleftrightarrow>
     (\<exists>f t. parseStatusCodeKey k = Some f \<and> parseStatusCodeMappingTarget v = Some t \<and> f \<in> {504, 524} \<and> f \<noteq> t \<and>
        x = redirect_text f t)"
  by (cases "parseStatusCodeKey k"; cases "parseStatusCodeMappingTarget v")
    (auto simp: risky_mapping_def NON_REDIRECTABLE_STATUS_CODES_def)

lemma set_disallowed:
  "x \<in> set (collectDisallowedStatusCodeRedirects s) \<longleftrightarrow> (\<exists>e \<in> set (mapping_entries s). risky_mapping e = Some x)"
  by (auto simp: collectDisallowedStatusCodeRedirects_def set_map_filter)

lemma disallowed_sorted_distinct:
  "sorted (collectDisallowedStatusCodeRedirects s) \<and> distinct (collectDisallowedStatusCodeRedirects s)"
  by (simp add: collectDisallowedStatusCodeRedirects_def)



text \<open>The redirects an edit adds are exactly the redirects of 504 or 524 to another code in the edited mapping that the
  original mapping does not have, without repetition and in ascending order.\<close>

lemma new_disallowed_redirects:
  "sorted (collectNewDisallowedStatusCodeRedirects a b) \<and> distinct (collectNewDisallowedStatusCodeRedirects a b) \<and>
   set (collectNewDisallowedStatusCodeRedirects a b) =
     {redirect_text f t | f t. (\<exists>k v. (k, v) \<in> set (mapping_entries b) \<and> parseStatusCodeKey k = Some f \<and>
          parseStatusCodeMappingTarget v = Some t) \<and> f \<in> {504, 524} \<and> f \<noteq> t} -
     set (collectDisallowedStatusCodeRedirects a)"
proof -
  have new: "collectNewDisallowedStatusCodeRedirects a b =
      filter (\<lambda>m. m \<notin> set (collectDisallowedStatusCodeRedirects a)) (collectDisallowedStatusCodeRedirects b)"
    by (simp add: collectNewDisallowedStatusCodeRedirects_def Let_def)
  have "set (collectDisallowedStatusCodeRedirects b) =
      {redirect_text f t | f t. (\<exists>k v. (k, v) \<in> set (mapping_entries b) \<and> parseStatusCodeKey k = Some f \<and>
          parseStatusCodeMappingTarget v = Some t) \<and> f \<in> {504, 524} \<and> f \<noteq> t}"
    unfolding set_eq_iff set_disallowed by (simp add: Bex_def split_paired_Ex risky_mapping_iff) blast
  then show ?thesis using disallowed_sorted_distinct [of b] by (auto simp: new sorted_wrt_filter)
qed

end
