(* ===== verification/Model_Mapping.thy ===== *)
theory Model_Mapping
  imports Js_Json
begin

text \<open>
  Model lists and model redirects of a channel (features/channels/lib/model-mapping-validation.ts).  A \<open>Set\<close> is
  the list of its elements in order of insertion.
\<close>

section \<open>Model\<close>

definition parseModelsString :: "jstr \<Rightarrow> jstr list" where
  "parseModelsString modelsStr =
     (if modelsStr = [] then [] else filter (\<lambda>m. m \<noteq> []) (map trim (split_char (ch CHR '','') modelsStr)))"

definition formatModelsArray :: "jstr list \<Rightarrow> jstr" where
  "formatModelsArray models = join (js '','') (dedup models)"

definition normalizeModelName :: "jstr \<Rightarrow> jstr" where
  "normalizeModelName model = trim model"

text \<open>The object a mapping text stands for; \<open>None\<close> when it is no JSON or no object.\<close>

definition mapping_object :: "jstr \<Rightarrow> json jobj option" where
  "mapping_object s = (case JSON_parse s of Some (JObj ob) \<Rightarrow> Some ob | _ \<Rightarrow> None)"

definition extractMappingSourceModels :: "jstr \<Rightarrow> jstr list" where
  "extractMappingSourceModels modelMapping =
     (let trimmed = trim modelMapping
      in if trimmed = [] then []
         else (case mapping_object trimmed of
             None \<Rightarrow> []
           | Some ob \<Rightarrow> dedup (filter (\<lambda>k. k \<noteq> []) (map trim (obj_keys ob)))))"

definition redirect_target :: "json \<Rightarrow> jstr option" where
  "redirect_target v = (case v of JStr s \<Rightarrow> if trim s = [] then None else Some (trim s) | _ \<Rightarrow> None)"

definition extractRedirectModels :: "jstr \<Rightarrow> jstr list" where
  "extractRedirectModels modelMapping =
     (let trimmed = trim modelMapping
      in if trimmed = [] then []
         else (case mapping_object trimmed of
             None \<Rightarrow> []
           | Some ob \<Rightarrow> dedup (List.map_filter redirect_target (map snd ob))))"

text \<open>The loop that compares the model lists by position.\<close>

fun models_differ :: "jstr list \<Rightarrow> jstr list \<Rightarrow> bool" where
  "models_differ (x # xs) (y # ys) = (if x \<noteq> y then True else models_differ xs ys)"
| "models_differ _ _ = False"

definition hasModelConfigChanged :: "jstr list \<Rightarrow> jstr \<Rightarrow> jstr list \<Rightarrow> jstr \<Rightarrow> bool" where
  "hasModelConfigChanged currentModels currentModelMapping initialModels initialModelMapping =
     (if initialModels = [] \<and> initialModelMapping = [] then True
      else if length currentModels \<noteq> length initialModels then True
      else if models_differ currentModels initialModels then True
      else trim currentModelMapping \<noteq> trim initialModelMapping)"

definition findMissingModelsInMapping :: "jstr \<Rightarrow> jstr list \<Rightarrow> jstr list" where
  "findMissingModelsInMapping modelMapping currentModels =
     (if modelMapping = [] \<or> trim modelMapping = [] then []
      else (case mapping_object modelMapping of
          None \<Rightarrow> []
        | Some ob \<Rightarrow>
            dedup (filter (\<lambda>k. k \<noteq> [] \<and> k \<notin> set (map normalizeModelName currentModels))
              (map normalizeModelName (obj_keys ob)))))"

text \<open>\<open>None\<close> is valid, \<open>Some\<close> the error text.\<close>

definition validateModelMappingJson :: "jstr \<Rightarrow> jstr option" where
  "validateModelMappingJson modelMapping =
     (if modelMapping = [] \<or> trim modelMapping = [] then None
      else (case JSON_parse modelMapping of
          None \<Rightarrow> Some (js ''Model mapping must be valid JSON format'')
        | Some (JObj ob) \<Rightarrow> None
        | Some _ \<Rightarrow> Some (js ''Model mapping must be a valid JSON object'')))"

definition findExposedTargetModels :: "jstr \<Rightarrow> jstr list \<Rightarrow> jstr list" where
  "findExposedTargetModels modelMapping currentModels =
     (let redirectModels = extractRedirectModels modelMapping
      in if redirectModels = [] then []
         else filter (\<lambda>m. normalizeModelName m \<in> set (map normalizeModelName currentModels)) redirectModels)"

record model_categories =
  normalizedCurrentModels :: "jstr list"
  normalizedRedirectModels :: "jstr list"
  classificationSet :: "jstr list"
  redirectOnlySet :: "jstr list"

definition normalized_set :: "jstr list \<Rightarrow> jstr list" where
  "normalized_set ms = dedup (filter (\<lambda>m. m \<noteq> []) (map normalizeModelName ms))"

definition categorizeModelsWithRedirect :: "jstr list \<Rightarrow> jstr list \<Rightarrow> model_categories" where
  "categorizeModelsWithRedirect currentModels redirectModels =
     (let cur = normalized_set currentModels; red = normalized_set redirectModels
      in \<lparr>normalizedCurrentModels = cur, normalizedRedirectModels = red, classificationSet = dedup (cur @ red),
          redirectOnlySet = dedup (filter (\<lambda>m. m \<notin> set cur) red)\<rparr>)"

section \<open>Lists of models\<close>

definition model_name :: "jstr \<Rightarrow> bool" where
  "model_name m \<longleftrightarrow> trimmed m \<and> m \<noteq> [] \<and> 44 \<notin> set m"

lemma split_models:
  assumes "list_all model_name ms" "ms \<noteq> []"
  shows "split_char 44 (join [44] ms) = ms"
  using assms by (intro split_join_char) (auto simp: model_name_def list_all_iff)

lemma map_trim_names: "list_all model_name ms \<Longrightarrow> filter (\<lambda>m. m \<noteq> []) (map trim ms) = ms"
  by (induction ms) (auto simp: model_name_def trim_id)

text \<open>Writing a list of model names and reading it back keeps every name once, at its first position.\<close>

lemma models_string_roundtrip:
  assumes "list_all model_name ms"
  shows "parseModelsString (formatModelsArray ms) = dedup ms"
proof (cases "ms = []")
  case True
  then show ?thesis by (simp add: parseModelsString_def formatModelsArray_def)
next
  case False
  have ok: "list_all model_name (dedup ms)" using assms by (simp add: list_all_iff)
  have "join [44] (dedup ms) \<noteq> []"
    using False ok by (cases "dedup ms"; cases "tl (dedup ms)") (auto simp: model_name_def)
  then show ?thesis
    using split_models [OF ok] map_trim_names [OF ok] False by (simp add: parseModelsString_def formatModelsArray_def js_lit)
qed

section \<open>Missing and exposed models\<close>

lemma set_missing:
  "x \<in> set (findMissingModelsInMapping mp ms) \<longleftrightarrow>
     trim mp \<noteq> [] \<and> (\<exists>ob. mapping_object mp = Some ob \<and> x \<in> trim ` set (obj_keys ob)) \<and> x \<noteq> [] \<and> x \<notin> trim ` set ms"
  by (cases "mapping_object mp") (auto simp: findMissingModelsInMapping_def normalizeModelName_def)

text \<open>The models reported as missing are none of the listed ones, each is reported once, and adding them to the list
  leaves nothing missing.\<close>

lemma missing_models_closed:
  "set (findMissingModelsInMapping mp ms) \<inter> normalizeModelName ` set ms = {} \<and>
   distinct (findMissingModelsInMapping mp ms) \<and>
   findMissingModelsInMapping mp (ms @ findMissingModelsInMapping mp ms) = []"
proof -
  have "x \<notin> set (findMissingModelsInMapping mp (ms @ findMissingModelsInMapping mp ms))" for x
  proof
    assume x: "x \<in> set (findMissingModelsInMapping mp (ms @ findMissingModelsInMapping mp ms))"
    then have "x \<in> set (findMissingModelsInMapping mp ms)" "trim x = x" by (auto simp: set_missing)
    then have "x \<in> trim ` set (findMissingModelsInMapping mp ms)" by force
    with x show False by (auto simp: set_missing)
  qed
  then have "findMissingModelsInMapping mp (ms @ findMissingModelsInMapping mp ms) = []"
    by (metis list.set_intros(1) neq_Nil_conv)
  moreover have "distinct (findMissingModelsInMapping mp ms)"
    by (simp add: findMissingModelsInMapping_def split: option.split)
  ultimately show ?thesis by (auto simp: set_missing normalizeModelName_def)
qed

lemma redirect_target_trimmed: "redirect_target v = Some m \<Longrightarrow> trim m = m"
  by (cases v) (auto simp: redirect_target_def split: if_splits)

lemma redirect_models_trimmed: "m \<in> set (extractRedirectModels mp) \<Longrightarrow> trim m = m"
  by (auto simp: extractRedirectModels_def set_map_filter Let_def dest: redirect_target_trimmed
      split: if_splits option.splits)

lemma set_exposed: "set (findExposedTargetModels mp ms) = set (extractRedirectModels mp) \<inter> normalizeModelName ` set ms"
  using redirect_models_trimmed [of _ mp]
  by (auto simp: findExposedTargetModels_def normalizeModelName_def Let_def)

text \<open>The exposed redirect targets are exactly the targets that are also listed, and removing them from the list
  leaves none exposed.\<close>

lemma exposed_models_closed:
  "set (findExposedTargetModels mp ms) = set (extractRedirectModels mp) \<inter> normalizeModelName ` set ms \<and>
   findExposedTargetModels mp (filter (\<lambda>m. normalizeModelName m \<notin> set (findExposedTargetModels mp ms)) ms) = []"
proof -
  let ?ms = "filter (\<lambda>m. normalizeModelName m \<notin> set (findExposedTargetModels mp ms)) ms"
  have "set (findExposedTargetModels mp ?ms) = {}"
    unfolding set_exposed [of mp ?ms] using set_exposed [of mp ms] by auto
  then show ?thesis using set_exposed [of mp ms] by (simp only: set_empty simp_thms)
qed

lemma models_differ_iff: "length xs = length ys \<Longrightarrow> models_differ xs ys \<longleftrightarrow> xs \<noteq> ys"
  by (induction xs ys rule: list_induct2) auto

text \<open>A model configuration counts as unchanged exactly when the channel had one before, the model lists are equal
  and the mapping texts are equal up to surrounding white space.\<close>

lemma config_unchanged_iff:
  "(\<not> hasModelConfigChanged cm cmap im imap) = (\<not> (im = [] \<and> imap = []) \<and> cm = im \<and> trim cmap = trim imap)"
  by (auto simp: hasModelConfigChanged_def models_differ_iff)

text \<open>The categories shown for a channel: every set holds its elements once, the classification is the union of listed
  and redirected models, and the redirect-only models are the redirected ones that are not listed.\<close>

lemma categorize_partition:
  "let r = categorizeModelsWithRedirect cur red
   in distinct (classificationSet r) \<and> distinct (redirectOnlySet r) \<and>
      set (classificationSet r) = set (normalizedCurrentModels r) \<union> set (redirectOnlySet r) \<and>
      set (normalizedCurrentModels r) \<inter> set (redirectOnlySet r) = {} \<and>
      set (normalizedRedirectModels r) = normalizeModelName ` set red - {[]} \<and>
      set (redirectOnlySet r) = set (normalizedRedirectModels r) - set (normalizedCurrentModels r)"
  by (auto simp: categorizeModelsWithRedirect_def normalized_set_def Let_def)

end
