(* ===== verification/Playground_Messages.thy ===== *)
theory Playground_Messages
  imports Js_Json
begin

text \<open>
  Chat messages of the playground (features/playground/lib/message-utils.ts and payload-builder.ts): construction,
  the think-tag parser, streaming updates, finalisation and repair on load, and the request payload.  Identifiers
  come from the \<open>nanoid\<close> package, so the functions that create one take it as an argument.
\<close>

section \<open>Data\<close>

datatype message_role = RoleUser | RoleAssistant | RoleSystem

datatype message_status = LOADING | STREAMING | COMPLETE | ERROR

record message_version =
  mv_id :: jstr
  mv_content :: jstr

record message_reasoning =
  mr_content :: jstr
  mr_duration :: jsnum

text \<open>Optional fields are options; \<open>errorCode\<close> can be absent, null or the code a server sent.\<close>

record message =
  msg_key :: jstr
  msg_from :: message_role
  msg_versions :: "message_version list"
  msg_sources :: "(jstr \<times> jstr) list option"
  msg_reasoning :: "message_reasoning option"
  msg_isReasoningStreaming :: "bool option"
  msg_isReasoningComplete :: "bool option"
  msg_isContentComplete :: "bool option"
  msg_status :: "message_status option"
  msg_errorCode :: "json option"

datatype content_part = TextPart "jstr option" | ImagePart jstr

datatype message_content = PlainText jstr | Parts "content_part list"

record chat_completion_message =
  cm_role :: message_role
  cm_content :: jstr

definition API_REQUEST_ERROR :: jstr where "API_REQUEST_ERROR = js ''Request error occurred''"
definition PARSE_ERROR :: jstr where "PARSE_ERROR = js ''Error parsing response data''"
definition STREAM_START_ERROR :: jstr where "STREAM_START_ERROR = js ''Error establishing connection''"
definition CONNECTION_CLOSED :: jstr where "CONNECTION_CLOSED = js ''Connection closed''"
definition INTERRUPTED :: jstr where "INTERRUPTED = js ''Generation was interrupted''"

section \<open>Construction\<close>

definition createMessageVersion :: "jstr \<Rightarrow> jstr \<Rightarrow> message_version" where
  "createMessageVersion nid content = \<lparr>mv_id = nid, mv_content = content\<rparr>"

definition getCurrentVersion :: "message \<Rightarrow> message_version" where
  "getCurrentVersion m =
     (case msg_versions m of [] \<Rightarrow> \<lparr>mv_id = js ''default'', mv_content = []\<rparr> | v # _ \<Rightarrow> v)"

definition updateCurrentVersionContent :: "message \<Rightarrow> jstr \<Rightarrow> message" where
  "updateCurrentVersionContent m content =
     m\<lparr>msg_versions := [(getCurrentVersion m)\<lparr>mv_content := content\<rparr>]\<rparr>"

definition createUserMessage :: "jstr \<Rightarrow> jstr \<Rightarrow> jstr \<Rightarrow> message" where
  "createUserMessage nkey nid content =
     \<lparr>msg_key = nkey, msg_from = RoleUser, msg_versions = [createMessageVersion nid content], msg_sources = None,
      msg_reasoning = None, msg_isReasoningStreaming = None, msg_isReasoningComplete = None,
      msg_isContentComplete = None, msg_status = None, msg_errorCode = None\<rparr>"

definition createLoadingAssistantMessage :: "jstr \<Rightarrow> jstr \<Rightarrow> message" where
  "createLoadingAssistantMessage nkey nid =
     \<lparr>msg_key = nkey, msg_from = RoleAssistant, msg_versions = [createMessageVersion nid []], msg_sources = None,
      msg_reasoning = None, msg_isReasoningStreaming = Some False, msg_isReasoningComplete = Some False,
      msg_isContentComplete = Some False, msg_status = Some LOADING, msg_errorCode = None\<rparr>"

definition buildMessageContent :: "jstr \<Rightarrow> jstr list \<Rightarrow> message_content" where
  "buildMessageContent t imageUrls =
     (let validImages = filter (\<lambda>url. trim url \<noteq> []) imageUrls
      in if validImages = [] then PlainText t
         else Parts (TextPart (Some t) # map (\<lambda>url. ImagePart (trim url)) validImages))"

fun first_text :: "content_part list \<Rightarrow> jstr" where
  "first_text [] = []"
| "first_text (TextPart t # ps) = (case t of None \<Rightarrow> [] | Some s \<Rightarrow> s)"
| "first_text (ImagePart _ # ps) = first_text ps"

fun getTextContent :: "message_content \<Rightarrow> jstr" where
  "getTextContent (PlainText s) = s"
| "getTextContent (Parts ps) = first_text ps"

definition formatMessageForAPI :: "message \<Rightarrow> chat_completion_message" where
  "formatMessageForAPI m = \<lparr>cm_role = msg_from m, cm_content = mv_content (getCurrentVersion m)\<rparr>"

definition isValidMessage :: "message \<Rightarrow> bool" where
  "isValidMessage m =
     (if msg_versions m = [] then False
      else \<not> (msg_from m = RoleAssistant \<and> trim (mv_content (hd (msg_versions m))) = []))"

section \<open>Think tags\<close>

definition open_tag :: jstr where "open_tag = js ''<think>''"
definition close_tag :: jstr where "close_tag = js ''</think>''"

text \<open>The loop, from the current position on: visible parts, reasoning parts, and whether a tag stays open.\<close>

function think_loop :: "jstr \<Rightarrow> jstr list \<times> jstr list \<times> bool" where
  "think_loop s =
     (case index_of s open_tag of
        None \<Rightarrow> (if s \<noteq> [] then [s] else [], [], False)
      | Some i \<Rightarrow>
          (let visible = (if 0 < i then [take i s] else []); rest = drop (i + 7) s
           in case index_of rest close_tag of
                None \<Rightarrow> (visible, [rest], True)
              | Some j \<Rightarrow>
                  (case think_loop (drop (j + 8) rest) of
                     (vs, rs, u) \<Rightarrow> (visible @ vs, take j rest # rs, u))))"
  by pat_completeness auto
termination
proof (relation "measure length")
  fix s i j and rest :: jstr
  assume "index_of s open_tag = Some i" "rest = drop (i + 7) s"
  then have "s \<noteq> []" by (auto simp: open_tag_def js_lit split: if_splits)
  then show "(drop (j + 8) rest, s) \<in> measure length" using \<open>rest = drop (i + 7) s\<close> by auto
qed simp

declare think_loop.simps [simp del]

record think_result =
  visibleContent :: jstr
  think_reasoning :: jstr
  hasUnclosedTag :: bool

definition parseThinkTags :: "jstr \<Rightarrow> think_result" where
  "parseThinkTags content =
     (if \<not> str_includes content open_tag
      then \<lparr>visibleContent = content, think_reasoning = [], hasUnclosedTag = False\<rparr>
      else (case think_loop content of
          (vs, rs, u) \<Rightarrow>
            \<lparr>visibleContent = trim (join [] vs), think_reasoning = trim (join [10, 10] rs), hasUnclosedTag = u\<rparr>))"

section \<open>Updates of the last message\<close>

definition updateLastAssistantMessage :: "message list \<Rightarrow> (message \<Rightarrow> message) \<Rightarrow> message list" where
  "updateLastAssistantMessage messages updater =
     (if messages = [] then messages
      else if msg_from (last messages) \<noteq> RoleAssistant then messages
      else messages[length messages - 1 := updater (last messages)])"

definition or_null :: "json option \<Rightarrow> json" where
  "or_null c = (case c of None \<Rightarrow> JNull | Some v \<Rightarrow> if jtruthy v then v else JNull)"

definition error_text :: "jstr \<Rightarrow> jstr" where
  "error_text errorMessage = API_REQUEST_ERROR @ js '': '' @ errorMessage"

definition set_error :: "jstr \<Rightarrow> json option \<Rightarrow> message \<Rightarrow> message" where
  "set_error errorMessage errorCode m =
     (updateCurrentVersionContent m (error_text errorMessage))
       \<lparr>msg_status := Some ERROR, msg_isReasoningStreaming := Some False, msg_errorCode := Some (or_null errorCode)\<rparr>"

definition updateAssistantMessageWithError :: "message list \<Rightarrow> jstr \<Rightarrow> json option \<Rightarrow> message list" where
  "updateAssistantMessageWithError messages errorMessage errorCode =
     updateLastAssistantMessage messages (set_error errorMessage errorCode)"

text \<open>\<open>None\<close> is a missing chunk; an empty one is falsy and adds nothing either.\<close>

definition processStreamingContent :: "message \<Rightarrow> jstr option \<Rightarrow> message" where
  "processStreamingContent m contentChunk =
     (let cur = mv_content (getCurrentVersion m);
          fullContent = (case contentChunk of None \<Rightarrow> cur | Some c \<Rightarrow> cur @ c);
          p = parseThinkTags fullContent
      in (updateCurrentVersionContent m fullContent)
           \<lparr>msg_reasoning :=
              (if think_reasoning p \<noteq> [] then Some \<lparr>mr_content = think_reasoning p, mr_duration = Fin 0 0\<rparr>
               else msg_reasoning m),
            msg_isReasoningStreaming := Some (hasUnclosedTag p)\<rparr>)"

fun first_truthy :: "jstr list \<Rightarrow> jstr" where
  "first_truthy [] = []"
| "first_truthy (x # xs) = (if x \<noteq> [] then x else first_truthy xs)"

definition opt_str :: "jstr option \<Rightarrow> jstr" where
  "opt_str x = (case x of None \<Rightarrow> [] | Some s \<Rightarrow> s)"

definition finalizeMessage :: "message \<Rightarrow> jstr option \<Rightarrow> message" where
  "finalizeMessage m apiReasoningContent =
     (let p = parseThinkTags (mv_content (getCurrentVersion m));
          finalReasoning = first_truthy
            [opt_str apiReasoningContent, opt_str (map_option mr_content (msg_reasoning m)), think_reasoning p];
          duration = (case msg_reasoning m of None \<Rightarrow> Fin 0 0 | Some r \<Rightarrow> or_zero (mr_duration r))
      in (updateCurrentVersionContent m (visibleContent p))
           \<lparr>msg_reasoning :=
              (if finalReasoning \<noteq> [] then Some \<lparr>mr_content = finalReasoning, mr_duration = duration\<rparr> else None),
            msg_isReasoningStreaming := Some False\<rparr>)"

section \<open>Repair on load\<close>

definition stuck :: "message \<Rightarrow> bool" where
  "stuck m \<longleftrightarrow> msg_from m = RoleAssistant \<and> (msg_status m = Some LOADING \<or> msg_status m = Some STREAMING)"

text \<open>The loop from the end: the index of the last stuck message.\<close>

fun last_stuck :: "message list \<Rightarrow> nat \<Rightarrow> nat option" where
  "last_stuck ms 0 = None"
| "last_stuck ms (Suc i) = (if stuck (ms ! i) then Some i else last_stuck ms i)"

definition sanitized_message :: "message \<Rightarrow> message" where
  "sanitized_message m =
     (let finalized = finalizeMessage m None;
          hasContent = (trim (mv_content (getCurrentVersion finalized)) \<noteq> []);
          hasReasoning = (trim (opt_str (map_option mr_content (msg_reasoning finalized))) \<noteq> [])
      in if hasContent \<or> hasReasoning
         then finalized\<lparr>msg_status := Some COMPLETE, msg_isReasoningStreaming := Some False\<rparr>
         else (updateCurrentVersionContent finalized (error_text INTERRUPTED))
                \<lparr>msg_status := Some ERROR, msg_isReasoningStreaming := Some False\<rparr>)"

definition sanitizeMessagesOnLoad :: "message list \<Rightarrow> message list" where
  "sanitizeMessagesOnLoad ms =
     (case last_stuck ms (length ms) of
        None \<Rightarrow> ms
      | Some i \<Rightarrow> ms[i := sanitized_message (ms ! i)])"

section \<open>Request payload\<close>

text \<open>Configuration and switches are objects by key; a payload is the JSON object that is sent.\<close>

definition role_str :: "message_role \<Rightarrow> jstr" where
  "role_str r = (case r of RoleUser \<Rightarrow> js ''user'' | RoleAssistant \<Rightarrow> js ''assistant'' | RoleSystem \<Rightarrow> js ''system'')"

definition api_message_json :: "chat_completion_message \<Rightarrow> json" where
  "api_message_json m = JObj [(js ''role'', JStr (role_str (cm_role m))), (js ''content'', JStr (cm_content m))]"

definition parameterKeys :: "jstr list" where
  "parameterKeys = [js ''temperature'', js ''top_p'', js ''max_tokens'', js ''frequency_penalty'',
     js ''presence_penalty'', js ''seed'']"

definition switched_on :: "json jobj \<Rightarrow> jstr \<Rightarrow> bool" where
  "switched_on parameterEnabled k = (case obj_get parameterEnabled k of None \<Rightarrow> False | Some v \<Rightarrow> jtruthy v)"

definition add_parameter :: "json jobj \<Rightarrow> json jobj \<Rightarrow> jstr \<Rightarrow> json jobj \<Rightarrow> json jobj" where
  "add_parameter config parameterEnabled k payload =
     (if switched_on parameterEnabled k then
        (case obj_get config k of
           None \<Rightarrow> payload
         | Some v \<Rightarrow> if v \<noteq> JNull then obj_set k v payload else payload)
      else payload)"

text \<open>A field of the configuration; the object literal leaves an absent one undefined, and it is not sent.\<close>

definition config_field :: "json jobj \<Rightarrow> string \<Rightarrow> json jobj" where
  "config_field config k = (case obj_get config (js k) of None \<Rightarrow> [] | Some v \<Rightarrow> [(js k, v)])"

definition buildChatCompletionPayload :: "message list \<Rightarrow> json jobj \<Rightarrow> json jobj \<Rightarrow> json jobj" where
  "buildChatCompletionPayload messages config parameterEnabled =
     fold (add_parameter config parameterEnabled) parameterKeys
       (config_field config ''model'' @ config_field config ''group'' @
        [(js ''messages'', JArr (map (\<lambda>m. api_message_json (formatMessageForAPI m)) (filter isValidMessage messages)))] @
        config_field config ''stream'')"

section \<open>Streaming\<close>

text \<open>The content chunks of an answer, one update after the other.\<close>

definition stream_content :: "jstr list \<Rightarrow> message \<Rightarrow> message" where
  "stream_content chunks m = fold (\<lambda>c m. processStreamingContent m (Some c)) chunks m"

abbreviation content_of :: "message \<Rightarrow> jstr" where
  "content_of m \<equiv> mv_content (getCurrentVersion m)"

section \<open>Think tags: reading back what was written\<close>

text \<open>A tag whose first character occurs only there is found right after a text that does not include it.\<close>

lemma index_of_tag:
  assumes "tag = x # w" "x \<notin> set w" "\<not> str_includes v tag"
  shows "index_of (v @ tag @ t) tag = Some (length v)"
  using assms(3)
proof (induction v)
  case Nil
  then show ?case using assms(1) by simp
next
  case (Cons c v)
  have "\<not> starts_with ((c # v) @ tag @ t) tag"
  proof
    assume "starts_with ((c # v) @ tag @ t) tag"
    then obtain u where u: "(c # v) @ tag @ t = tag @ u" by (auto simp: starts_with_iff)
    show False
    proof (cases "length tag \<le> length (c # v)")
      case True
      then obtain r where "c # v = tag @ r" using u by (metis append_eq_append_conv_if append_take_drop_id)
      then show False using Cons.prems unfolding str_includes_iff by (metis append_Nil)
    next
      case False
      then obtain r where r: "tag = (c # v) @ r" "r \<noteq> []"
        using u by (metis append_eq_append_conv_if append_take_drop_id append_Nil2 le_refl nat_le_linear)
      then have "r @ u = tag @ t" using u by simp
      then have "hd r = x" using r(2) assms(1) by (cases r) auto
      moreover have "hd r \<in> set w" using r assms(1) by (cases r) auto
      ultimately show False using assms(2) by simp
    qed
  qed
  moreover have "\<not> str_includes v tag"
    using Cons.prems unfolding str_includes_iff by (metis append_Cons)
  ultimately show ?case using Cons.IH by simp
qed

lemma open_tag_shape: "open_tag = 60 # js ''think>''" "60 \<notin> set (js ''think>'')" "length open_tag = 7"
  by (simp_all add: open_tag_def js_lit)

lemma close_tag_shape: "close_tag = 60 # js ''/think>''" "60 \<notin> set (js ''/think>'')" "length close_tag = 8"
  by (simp_all add: close_tag_def js_lit)

lemmas index_open = index_of_tag [OF open_tag_shape(1,2)]
lemmas index_close = index_of_tag [OF close_tag_shape(1,2)]

definition segment :: "jstr \<times> jstr \<Rightarrow> jstr" where
  "segment vr = fst vr @ open_tag @ snd vr @ close_tag"

definition segment_ok :: "jstr \<times> jstr \<Rightarrow> bool" where
  "segment_ok vr \<longleftrightarrow> \<not> str_includes (fst vr) open_tag \<and> \<not> str_includes (snd vr) close_tag"

text \<open>Segments of visible text and closed reasoning, then visible text, then possibly reasoning that is not closed.\<close>

definition think_text :: "(jstr \<times> jstr) list \<Rightarrow> jstr \<Rightarrow> jstr option \<Rightarrow> jstr" where
  "think_text segs v pending =
     concat (map segment segs) @ v @ (case pending of None \<Rightarrow> [] | Some r \<Rightarrow> open_tag @ r)"

definition pieces :: "jstr \<Rightarrow> jstr list" where
  "pieces v = (if v \<noteq> [] then [v] else [])"

lemma concat_pieces: "join [] (concat (map pieces vs)) = concat vs"
proof -
  have "join [] xs = concat xs" for xs :: "jstr list" by (induction xs rule: induct_list012) auto
  then show ?thesis by (induction vs) (auto simp: pieces_def)
qed

lemma think_loop_text:
  assumes "list_all segment_ok segs" "\<not> str_includes v open_tag"
    and "case pending of None \<Rightarrow> True | Some r \<Rightarrow> \<not> str_includes r close_tag"
  shows "think_loop (think_text segs v pending) =
     (concat (map pieces (map fst segs @ [v])),
      map snd segs @ (case pending of None \<Rightarrow> [] | Some r \<Rightarrow> [r]), pending \<noteq> None)"
  using assms(1)
proof (induction segs)
  case Nil
  show ?case
  proof (cases pending)
    case None
    then have t: "think_text [] v pending = v" by (simp add: think_text_def)
    have "index_of v open_tag = None" using assms(2) by (simp add: str_includes_def)
    then show ?thesis using None unfolding t by (subst think_loop.simps) (simp add: pieces_def)
  next
    case (Some r)
    have "index_of (v @ open_tag @ r) open_tag = Some (length v)" using assms(2) by (rule index_open)
    moreover have "index_of r close_tag = None" using assms(3) Some by (simp add: str_includes_def)
    ultimately show ?thesis
      using Some open_tag_shape(3)
      by (simp add: think_loop.simps [of "v @ open_tag @ r"] think_text_def pieces_def Let_def)
  qed
next
  case (Cons s segs)
  let ?t = "think_text segs v pending"
  have t: "think_text (s # segs) v pending = fst s @ open_tag @ snd s @ close_tag @ ?t"
    by (simp add: think_text_def segment_def)
  have 1: "index_of (fst s @ open_tag @ snd s @ close_tag @ ?t) open_tag = Some (length (fst s))"
    using Cons.prems by (intro index_open) (simp add: segment_ok_def)
  have 2: "index_of (snd s @ close_tag @ ?t) close_tag = Some (length (snd s))"
    using Cons.prems by (intro index_close) (simp add: segment_ok_def)
  show ?case
    using Cons 1 2 open_tag_shape(3) close_tag_shape(3) unfolding t
    by (subst think_loop.simps) (simp add: pieces_def [of "fst s"] Let_def)
qed

text \<open>C24: The think-tag parser recovers what a model wrote: the visible texts joined, the reasoning blocks joined by a blank line,
  both trimmed, and whether the last block is still open; text without a tag is left alone.\<close>

theorem think_tags_roundtrip:
  assumes "list_all segment_ok segs" "\<not> str_includes v open_tag"
    and "case pending of None \<Rightarrow> True | Some r \<Rightarrow> \<not> str_includes r close_tag"
  shows "parseThinkTags (think_text segs v pending) =
     (if segs = [] \<and> pending = None then \<lparr>visibleContent = v, think_reasoning = [], hasUnclosedTag = False\<rparr>
      else \<lparr>visibleContent = trim (concat (map fst segs) @ v),
            think_reasoning = trim (join [10, 10] (map snd segs @ (case pending of None \<Rightarrow> [] | Some r \<Rightarrow> [r]))),
            hasUnclosedTag = (pending \<noteq> None)\<rparr>)"
proof (cases "segs = [] \<and> pending = None")
  case True
  then show ?thesis using assms(2) by (simp add: parseThinkTags_def think_text_def)
next
  case False
  have "\<exists>a b. think_text segs v pending = a @ open_tag @ b"
  proof (cases segs)
    case Nil
    then show ?thesis using False by (cases pending) (simp_all add: think_text_def, blast)
  next
    case (Cons s ss)
    then have "think_text segs v pending = fst s @ open_tag @ snd s @ close_tag @ think_text ss v pending"
      by (simp add: think_text_def segment_def)
    then show ?thesis by blast
  qed
  then have "str_includes (think_text segs v pending) open_tag" by (simp add: str_includes_iff)
  then show ?thesis
    using False think_loop_text [OF assms] concat_pieces [of "map fst segs @ [v]"]
    by (auto simp: parseThinkTags_def)
qed

theorem think_tags_roundtrip_witness:
  "parseThinkTags (think_text [(js ''Hi '', js ''plan'')] (js ''there'') (Some (js ''more''))) =
     \<lparr>visibleContent = js ''Hi there'', think_reasoning = js ''plan'' @ [10, 10] @ js ''more'', hasUnclosedTag = True\<rparr>"
proof -
  have 1: "list_all segment_ok [(js ''Hi '', js ''plan'')]" by code_simp
  have 2: "\<not> str_includes (js ''there'') open_tag" by code_simp
  have 3: "case Some (js ''more'') of None \<Rightarrow> True | Some r \<Rightarrow> \<not> str_includes r close_tag" by code_simp
  have 4: "trim (js ''Hi '' @ js ''there'') = js ''Hi there''"
    "trim (join [10, 10] [js ''plan'', js ''more'']) = js ''plan'' @ [10, 10] @ js ''more''" by code_simp+
  show ?thesis using think_tags_roundtrip [OF 1 2 3] 4 by simp
qed

section \<open>Streaming in chunks\<close>

lemma getCurrentVersion_update [simp]:
  "getCurrentVersion (updateCurrentVersionContent m c) = (getCurrentVersion m)\<lparr>mv_content := c\<rparr>"
  by (simp add: updateCurrentVersionContent_def getCurrentVersion_def)

lemma version_of_fields [simp]:
  "getCurrentVersion (m\<lparr>msg_reasoning := r\<rparr>) = getCurrentVersion m"
  "getCurrentVersion (m\<lparr>msg_isReasoningStreaming := b\<rparr>) = getCurrentVersion m"
  "getCurrentVersion (m\<lparr>msg_status := st\<rparr>) = getCurrentVersion m"
  "getCurrentVersion (m\<lparr>msg_errorCode := e\<rparr>) = getCurrentVersion m"
  by (simp_all add: getCurrentVersion_def)

lemma process_version:
  "getCurrentVersion (processStreamingContent m (Some c)) = (getCurrentVersion m)\<lparr>mv_content := content_of m @ c\<rparr>"
  by (simp add: processStreamingContent_def Let_def)

lemma stream_version:
  "getCurrentVersion (stream_content cs m) = (getCurrentVersion m)\<lparr>mv_content := content_of m @ concat cs\<rparr>"
  by (induction cs arbitrary: m) (simp_all add: stream_content_def process_version)

lemma finalize_version:
  "getCurrentVersion (finalizeMessage m r) = (getCurrentVersion m)\<lparr>mv_content := visibleContent (parseThinkTags (content_of m))\<rparr>"
  by (simp add: finalizeMessage_def Let_def)

text \<open>Two updates in a row are one update with both chunks, when the whole text has reasoning.\<close>

lemma process_twice:
  assumes "think_reasoning (parseThinkTags (content_of m @ a @ b)) \<noteq> []"
  shows "processStreamingContent (processStreamingContent m (Some a)) (Some b) = processStreamingContent m (Some (a @ b))"
  using assms unfolding processStreamingContent_def [of "processStreamingContent m (Some a)"] process_version
  by (simp add: processStreamingContent_def updateCurrentVersionContent_def Let_def getCurrentVersion_def)

lemma stream_whole:
  assumes "think_reasoning (parseThinkTags (content_of m @ concat cs)) \<noteq> []" "cs \<noteq> []"
  shows "stream_content cs m = processStreamingContent m (Some (concat cs))"
  using assms
proof (induction cs arbitrary: m rule: induct_list012)
  case (3 a b cs)
  have "stream_content (a # b # cs) m = stream_content (b # cs) (processStreamingContent m (Some a))"
    by (simp add: stream_content_def)
  also have "\<dots> = processStreamingContent (processStreamingContent m (Some a)) (Some (concat (b # cs)))"
    using "3.prems" by (intro "3.IH"(2)) (simp_all add: process_version)
  also have "\<dots> = processStreamingContent m (Some (a @ concat (b # cs)))"
    using "3.prems" by (intro process_twice) simp
  finally show ?case by simp
qed (simp_all add: stream_content_def)

text \<open>C18: How the server cuts an answer into chunks does not matter: if the answer has reasoning in think tags, streaming it chunk by
  chunk and finalising gives the same message as receiving it in one piece.\<close>

theorem streaming_chunks_agree:
  assumes "think_reasoning (parseThinkTags (content_of m @ concat cs)) \<noteq> []" "cs \<noteq> []"
  shows "finalizeMessage (stream_content cs m) r = finalizeMessage (processStreamingContent m (Some (concat cs))) r"
  using stream_whole [OF assms] by simp

theorem streaming_chunks_agree_witness:
  "finalizeMessage (stream_content [js ''<think>a'', js ''b</th'', js ''ink>c''] (createLoadingAssistantMessage [1] [2])) None =
   finalizeMessage (processStreamingContent (createLoadingAssistantMessage [1] [2]) (Some (js ''<think>ab</think>c''))) None"
proof -
  have 1: "think_reasoning (parseThinkTags (content_of (createLoadingAssistantMessage [1] [2]) @
      concat [js ''<think>a'', js ''b</th'', js ''ink>c''])) \<noteq> []" by code_simp
  have 2: "concat [js ''<think>a'', js ''b</th'', js ''ink>c''] = js ''<think>ab</think>c''" by code_simp
  show ?thesis using streaming_chunks_agree [OF 1, of None] unfolding 2 by simp
qed

text \<open>The visible text of a finalised answer never depends on the chunks, whatever reasoning it has.\<close>

lemma streaming_visible_text:
  "content_of (finalizeMessage (stream_content cs m) r) = visibleContent (parseThinkTags (content_of m @ concat cs))"
  by (simp add: finalize_version stream_version)

text \<open>An answer that begins with an empty think block keeps a piece of the closing tag as its reasoning when a chunk ends inside
  that tag; in one piece the same answer has no reasoning.\<close>

lemma empty_think_block_split:
  "msg_reasoning (finalizeMessage (stream_content [js ''<think></thi'', js ''nk>hi''] (createLoadingAssistantMessage [1] [2])) None) =
     Some \<lparr>mr_content = js ''</thi'', mr_duration = Fin 0 0\<rparr> \<and>
   msg_reasoning (finalizeMessage (stream_content [js ''<think></think>hi''] (createLoadingAssistantMessage [1] [2])) None) = None"
  by code_simp

section \<open>Repair on load: lemmas\<close>

lemma last_stuck_None: "last_stuck ms n = None \<longleftrightarrow> (\<forall>i<n. \<not> stuck (ms ! i))"
  by (induction n) (auto simp: less_Suc_eq)

lemma last_stuck_Some: "last_stuck ms n = Some i \<Longrightarrow> i < n \<and> stuck (ms ! i)"
  by (induction n) (auto split: if_splits)

lemma sanitized_not_stuck: "\<not> stuck (sanitized_message m)"
  by (auto simp: sanitized_message_def stuck_def Let_def)

lemma stuck_count_update:
  assumes "i < length ms" "stuck (ms ! i)" "\<not> stuck x"
  shows "Suc (length (filter stuck (ms[i := x]))) = length (filter stuck ms)"
proof -
  have "length (filter stuck (ys @ y # zs)) = length (filter stuck ys) + (if stuck y then 1 else 0) + length (filter stuck zs)"
    for y ys zs by simp
  from this [of "take i ms" "ms ! i" "drop (Suc i) ms"] this [of "take i ms" x "drop (Suc i) ms"]
  show ?thesis
    unfolding upd_conv_take_nth_drop [OF assms(1)] id_take_nth_drop [OF assms(1), symmetric] using assms(2,3) by simp
qed

lemma sanitize_count: "length (filter stuck (sanitizeMessagesOnLoad ms)) = length (filter stuck ms) - 1"
proof (cases "last_stuck ms (length ms)")
  case None
  then have "filter stuck ms = []" by (auto simp: last_stuck_None filter_empty_conv in_set_conv_nth)
  then show ?thesis using None by (simp add: sanitizeMessagesOnLoad_def)
next
  case (Some i)
  then show ?thesis
    using stuck_count_update [of i ms "sanitized_message (ms ! i)"] last_stuck_Some [OF Some]
    by (simp add: sanitizeMessagesOnLoad_def sanitized_not_stuck)
qed

section \<open>Request payload: lemmas\<close>

definition parameter_value :: "json jobj \<Rightarrow> json jobj \<Rightarrow> jstr \<Rightarrow> json option" where
  "parameter_value config parameterEnabled k =
     (if switched_on parameterEnabled k \<and> obj_get config k \<noteq> Some JNull then obj_get config k else None)"

lemma add_parameter_put:
  "add_parameter config pe k ob =
     (case parameter_value config pe k of None \<Rightarrow> ob | Some v \<Rightarrow> obj_set k v ob)"
  by (auto simp: add_parameter_def parameter_value_def split: option.splits)

lemma add_parameter_distinct: "distinct (map fst ob) \<Longrightarrow> distinct (map fst (add_parameter config pe k ob))"
  unfolding add_parameter_put using jo.inv_put by (auto split: option.split)

lemma get_add_parameter:
  assumes "distinct (map fst ob)"
  shows "obj_get (add_parameter config pe k ob) k' =
    (if k' = k \<and> parameter_value config pe k \<noteq> None then parameter_value config pe k else obj_get ob k')"
  unfolding add_parameter_put using jo.get_put [OF assms] by (auto split: option.split)

lemma get_add_parameters:
  "distinct (map fst ob) \<Longrightarrow>
   obj_get (fold (add_parameter config pe) ks ob) k =
     (if k \<in> set ks \<and> parameter_value config pe k \<noteq> None then parameter_value config pe k else obj_get ob k)"
  by (induction ks arbitrary: ob) (auto simp: get_add_parameter add_parameter_distinct)

section \<open>Properties\<close>


text \<open>C26: The request carries a sampling parameter exactly when its switch is on and the configuration has a value other than null
  for it, always with that value; model, group and stream are those of the configuration, and nothing else is sent but the messages.\<close>

theorem payload_fields:
  "obj_get (buildChatCompletionPayload ms config pe) k =
     (if k \<in> set parameterKeys then parameter_value config pe k
      else if k = js ''messages''
        then Some (JArr (map (\<lambda>m. api_message_json (formatMessageForAPI m)) (filter isValidMessage ms)))
      else if k \<in> {js ''model'', js ''group'', js ''stream''} then obj_get config k
      else None)"
proof -
  let ?ob = "config_field config ''model'' @ config_field config ''group'' @
    [(js ''messages'', JArr (map (\<lambda>m. api_message_json (formatMessageForAPI m)) (filter isValidMessage ms)))] @
    config_field config ''stream''"
  have d: "distinct (map fst ?ob)"
    by (auto simp: config_field_def split: option.split)
  have g: "obj_get ?ob k =
      (if k = js ''messages''
        then Some (JArr (map (\<lambda>m. api_message_json (formatMessageForAPI m)) (filter isValidMessage ms)))
       else if k \<in> {js ''model'', js ''group'', js ''stream''} then obj_get config k else None)"
    by (auto simp: config_field_def obj_get_def split: option.split)
  have n: "k \<in> set parameterKeys \<Longrightarrow> obj_get ?ob k = None"
    unfolding g by (auto simp: parameterKeys_def)
  show ?thesis
    unfolding buildChatCompletionPayload_def get_add_parameters [OF d] using n g by auto
qed

end
