(* ===== verification/Playground_Stream.thy ===== *)
theory Playground_Stream
  imports Playground_Messages
begin

text \<open>
  One playground session (features/playground/index.tsx with hooks/use-chat-handler.ts and use-stream-request.ts):
  sending, editing, regenerating and deleting messages, the server-sent events of a streamed answer and the reply of
  a plain one.  An \<open>SSE\<close> object of the \<open>sse.js\<close> package is a number; the package decides which events a
  started source delivers and when, and delivers none after \<open>close\<close>, so events are inputs of the model, and
  \<open>ss_live\<close> lists the sources that were started and not closed.  The lemmas show that a message is pending exactly
  while a source is recorded, what a whole streamed answer leaves behind, and what two answers at once do.
\<close>

section \<open>Session\<close>

record session =
  ss_messages :: "message list"
  ss_config :: "json jobj"
  ss_parameterEnabled :: "json jobj"
  ss_editing :: "jstr option"
  ss_source :: "nat option"
  ss_complete :: bool
  ss_created :: nat
  ss_live :: "nat list"
  ss_requests :: "json jobj list"

datatype update_type = Reasoning | Content

definition onMessageUpdate :: "(message list \<Rightarrow> message list) \<Rightarrow> session \<Rightarrow> session" where
  "onMessageUpdate updater st = st\<lparr>ss_messages := updater (ss_messages st)\<rparr>"

definition isStreaming :: "session \<Rightarrow> bool" where
  "isStreaming st \<longleftrightarrow> ss_source st \<noteq> None"

section \<open>Handlers of use-chat-handler.ts\<close>

definition stream_update :: "update_type \<Rightarrow> jstr \<Rightarrow> message \<Rightarrow> message" where
  "stream_update type chunk m =
     (if msg_status m = Some ERROR then m
      else if type = Reasoning then
        m\<lparr>msg_reasoning := Some \<lparr>mr_content = opt_str (map_option mr_content (msg_reasoning m)) @ chunk, mr_duration = Fin 0 0\<rparr>,
          msg_isReasoningStreaming := Some True, msg_status := Some STREAMING\<rparr>
      else (processStreamingContent m (Some chunk))\<lparr>msg_status := Some STREAMING\<rparr>)"

definition handleStreamUpdate :: "update_type \<Rightarrow> jstr \<Rightarrow> session \<Rightarrow> session" where
  "handleStreamUpdate type chunk =
     onMessageUpdate (\<lambda>prev. updateLastAssistantMessage prev (stream_update type chunk))"

definition complete_message :: "message \<Rightarrow> message" where
  "complete_message m =
     (if msg_status m = Some COMPLETE \<or> msg_status m = Some ERROR then m
      else (finalizeMessage m None)\<lparr>msg_status := Some COMPLETE\<rparr>)"

definition handleStreamComplete :: "session \<Rightarrow> session" where
  "handleStreamComplete = onMessageUpdate (\<lambda>prev. updateLastAssistantMessage prev complete_message)"

definition handleStreamError :: "jstr \<Rightarrow> json option \<Rightarrow> session \<Rightarrow> session" where
  "handleStreamError error errorCode =
     onMessageUpdate (\<lambda>prev. updateAssistantMessageWithError prev error errorCode)"

section \<open>use-stream-request.ts\<close>

definition closeSource :: "nat \<Rightarrow> session \<Rightarrow> session" where
  "closeSource src st = st\<lparr>ss_live := removeAll src (ss_live st), ss_source := None\<rparr>"

definition handleError :: "nat \<Rightarrow> jstr \<Rightarrow> json option \<Rightarrow> session \<Rightarrow> session" where
  "handleError src errorMessage errorCode st =
     (if \<not> ss_complete st then closeSource src (handleStreamError errorMessage errorCode st) else st)"

text \<open>\<open>v?.k\<close>, \<open>v?.[0]\<close> and the value that passes a truth test; \<open>None\<close> is undefined.\<close>

definition opt_field :: "json option \<Rightarrow> jstr \<Rightarrow> json option" where
  "opt_field v k =
     (case v of None \<Rightarrow> None | Some w \<Rightarrow> (case jget w k of Inl _ \<Rightarrow> None | Inr r \<Rightarrow> r))"

fun opt_index0 :: "json option \<Rightarrow> json option" where
  "opt_index0 (Some (JArr (x # _))) = Some x"
| "opt_index0 (Some (JStr (c # _))) = Some (JStr [c])"
| "opt_index0 (Some (JObj ob)) = obj_get ob (js ''0'')"
| "opt_index0 _ = None"

definition if_truthy :: "json option \<Rightarrow> json option" where
  "if_truthy v = (case v of None \<Rightarrow> None | Some w \<Rightarrow> if jtruthy w then Some w else None)"

text \<open>The delta of a chunk; a text that is no JSON, or null, throws.\<close>

definition chunk_delta :: "jstr \<Rightarrow> js_error + json option" where
  "chunk_delta data =
     (case JSON_parse data of
        None \<Rightarrow> Inl SyntaxError
      | Some chunk \<Rightarrow>
          (case jget chunk (js ''choices'') of
             Inl e \<Rightarrow> Inl e
           | Inr choices \<Rightarrow> Inr (if_truthy (opt_field (opt_index0 choices) (js ''delta'')))))"

definition delta_update :: "update_type \<Rightarrow> json option \<Rightarrow> session \<Rightarrow> session" where
  "delta_update type v st = (case if_truthy v of None \<Rightarrow> st | Some w \<Rightarrow> handleStreamUpdate type (json_str w) st)"

definition on_message :: "nat \<Rightarrow> jstr \<Rightarrow> session \<Rightarrow> session" where
  "on_message src data st =
     (if data = js ''[DONE]'' then handleStreamComplete (closeSource src (st\<lparr>ss_complete := True\<rparr>))
      else (case chunk_delta data of
          Inl _ \<Rightarrow> handleError src PARSE_ERROR None st
        | Inr None \<Rightarrow> st
        | Inr (Some delta) \<Rightarrow>
            delta_update Content (opt_field (Some delta) (js ''content''))
              (delta_update Reasoning (opt_field (Some delta) (js ''reasoning_content'')) st)))"

definition parsed_error :: "jstr \<Rightarrow> json \<Rightarrow> jstr \<times> json option" where
  "parsed_error data parsed =
     (case if_truthy (opt_field (Some parsed) (js ''error'')) of
        None \<Rightarrow> (data, None)
      | Some e \<Rightarrow>
          (case if_truthy (opt_field (Some e) (js ''message'')) of None \<Rightarrow> data | Some m \<Rightarrow> json_str m,
           if_truthy (opt_field (Some e) (js ''code''))))"

definition error_info :: "jstr option \<Rightarrow> jstr \<times> json option" where
  "error_info data =
     (if opt_str data = [] then (API_REQUEST_ERROR, None)
      else (case JSON_parse (opt_str data) of
          None \<Rightarrow> (opt_str data, None)
        | Some parsed \<Rightarrow> parsed_error (opt_str data) parsed))"

definition on_error :: "nat \<Rightarrow> int \<Rightarrow> jstr option \<Rightarrow> session \<Rightarrow> session" where
  "on_error src readyState data st =
     (if readyState \<noteq> 2 then handleError src (fst (error_info data)) (snd (error_info data)) st else st)"

definition on_readystatechange :: "nat \<Rightarrow> int option \<Rightarrow> int option \<Rightarrow> session \<Rightarrow> session" where
  "on_readystatechange src readyState status st =
     (case (readyState, status) of
        (Some r, Some code) \<Rightarrow>
          if 2 \<le> r \<and> code \<noteq> 200
          then handleError src (js ''HTTP '' @ int_str code @ js '': '' @ CONNECTION_CLOSED) None st else st
      | _ \<Rightarrow> st)"

text \<open>\<open>started\<close> tells whether \<open>source.stream()\<close> returned; if it throws, the source stays unrecorded.\<close>

definition sendStreamRequest :: "json jobj \<Rightarrow> bool \<Rightarrow> session \<Rightarrow> session" where
  "sendStreamRequest payload started st =
     (let src = ss_created st;
          st1 = st\<lparr>ss_created := src + 1, ss_requests := ss_requests st @ [payload], ss_source := Some src, ss_complete := False\<rparr>
      in if started then st1\<lparr>ss_live := ss_live st1 @ [src]\<rparr>
         else (handleStreamError STREAM_START_ERROR None st1)\<lparr>ss_source := None\<rparr>)"

definition stopStream :: "session \<Rightarrow> session" where
  "stopStream st = (case ss_source st of None \<Rightarrow> st | Some src \<Rightarrow> closeSource src st)"

section \<open>Sending\<close>

definition sendStreamingChat :: "message list \<Rightarrow> bool \<Rightarrow> session \<Rightarrow> session" where
  "sendStreamingChat messages started st =
     sendStreamRequest (buildChatCompletionPayload messages (ss_config st) (ss_parameterEnabled st)) started st"

text \<open>The plain request is posted here; its reply arrives as \<open>chat_result\<close>.\<close>

definition sendNonStreamingChat :: "message list \<Rightarrow> session \<Rightarrow> session" where
  "sendNonStreamingChat messages st =
     st\<lparr>ss_requests := ss_requests st @ [buildChatCompletionPayload messages (ss_config st) (ss_parameterEnabled st)]\<rparr>"

definition sendChat :: "message list \<Rightarrow> bool \<Rightarrow> session \<Rightarrow> session" where
  "sendChat messages started st =
     (if switched_on (ss_config st) (js ''stream'') then sendStreamingChat messages started st
      else sendNonStreamingChat messages st)"

record choice_message =
  ch_content :: "jstr option"
  ch_reasoning :: "jstr option"

text \<open>A reply with its choices (a choice may lack its message), or a failure with the texts the handler looks at.\<close>

datatype chat_result =
    Response "choice_message option list option"
  | Failure "jstr option" "jstr option" "json option"

text \<open>\<open>{ ...m, versions: [{ ...m.versions[0], content }] }\<close>; a message without versions gets one without id.\<close>

definition replace_version :: "message \<Rightarrow> jstr \<Rightarrow> message" where
  "replace_version m content =
     m\<lparr>msg_versions := [(case msg_versions m of [] \<Rightarrow> \<lparr>mv_id = [], mv_content = content\<rparr>
                                            | v # _ \<Rightarrow> v\<lparr>mv_content := content\<rparr>)]\<rparr>"

definition reply_message :: "choice_message option \<Rightarrow> message \<Rightarrow> message" where
  "reply_message choice m =
     (finalizeMessage
        (replace_version m (opt_str (case choice of None \<Rightarrow> None | Some c \<Rightarrow> ch_content c)))
        (case choice of None \<Rightarrow> None | Some c \<Rightarrow> ch_reasoning c))
      \<lparr>msg_status := Some COMPLETE\<rparr>"

fun nonStreamingReply :: "chat_result \<Rightarrow> session \<Rightarrow> session" where
  "nonStreamingReply (Response (Some (choice # _))) st =
     onMessageUpdate (\<lambda>prev. updateLastAssistantMessage prev (reply_message choice)) st"
| "nonStreamingReply (Response _) st = st"
| "nonStreamingReply (Failure dataMessage message code) st =
     handleStreamError (first_truthy [opt_str dataMessage, opt_str message, API_REQUEST_ERROR]) (if_truthy code) st"

definition stop_message :: "message \<Rightarrow> message" where
  "stop_message m =
     (if msg_status m = Some LOADING \<or> msg_status m = Some STREAMING
      then (finalizeMessage m None)\<lparr>msg_status := Some COMPLETE\<rparr> else m)"

definition stopGeneration :: "session \<Rightarrow> session" where
  "stopGeneration st = onMessageUpdate (\<lambda>prev. updateLastAssistantMessage prev stop_message) (stopStream st)"

section \<open>Handlers of index.tsx\<close>

text \<open>Fresh identifiers: key and version of the user message, then of the assistant message.\<close>

record fresh_ids =
  id_ukey :: jstr
  id_uver :: jstr
  id_akey :: jstr
  id_aver :: jstr

definition updateMessages :: "message list \<Rightarrow> session \<Rightarrow> session" where
  "updateMessages ms = onMessageUpdate (\<lambda>_. ms)"

definition send_messages :: "message list \<Rightarrow> bool \<Rightarrow> session \<Rightarrow> session" where
  "send_messages ms started st = sendChat ms started (updateMessages ms st)"

definition handleSendMessage :: "fresh_ids \<Rightarrow> jstr \<Rightarrow> bool \<Rightarrow> session \<Rightarrow> session" where
  "handleSendMessage n t started st =
     send_messages (ss_messages st @ [createUserMessage (id_ukey n) (id_uver n) t,
       createLoadingAssistantMessage (id_akey n) (id_aver n)]) started st"

fun find_key :: "jstr \<Rightarrow> message list \<Rightarrow> nat option" where
  "find_key k [] = None"
| "find_key k (m # ms) = (if msg_key m = k then Some 0 else map_option Suc (find_key k ms))"

definition handleRegenerateMessage :: "fresh_ids \<Rightarrow> jstr \<Rightarrow> bool \<Rightarrow> session \<Rightarrow> session" where
  "handleRegenerateMessage n k started st =
     (case find_key k (ss_messages st) of
        None \<Rightarrow> st
      | Some i \<Rightarrow> send_messages (take i (ss_messages st) @ [createLoadingAssistantMessage (id_akey n) (id_aver n)]) started st)"

definition handleEditMessage :: "jstr \<Rightarrow> session \<Rightarrow> session" where
  "handleEditMessage k st = st\<lparr>ss_editing := Some k\<rparr>"

definition handleEditOpenChange :: "bool \<Rightarrow> session \<Rightarrow> session" where
  "handleEditOpenChange opened st = (if \<not> opened then st\<lparr>ss_editing := None\<rparr> else st)"

definition edit_all :: "jstr \<Rightarrow> jstr \<Rightarrow> message list \<Rightarrow> message list" where
  "edit_all k content = map (\<lambda>m. if msg_key m = k then replace_version m content else m)"

definition apply_edit_at :: "fresh_ids \<Rightarrow> jstr \<Rightarrow> jstr \<Rightarrow> bool \<Rightarrow> bool \<Rightarrow> nat \<Rightarrow> session \<Rightarrow> session" where
  "apply_edit_at n k content submit started i st =
     (let updated = edit_all k content (ss_messages st); st1 = st\<lparr>ss_editing := None\<rparr>
      in if \<not> submit \<or> msg_from (updated ! i) \<noteq> RoleUser then updateMessages updated st1
         else send_messages (take (i + 1) updated @ [createLoadingAssistantMessage (id_akey n) (id_aver n)]) started st1)"

definition applyEdit :: "fresh_ids \<Rightarrow> jstr \<Rightarrow> bool \<Rightarrow> bool \<Rightarrow> session \<Rightarrow> session" where
  "applyEdit n content submit started st =
     (if opt_str (ss_editing st) = [] then st
      else (case find_key (opt_str (ss_editing st)) (ss_messages st) of
          None \<Rightarrow> st
        | Some i \<Rightarrow> apply_edit_at n (opt_str (ss_editing st)) content submit started i st))"

definition handleDeleteMessage :: "jstr \<Rightarrow> session \<Rightarrow> session" where
  "handleDeleteMessage k st = updateMessages (filter (\<lambda>m. msg_key m \<noteq> k) (ss_messages st)) st"

definition updateConfig :: "jstr \<Rightarrow> json \<Rightarrow> session \<Rightarrow> session" where
  "updateConfig k v st = st\<lparr>ss_config := obj_set k v (ss_config st)\<rparr>"

section \<open>Initial state\<close>

definition DEFAULT_CONFIG :: "json jobj" where
  "DEFAULT_CONFIG =
     [(js ''model'', JStr (js ''gpt-4o'')), (js ''group'', JStr (js ''auto'')), (js ''temperature'', JNum (dec_double 7 (-1))),
      (js ''top_p'', JNum (num_of_nat 1)), (js ''max_tokens'', JNum (num_of_nat 4096)),
      (js ''frequency_penalty'', JNum (num_of_nat 0)), (js ''presence_penalty'', JNum (num_of_nat 0)),
      (js ''seed'', JNull), (js ''stream'', JBool True)]"

definition DEFAULT_PARAMETER_ENABLED :: "json jobj" where
  "DEFAULT_PARAMETER_ENABLED =
     [(js ''temperature'', JBool True), (js ''top_p'', JBool True), (js ''max_tokens'', JBool False),
      (js ''frequency_penalty'', JBool True), (js ''presence_penalty'', JBool True), (js ''seed'', JBool False)]"

definition initial_session :: "json jobj \<Rightarrow> json jobj \<Rightarrow> message list \<Rightarrow> session" where
  "initial_session config parameterEnabled messages =
     \<lparr>ss_messages = messages, ss_config = config, ss_parameterEnabled = parameterEnabled, ss_editing = None,
      ss_source = None, ss_complete = False, ss_created = 0, ss_live = [], ss_requests = []\<rparr>"

section \<open>Actions\<close>

datatype action =
    SendText fresh_ids jstr bool
  | Suggest fresh_ids jstr bool
  | Regenerate fresh_ids jstr bool
  | EditOpen jstr
  | EditClose
  | EditSave fresh_ids jstr bool bool
  | Delete jstr
  | Stop
  | MessageEvent nat jstr
  | ErrorEvent nat int "jstr option"
  | ReadyState nat "int option" "int option"
  | Reply chat_result

text \<open>
  When the interface lets an action happen: \<open>handleSubmit\<close> of PlaygroundInput refuses blank text and is disabled
  while generating; \<open>guardAction\<close> wraps regenerate, edit and delete; the stop button replaces the send button; the
  suggestion buttons and the buttons of an open editor have no such guard (an edit also has to change the text; that
  is not asked for here).  A source delivers events while it is live.
\<close>

definition allowed :: "action \<Rightarrow> session \<Rightarrow> bool" where
  "allowed a st =
     (case a of
        SendText _ t _ \<Rightarrow> trim t \<noteq> [] \<and> \<not> isStreaming st
      | Suggest _ _ _ \<Rightarrow> True
      | Regenerate _ _ _ \<Rightarrow> \<not> isStreaming st
      | EditOpen _ \<Rightarrow> \<not> isStreaming st
      | EditClose \<Rightarrow> True
      | EditSave _ content _ _ \<Rightarrow> trim content \<noteq> []
      | Delete _ \<Rightarrow> \<not> isStreaming st
      | Stop \<Rightarrow> isStreaming st
      | MessageEvent src _ \<Rightarrow> src \<in> set (ss_live st)
      | ErrorEvent src _ _ \<Rightarrow> src \<in> set (ss_live st)
      | ReadyState src _ _ \<Rightarrow> src \<in> set (ss_live st)
      | Reply _ \<Rightarrow> \<not> switched_on (ss_config st) (js ''stream''))"

definition perform :: "action \<Rightarrow> session \<Rightarrow> session" where
  "perform a st =
     (case a of
        SendText n t started \<Rightarrow> handleSendMessage n t started st
      | Suggest n t started \<Rightarrow> handleSendMessage n t started st
      | Regenerate n k started \<Rightarrow> handleRegenerateMessage n k started st
      | EditOpen k \<Rightarrow> handleEditMessage k st
      | EditClose \<Rightarrow> handleEditOpenChange False st
      | EditSave n content submit started \<Rightarrow> applyEdit n content submit started st
      | Delete k \<Rightarrow> handleDeleteMessage k st
      | Stop \<Rightarrow> stopGeneration st
      | MessageEvent src data \<Rightarrow> on_message src data st
      | ErrorEvent src readyState data \<Rightarrow> on_error src readyState data st
      | ReadyState src readyState status \<Rightarrow> on_readystatechange src readyState status st
      | Reply r \<Rightarrow> nonStreamingReply r st)"

text \<open>
  Runs of a session, and the runs in which the two unguarded ways to send (a suggestion, and saving an open edit with
  resubmission) are not used while an answer is streaming.
\<close>

inductive session_run :: "session \<Rightarrow> session \<Rightarrow> bool" where
  run_start: "session_run st st"
| run_move: "session_run st st1 \<Longrightarrow> allowed a st1 \<Longrightarrow> session_run st (perform a st1)"

definition sends :: "action \<Rightarrow> bool" where
  "sends a = (case a of Suggest _ _ _ \<Rightarrow> True | EditSave _ _ submit _ \<Rightarrow> submit | _ \<Rightarrow> False)"

inductive quiet_run :: "session \<Rightarrow> session \<Rightarrow> bool" where
  quiet_start: "quiet_run st st"
| quiet_move: "quiet_run st st1 \<Longrightarrow> allowed a st1 \<Longrightarrow> \<not> (sends a \<and> isStreaming st1) \<Longrightarrow> quiet_run st (perform a st1)"

section \<open>What the updates keep\<close>

lemma updateLast_append [simp]:
  "updateLastAssistantMessage (ms @ [m]) f = ms @ [if msg_from m = RoleAssistant then f m else m]"
  by (simp add: updateLastAssistantMessage_def)

lemma updateLast_Nil [simp]: "updateLastAssistantMessage [] f = []"
  by (simp add: updateLastAssistantMessage_def)

named_theorems settles \<open>what the message updates do to a pending message\<close>

lemma finalize_status [simp]:
  "msg_from (finalizeMessage m r) = msg_from m" "msg_status (finalizeMessage m r) = msg_status m"
  by (simp_all add: finalizeMessage_def updateCurrentVersionContent_def Let_def)

lemma process_status [simp]:
  "msg_from (processStreamingContent m c) = msg_from m" "msg_status (processStreamingContent m c) = msg_status m"
  by (simp_all add: processStreamingContent_def updateCurrentVersionContent_def Let_def)

lemma stuck_stream_update [settles]: "stuck m \<Longrightarrow> stuck (stream_update ty c m)"
  by (auto simp: stuck_def stream_update_def)

lemma stuck_set_error [settles]: "\<not> stuck (set_error e code m)"
  by (simp add: stuck_def set_error_def)

lemma stuck_complete [settles]: "\<not> stuck (complete_message m)"
  by (auto simp: stuck_def complete_message_def)

lemma stuck_stop [settles]: "\<not> stuck (stop_message m)"
  by (auto simp: stuck_def stop_message_def)

lemma stuck_loading [settles]: "stuck (createLoadingAssistantMessage k n)"
  by (simp add: stuck_def createLoadingAssistantMessage_def)

lemma stuck_user [settles]: "\<not> stuck (createUserMessage k n t)"
  by (simp add: stuck_def createUserMessage_def)

lemma stuck_replace_version [settles]: "stuck (replace_version m c) \<longleftrightarrow> stuck m"
  by (simp add: stuck_def replace_version_def)

lemma stuck_from: "stuck m \<Longrightarrow> msg_from m = RoleAssistant"
  by (simp add: stuck_def)

section \<open>A message is pending exactly while a source is recorded\<close>

definition settled :: "session \<Rightarrow> bool" where
  "settled st \<longleftrightarrow> list_all (\<lambda>m. \<not> stuck m) (ss_messages st)"

text \<open>The last message, and only the last, is pending.\<close>

definition pending_last :: "message list \<Rightarrow> bool" where
  "pending_last ms \<longleftrightarrow> ms \<noteq> [] \<and> stuck (last ms) \<and> list_all (\<lambda>m. \<not> stuck m) (butlast ms)"

definition session_inv :: "session \<Rightarrow> bool" where
  "session_inv st \<longleftrightarrow> switched_on (ss_config st) (js ''stream'') \<and>
     (case ss_source st of
        None \<Rightarrow> ss_live st = [] \<and> settled st
      | Some src \<Rightarrow> ss_live st = [src] \<and> \<not> ss_complete st \<and> pending_last (ss_messages st))"

lemma pending_update:
  assumes "pending_last ms"
  shows "(\<And>m. stuck m \<Longrightarrow> stuck (f m)) \<Longrightarrow> pending_last (updateLastAssistantMessage ms f)"
    and "(\<And>m. \<not> stuck (f m)) \<Longrightarrow> list_all (\<lambda>m. \<not> stuck m) (updateLastAssistantMessage ms f)"
proof -
  obtain l m where ms: "ms = l @ [m]" using assms unfolding pending_last_def by (metis append_butlast_last_id)
  with assms have m: "stuck m" "list_all (\<lambda>m. \<not> stuck m) l" by (simp_all add: pending_last_def)
  show "(\<And>m. stuck m \<Longrightarrow> stuck (f m)) \<Longrightarrow> pending_last (updateLastAssistantMessage ms f)"
    using m by (simp add: ms pending_last_def stuck_from)
  show "(\<And>m. \<not> stuck (f m)) \<Longrightarrow> list_all (\<lambda>m. \<not> stuck m) (updateLastAssistantMessage ms f)"
    using m by (simp add: ms stuck_from)
qed

lemma inv_delta_update: "session_inv st \<Longrightarrow> isStreaming st \<Longrightarrow> session_inv (delta_update ty v st)"
  by (auto simp: session_inv_def isStreaming_def delta_update_def handleStreamUpdate_def onMessageUpdate_def
      intro!: pending_update(1) settles split: option.splits)

lemma streaming_delta_update [simp]: "isStreaming (delta_update ty v st) = isStreaming st"
  by (simp add: isStreaming_def delta_update_def handleStreamUpdate_def onMessageUpdate_def split: option.split)

lemma inv_handleError:
  assumes "session_inv st" "src \<in> set (ss_live st)"
  shows "session_inv (handleError src e code st) \<and> \<not> isStreaming (handleError src e code st)"
  using assms
  by (auto simp: session_inv_def isStreaming_def handleError_def closeSource_def handleStreamError_def onMessageUpdate_def
      updateAssistantMessageWithError_def settled_def intro!: pending_update(2) settles split: option.splits)

lemma live_streaming: "session_inv st \<Longrightarrow> src \<in> set (ss_live st) \<Longrightarrow> isStreaming st"
  by (auto simp: session_inv_def isStreaming_def split: option.splits)

lemma inv_done:
  assumes "session_inv st" "src \<in> set (ss_live st)"
  shows "session_inv (on_message src (js ''[DONE]'') st) \<and> \<not> isStreaming (on_message src (js ''[DONE]'') st)"
  using assms
  by (auto simp: session_inv_def isStreaming_def on_message_def closeSource_def handleStreamComplete_def onMessageUpdate_def
      settled_def intro!: pending_update(2) settles split: option.splits)

lemma inv_on_message:
  assumes "session_inv st" "src \<in> set (ss_live st)"
  shows "session_inv (on_message src data st)"
proof (cases "data = js ''[DONE]''")
  case True
  then show ?thesis using inv_done [OF assms] by simp
next
  case False
  then show ?thesis
    using inv_handleError [OF assms] live_streaming [OF assms] assms(1)
    by (auto simp: on_message_def inv_delta_update split: sum.split option.split)
qed

lemma inv_stop: "session_inv st \<Longrightarrow> isStreaming st \<Longrightarrow> session_inv (stopGeneration st) \<and> \<not> isStreaming (stopGeneration st)"
  by (auto simp: session_inv_def isStreaming_def stopGeneration_def stopStream_def closeSource_def onMessageUpdate_def
      settled_def intro!: pending_update(2) settles split: option.splits)

text \<open>Sending a list that ends in a new loading message and is settled otherwise.\<close>

lemma inv_send:
  assumes "session_inv st" "\<not> isStreaming st" "list_all (\<lambda>m. \<not> stuck m) ms"
  shows "session_inv (send_messages (ms @ [createLoadingAssistantMessage k n]) started st)"
proof -
  have p: "pending_last (ms @ [createLoadingAssistantMessage k n])"
    using assms(3) by (simp add: pending_last_def settles)
  show ?thesis
    using assms p pending_update(2) [OF p]
    by (auto simp: session_inv_def isStreaming_def send_messages_def sendChat_def sendStreamingChat_def sendStreamRequest_def
        updateMessages_def onMessageUpdate_def handleStreamError_def updateAssistantMessageWithError_def settled_def settles Let_def
        split: option.splits)
qed

lemma inv_settled: "session_inv st \<Longrightarrow> \<not> isStreaming st \<Longrightarrow> list_all (\<lambda>m. \<not> stuck m) (ss_messages st)"
  by (auto simp: session_inv_def isStreaming_def settled_def split: option.splits)

lemma list_all_take: "list_all P xs \<Longrightarrow> list_all P (take n xs)"
  by (auto simp: list_all_iff dest: in_set_takeD)

lemma edit_all_settled: "list_all (\<lambda>m. \<not> stuck m) (edit_all k c ms) \<longleftrightarrow> list_all (\<lambda>m. \<not> stuck m) ms"
  by (induction ms) (auto simp: edit_all_def settles)

lemma edit_all_pending: "pending_last (edit_all k c ms) \<longleftrightarrow> pending_last ms"
  by (cases ms rule: rev_cases)
    (auto simp: pending_last_def settles edit_all_settled [unfolded edit_all_def] edit_all_def)

lemma inv_editing [simp]: "session_inv (st\<lparr>ss_editing := e\<rparr>) = session_inv st"
  by (simp add: session_inv_def settled_def cong: option.case_cong)

lemma inv_edit:
  assumes "session_inv st" "\<not> (submit \<and> isStreaming st)"
  shows "session_inv (applyEdit n c submit started st)"
proof -
  let ?st = "st\<lparr>ss_editing := None\<rparr>" and ?up = "edit_all (opt_str (ss_editing st)) c (ss_messages st)"
  have e: "session_inv ?st" "isStreaming ?st = isStreaming st" "ss_messages ?st = ss_messages st"
    using assms(1) by (simp_all add: isStreaming_def)
  have 1: "session_inv (updateMessages ?up ?st)"
    using assms(1) by (auto simp: session_inv_def updateMessages_def onMessageUpdate_def settled_def edit_all_settled
        edit_all_pending split: option.splits)
  have 2: "submit \<Longrightarrow> session_inv (send_messages (take (i + 1) ?up @ [createLoadingAssistantMessage a b]) started ?st)" for i a b
    using assms(2) e inv_settled [OF assms(1)] by (intro inv_send) (auto intro!: list_all_take simp: edit_all_settled)
  show ?thesis
    using 1 2 assms(1) by (auto simp: applyEdit_def apply_edit_at_def Let_def split: option.split)
qed

lemma inv_perform:
  assumes "session_inv st" "allowed a st" "\<not> (sends a \<and> isStreaming st)"
  shows "session_inv (perform a st)"
proof (cases a)
  case (Delete k)
  then show ?thesis
    using assms inv_settled [OF assms(1)]
    by (auto simp: perform_def allowed_def handleDeleteMessage_def updateMessages_def onMessageUpdate_def session_inv_def
        isStreaming_def settled_def list_all_iff split: option.splits)
next
  case (Regenerate n k started)
  then show ?thesis
    using assms inv_settled [OF assms(1)]
    by (auto simp: perform_def allowed_def handleRegenerateMessage_def intro!: inv_send list_all_take split: option.split)
next
  case (Reply r)
  then show ?thesis using assms by (simp add: allowed_def session_inv_def)
next
  case (ErrorEvent src r d)
  then show ?thesis
    using assms inv_handleError [OF assms(1)] by (auto simp: perform_def allowed_def on_error_def)
next
  case (ReadyState src r s)
  then show ?thesis
    using assms inv_handleError [OF assms(1)]
    by (auto simp: perform_def allowed_def on_readystatechange_def split: option.split)
next
  case (SendText n t started)
  then show ?thesis
    using assms inv_settled [OF assms(1)]
      inv_send [OF assms(1), of "ss_messages st @ [createUserMessage (id_ukey n) (id_uver n) t]"]
    by (auto simp: perform_def allowed_def handleSendMessage_def settles)
next
  case (Suggest n t started)
  then show ?thesis
    using assms inv_settled [OF assms(1)]
      inv_send [OF assms(1), of "ss_messages st @ [createUserMessage (id_ukey n) (id_uver n) t]"]
    by (auto simp: perform_def sends_def handleSendMessage_def settles)
next
  case (EditSave n c submit started)
  then show ?thesis using assms inv_edit [OF assms(1)] by (simp add: perform_def sends_def)
qed (use assms inv_on_message inv_stop in \<open>auto simp: perform_def allowed_def handleEditMessage_def handleEditOpenChange_def\<close>)

definition idle :: "session \<Rightarrow> bool" where
  "idle st \<longleftrightarrow> switched_on (ss_config st) (js ''stream'') \<and> ss_source st = None \<and> ss_live st = [] \<and> settled st"

lemma idle_inv: "idle st \<Longrightarrow> session_inv st"
  by (simp add: idle_def session_inv_def)

lemma quiet_run_inv: "quiet_run st st' \<Longrightarrow> session_inv st \<Longrightarrow> session_inv st'"
  by (induction rule: quiet_run.induct) (auto intro: inv_perform)

lemma inv_pending_iff: "session_inv st \<Longrightarrow> isStreaming st \<longleftrightarrow> list_ex stuck (ss_messages st)"
  by (auto simp: session_inv_def isStreaming_def settled_def pending_last_def list_ex_iff list_all_iff
      split: option.splits intro: last_in_set)

section \<open>A whole answer\<close>

text \<open>The event that carries one content chunk.\<close>

definition content_event :: "jstr \<Rightarrow> jstr" where
  "content_event s =
     JSON_stringify (JObj [(js ''choices'', JArr [JObj [(js ''delta'', JObj [(js ''content'', JStr s)])]])])"

lemma content_event_delta:
  assumes "str_ok s"
  shows "chunk_delta (content_event s) = Inr (Some (JObj [(js ''content'', JStr s)]))"
proof -
  have "json_wf (JObj [(js ''choices'', JArr [JObj [(js ''delta'', JObj [(js ''content'', JStr s)])]])])"
    using assms by (simp add: obj_wf_def obj_set_def index_key_def str_ok_def js_lit is_digit_def)
  from JSON_roundtrip [OF this] show ?thesis
    by (simp add: chunk_delta_def content_event_def obj_get_def opt_field_def if_truthy_def)
qed

lemma content_event_not_done: "content_event s \<noteq> js ''[DONE]''"
  by (simp add: content_event_def js_lit)

lemma on_content_event:
  assumes "str_ok s"
  shows "on_message src (content_event s) st = (if s = [] then st else handleStreamUpdate Content s st)"
  using content_event_delta [OF assms] content_event_not_done
  by (simp add: on_message_def delta_update_def opt_field_def if_truthy_def obj_get_def)

lemma on_content_events:
  assumes "list_all str_ok cs"
  shows "fold (\<lambda>c. on_message src (content_event c)) cs st =
    fold (handleStreamUpdate Content) (filter (\<lambda>c. c \<noteq> []) cs) st"
  using assms by (induction cs arbitrary: st) (simp_all add: on_content_event)

lemma process_with_status:
  "processStreamingContent (m\<lparr>msg_status := s\<rparr>) c = (processStreamingContent m c)\<lparr>msg_status := s\<rparr>"
  by (simp add: processStreamingContent_def updateCurrentVersionContent_def Let_def)

lemma finalize_with_status:
  "finalizeMessage (m\<lparr>msg_status := s\<rparr>) r = (finalizeMessage m r)\<lparr>msg_status := s\<rparr>"
  by (simp add: finalizeMessage_def updateCurrentVersionContent_def Let_def)

lemma stream_updates_messages:
  assumes "ss_messages st = ms @ [m]" "stuck m"
  shows "\<exists>s. fold (handleStreamUpdate Content) cs st = st\<lparr>ss_messages := ms @ [(stream_content cs m)\<lparr>msg_status := s\<rparr>]\<rparr> \<and>
    s \<noteq> Some ERROR \<and> s \<noteq> Some COMPLETE"
  using assms
proof (induction cs arbitrary: st m)
  case Nil
  then show ?case by (intro exI [of _ "msg_status m"]) (auto simp: stream_content_def stuck_def)
next
  case (Cons c cs)
  let ?m = "(processStreamingContent m (Some c))\<lparr>msg_status := Some STREAMING\<rparr>"
  have "handleStreamUpdate Content c st = st\<lparr>ss_messages := ms @ [?m]\<rparr>"
    using Cons.prems by (auto simp: handleStreamUpdate_def onMessageUpdate_def stream_update_def stuck_def)
  moreover have "stream_content cs ?m = (stream_content (c # cs) m)\<lparr>msg_status := Some STREAMING\<rparr>"
  proof -
    have "stream_content cs (x\<lparr>msg_status := s\<rparr>) = (stream_content cs x)\<lparr>msg_status := s\<rparr>" for x s
      by (induction cs arbitrary: x) (simp_all add: stream_content_def process_with_status)
    then show ?thesis by (simp add: stream_content_def)
  qed
  ultimately show ?case
    using Cons.IH [of "st\<lparr>ss_messages := ms @ [?m]\<rparr>" ?m] Cons.prems by (auto simp: stuck_def)
qed

section \<open>Properties\<close>

text \<open>C12: In a streaming session that starts with no message pending, at every later moment a message is loading or streaming exactly
  while a source is recorded as active, and then it is the last message and that source is the only live one, provided that neither a
  suggestion nor an edit is submitted during an answer.\<close>

theorem pending_exactly_while_streaming:
  assumes "idle st" "quiet_run st st'"
  shows "(isStreaming st' \<longleftrightarrow> list_ex stuck (ss_messages st')) \<and>
    (case ss_source st' of None \<Rightarrow> ss_live st' = [] | Some src \<Rightarrow> ss_live st' = [src] \<and> pending_last (ss_messages st'))"
proof -
  have i: "session_inv st'" using quiet_run_inv [OF assms(2) idle_inv [OF assms(1)]] .
  then show ?thesis using inv_pending_iff [OF i] by (auto simp: session_inv_def split: option.splits)
qed

abbreviation demo_ids :: fresh_ids where
  "demo_ids \<equiv> \<lparr>id_ukey = [1], id_uver = [2], id_akey = [3], id_aver = [4]\<rparr>"

abbreviation demo_start :: session where
  "demo_start \<equiv> initial_session DEFAULT_CONFIG DEFAULT_PARAMETER_ENABLED []"

theorem pending_exactly_while_streaming_witness:
  "isStreaming (perform (SendText demo_ids (js ''hi'') True) demo_start) \<and>
   list_ex stuck (ss_messages (perform (SendText demo_ids (js ''hi'') True) demo_start))"
proof -
  have i: "idle demo_start" by code_simp
  have a: "allowed (SendText demo_ids (js ''hi'') True) demo_start" by code_simp
  have s: "\<not> (sends (SendText demo_ids (js ''hi'') True) \<and> isStreaming demo_start)" by code_simp
  have "isStreaming (perform (SendText demo_ids (js ''hi'') True) demo_start)" by code_simp
  then show ?thesis
    using pending_exactly_while_streaming [OF i quiet_move [OF quiet_start a s]] by blast
qed



text \<open>C6: Sending a text in an idle streaming session and receiving the answer in chunks, then the end marker, appends the user's message
  and one complete answer to an unchanged history: the answer is the finalised concatenation of the chunks.  The request that was
  posted has the history and the user's message, and not the placeholder of the answer.\<close>

theorem streamed_answer:
  fixes st :: session and n :: fresh_ids and t :: jstr
  assumes "idle st" "list_all str_ok cs"
  defines "sent \<equiv> handleSendMessage n t True st"
  defines "st' \<equiv> on_message (ss_created st) (js ''[DONE]'') (fold (\<lambda>c. on_message (ss_created st) (content_event c)) cs sent)"
  defines "history \<equiv> ss_messages st @ [createUserMessage (id_ukey n) (id_uver n) t]"
  defines "answer \<equiv> (finalizeMessage (stream_content (filter (\<lambda>c. c \<noteq> []) cs)
      (createLoadingAssistantMessage (id_akey n) (id_aver n))) None)\<lparr>msg_status := Some COMPLETE\<rparr>"
  shows "ss_messages st' = history @ [answer] \<and>
    mv_content (getCurrentVersion answer) = visibleContent (parseThinkTags (concat cs)) \<and> \<not> isStreaming st' \<and>
    ss_requests st' = ss_requests st @ [buildChatCompletionPayload history (ss_config st) (ss_parameterEnabled st)]"
proof -
  let ?l = "createLoadingAssistantMessage (id_akey n) (id_aver n)"
  let ?p = "buildChatCompletionPayload history (ss_config st) (ss_parameterEnabled st)"
  have "buildChatCompletionPayload (history @ [?l]) (ss_config st) (ss_parameterEnabled st) = ?p"
    by (simp add: buildChatCompletionPayload_def isValidMessage_def createLoadingAssistantMessage_def
        createMessageVersion_def trim_def)
  then have s: "ss_messages sent = history @ [?l]" "ss_requests sent = ss_requests st @ [?p]"
    using assms(1) by (simp_all add: sent_def idle_def handleSendMessage_def send_messages_def sendChat_def sendStreamingChat_def
        sendStreamRequest_def updateMessages_def onMessageUpdate_def history_def Let_def)
  obtain s where e: "fold (\<lambda>c. on_message (ss_created st) (content_event c)) cs sent =
      sent\<lparr>ss_messages := history @ [(stream_content (filter (\<lambda>c. c \<noteq> []) cs) ?l)\<lparr>msg_status := s\<rparr>]\<rparr>"
      "s \<noteq> Some ERROR" "s \<noteq> Some COMPLETE"
    using stream_updates_messages [OF s(1) stuck_loading] unfolding on_content_events [OF assms(2)] by blast
  have r: "msg_from (stream_content xs ?l) = RoleAssistant" for xs
  proof -
    have "msg_from (stream_content xs m) = msg_from m" for m
      by (induction xs arbitrary: m) (simp_all add: stream_content_def)
    then show ?thesis by (simp add: createLoadingAssistantMessage_def)
  qed
  have "concat (filter (\<lambda>c. c \<noteq> []) cs) = concat cs" by (induction cs) auto
  moreover have "content_of ?l = []"
    by (simp add: createLoadingAssistantMessage_def getCurrentVersion_def createMessageVersion_def)
  ultimately have "content_of answer = visibleContent (parseThinkTags (concat cs))"
    by (simp add: answer_def finalize_version stream_version)
  then show ?thesis
    using e s r by (simp add: st'_def on_message_def closeSource_def handleStreamComplete_def onMessageUpdate_def
        complete_message_def finalize_with_status answer_def isStreaming_def)
qed

theorem streamed_answer_witness:
  "map (\<lambda>m. content_of m) (ss_messages (on_message 0 (js ''[DONE]'') (fold (\<lambda>c. on_message 0 (content_event c))
     [js ''<thi'', js ''nk>a</think> b'', js ''c''] (handleSendMessage demo_ids (js ''hi'') True demo_start)))) =
   [js ''hi'', js ''bc'']"
proof -
  have i: "idle demo_start" and ok: "list_all str_ok [js ''<thi'', js ''nk>a</think> b'', js ''c'']" by code_simp+
  have c: "ss_created demo_start = 0" "ss_messages demo_start = []" by code_simp+
  have v: "visibleContent (parseThinkTags (concat [js ''<thi'', js ''nk>a</think> b'', js ''c''])) = js ''bc''" by code_simp
  have u: "content_of (createUserMessage (id_ukey demo_ids) (id_uver demo_ids) (js ''hi'')) = js ''hi''" by code_simp
  note r = streamed_answer [OF i ok, of demo_ids "js ''hi''", unfolded c v]
  show ?thesis
    unfolding conjunct1 [OF r] by (simp only: append.simps list.map conjunct1 [OF conjunct2 [OF r]] u)
qed


text \<open>Without streaming, the placeholder is replaced by an answer or an error for every reply but one: a reply without choices leaves
  it loading.\<close>

lemma plain_reply_settles:
  assumes "\<not> switched_on (ss_config st) (js ''stream'')"
  shows "stuck (last (ss_messages (nonStreamingReply r (handleSendMessage n t started st)))) \<longleftrightarrow>
    r = Response None \<or> r = Response (Some [])"
proof -
  let ?ms = "ss_messages st @ [createUserMessage (id_ukey n) (id_uver n) t]"
    and ?l = "createLoadingAssistantMessage (id_akey n) (id_aver n)"
  have s: "ss_messages (handleSendMessage n t started st) = ?ms @ [?l]"
    using assms by (simp add: handleSendMessage_def send_messages_def sendChat_def sendNonStreamingChat_def
        updateMessages_def onMessageUpdate_def)
  have l: "msg_from ?l = RoleAssistant" by (simp add: createLoadingAssistantMessage_def)
  have r: "\<not> stuck (reply_message c m)" for c m by (simp add: stuck_def reply_message_def)
  show ?thesis
  proof (cases r)
    case (Response x)
    consider "x = None" | "x = Some []" | c cs where "x = Some (c # cs)"
      by (metis option.exhaust list.exhaust)
    then show ?thesis
      using l by cases (simp_all add: Response s r stuck_loading onMessageUpdate_def del: append_assoc)
  next
    case (Failure a b c)
    then show ?thesis
      using l by (simp add: s onMessageUpdate_def handleStreamError_def updateAssistantMessageWithError_def
          stuck_set_error del: append_assoc)
  qed
qed

end
