(* ===== verification/Channel_Types.thy ===== *)
theory Channel_Types
  imports Js_Json
begin

text \<open>
  Channels as the API delivers them (features/channels/types.ts) and the constants of the channel feature that the
  modelled functions read (features/channels/constants.ts).  Nullish fields are options; a number is a \<open>jsnum\<close>.
\<close>

datatype multi_key_type = Random | Polling

record channel_info =
  ci_is_multi_key :: bool
  ci_multi_key_size :: jsnum
  ci_multi_key_status_list :: "jsnum jobj option"
  ci_multi_key_disabled_reason :: "jstr jobj option"
  ci_multi_key_disabled_time :: "jsnum jobj option"
  ci_multi_key_polling_index :: jsnum
  ci_multi_key_mode :: multi_key_type

record channel =
  ch_id :: jsnum
  ch_type :: jsnum
  ch_key :: jstr
  ch_openai_organization :: "jstr option"
  ch_test_model :: "jstr option"
  ch_status :: jsnum
  ch_name :: jstr
  ch_weight :: "jsnum option"
  ch_created_time :: jsnum
  ch_test_time :: jsnum
  ch_response_time :: jsnum
  ch_base_url :: "jstr option"
  ch_other :: jstr
  ch_balance :: jsnum
  ch_balance_updated_time :: jsnum
  ch_models :: jstr
  ch_group :: jstr
  ch_used_quota :: jsnum
  ch_model_mapping :: "jstr option"
  ch_status_code_mapping :: "jstr option"
  ch_priority :: "jsnum option"
  ch_auto_ban :: "jsnum option"
  ch_other_info :: jstr
  ch_tag :: "jstr option"
  ch_setting :: "jstr option"
  ch_param_override :: "jstr option"
  ch_header_override :: "jstr option"
  ch_remark :: jstr
  ch_max_input_tokens :: jsnum
  ch_channel_info :: channel_info
  ch_settings :: jstr

definition ENABLED :: jsnum where "ENABLED = num_of_nat 1"
definition AUTO_DISABLED :: jsnum where "AUTO_DISABLED = num_of_nat 3"

definition MODEL_FETCHABLE_TYPES :: "jsnum list" where
  "MODEL_FETCHABLE_TYPES =
     map num_of_nat [1, 4, 14, 17, 20, 23, 24, 25, 26, 27, 31, 34, 35, 40, 42, 43, 47, 48]"

text \<open>An optional string that is read with \<open>|| ''\<close>.\<close>

definition str_or_empty :: "jstr option \<Rightarrow> jstr" where
  "str_or_empty s = (case s of None \<Rightarrow> [] | Some t \<Rightarrow> t)"

lemma str_ok_js [simp]: "str_ok (js s)"
proof -
  have "of_char c < (65536 :: nat)" for c :: char
    by (rule less_trans [of _ 256]) simp_all
  then show ?thesis by (simp add: str_ok_def js_def list_all_iff)
qed

end
