(* ===== verification/Channel_Utils.thy ===== *)
theory Channel_Utils
  imports Channel_Types Model_Mapping
begin

text \<open>
  Channel lists (features/channels/lib/channel-utils.ts, multi-key-utils.ts and upstream-update-utils.ts): labels and
  icons by type, masking of keys, comma and line lists, attention marks, the tree of channels by tag, and pending
  upstream changes.  The collation that orders group names (\<open>localeCompare\<close>) depends on the browser's locale and is an
  argument.  Formatting of money and of dates belongs to other packages and is left out.
\<close>

section \<open>Types\<close>

definition CHANNEL_TYPES :: "(nat \<times> string) list" where
  "CHANNEL_TYPES =
    [(0, ''Unknown''), (1, ''OpenAI''), (2, ''Midjourney''), (3, ''Azure''), (4, ''Ollama''),
     (5, ''MidjourneyPlus''), (6, ''OpenAIMax''), (7, ''OhMyGPT''), (8, ''Custom''), (9, ''AILS''),
     (10, ''AI Proxy''), (11, ''PaLM''), (12, ''API2GPT''), (13, ''AIGC2D''), (14, ''Anthropic''), (15, ''Baidu''),
     (16, ''Zhipu''), (17, ''Ali''), (18, ''Xunfei''), (19, ''360''), (20, ''OpenRouter''),
     (21, ''AI Proxy Library''), (22, ''FastGPT''), (23, ''Tencent''), (24, ''Gemini''), (25, ''Moonshot''),
     (26, ''Zhipu V4''), (27, ''Perplexity''), (31, ''LingYiWanWu''), (33, ''AWS''), (34, ''Cohere''),
     (35, ''MiniMax''), (36, ''SunoAPI''), (37, ''Dify''), (38, ''Jina''), (39, ''Cloudflare''),
     (40, ''SiliconFlow''), (41, ''Vertex AI''), (42, ''Mistral''), (43, ''DeepSeek''), (44, ''MokaAI''),
     (45, ''VolcEngine''), (46, ''Baidu V2''), (47, ''Xinference''), (48, ''xAI''), (49, ''Coze''), (50, ''Kling''),
     (51, ''Jimeng''), (52, ''Vidu''), (53, ''Submodel''), (54, ''DoubaoVideo''), (55, ''Sora''),
     (56, ''Replicate''), (57, ''Codex''), (58, ''ElevenLabs'')]"

definition CHANNEL_TYPE_DISPLAY_ORDER :: "nat list" where
  "CHANNEL_TYPE_DISPLAY_ORDER =
    [1, 14, 33, 24, 43, 3, 41, 48, 42, 34, 20, 4, 40, 27, 25, 17, 26, 15, 46, 23,
     18, 45, 31, 35, 49, 19, 47, 37, 38, 39, 11, 8, 57, 22, 21, 44, 2, 5, 36, 50,
     51, 52, 53, 54, 55, 56, 58]"

definition ordered_options :: "(nat \<times> string) list" where
  "ordered_options =
     List.map_filter (\<lambda>i. map_option (Pair i) (map_of CHANNEL_TYPES i)) CHANNEL_TYPE_DISPLAY_ORDER"

definition CHANNEL_TYPE_OPTIONS :: "(nat \<times> string) list" where
  "CHANNEL_TYPE_OPTIONS =
     ordered_options @ filter (\<lambda>(i, label). i \<noteq> 0 \<and> i \<notin> set (map fst ordered_options)) CHANNEL_TYPES"

text \<open>Lookup in an object with integer keys by a number.\<close>

fun lookup_type :: "(nat \<times> 'a) list \<Rightarrow> jsnum \<Rightarrow> 'a option" where
  "lookup_type [] x = None"
| "lookup_type ((k, v) # kvs) x = (if num_of_nat k = x then Some v else lookup_type kvs x)"

definition getChannelTypeLabel :: "jsnum \<Rightarrow> jstr" where
  "getChannelTypeLabel type = js (case lookup_type CHANNEL_TYPES type of None \<Rightarrow> ''Unknown'' | Some l \<Rightarrow> l)"

definition TYPE_TO_ICON :: "(nat \<times> string) list" where
  "TYPE_TO_ICON =
    [(1, ''OpenAI''), (6, ''OpenAI''), (7, ''OpenAI''), (8, ''OpenAI''), (3, ''Azure''), (14, ''Claude''),
     (24, ''Gemini''), (11, ''Google''), (41, ''Gemini''), (33, ''Aws''), (39, ''Cloudflare''), (15, ''Baidu''),
     (46, ''Baidu''), (16, ''Zhipu''), (26, ''Zhipu''), (17, ''Qwen''), (18, ''Spark''), (23, ''Hunyuan''),
     (19, ''Ai360''), (25, ''Moonshot''), (31, ''Yi''), (35, ''Minimax''), (45, ''Volcengine''), (4, ''Ollama''),
     (27, ''Perplexity''), (34, ''Cohere''), (42, ''Mistral''), (43, ''DeepSeek''), (48, ''XAI''), (49, ''Coze''),
     (40, ''SiliconCloud''), (44, ''OpenAI''), (20, ''OpenRouter''), (2, ''Midjourney''), (5, ''Midjourney''),
     (50, ''Kling''), (51, ''Jimeng''), (52, ''Vidu''), (36, ''Suno''), (55, ''OpenAI''), (54, ''Doubao''),
     (56, ''Replicate''), (37, ''Dify''), (38, ''Jina''), (22, ''FastGPT''), (47, ''Xinference''), (53, ''OpenAI''),
     (10, ''OpenAI''), (21, ''OpenAI''), (12, ''OpenAI''), (13, ''OpenAI''), (9, ''OpenAI'')]"

definition getChannelTypeIcon :: "jsnum \<Rightarrow> jstr" where
  "getChannelTypeIcon type = js (case lookup_type TYPE_TO_ICON type of None \<Rightarrow> ''OpenAI'' | Some i \<Rightarrow> i)"

definition isChannelEnabled :: "channel \<Rightarrow> bool" where
  "isChannelEnabled c \<longleftrightarrow> ch_status c = num_of_nat 1"

definition isMultiKeyChannel :: "channel \<Rightarrow> bool" where
  "isMultiKeyChannel c = ci_is_multi_key (ch_channel_info c)"

section \<open>Keys\<close>

definition slice_end :: "nat \<Rightarrow> jstr \<Rightarrow> jstr" where
  "slice_end n s = drop (length s - n) s"

definition formatChannelKey :: "jstr \<Rightarrow> bool \<Rightarrow> jstr" where
  "formatChannelKey key isMultiKey =
     (if key = [] then []
      else if isMultiKey then nat_str (length (filter (\<lambda>k. trim k \<noteq> []) (split_char 10 key))) @ js '' keys''
      else if length key \<le> 16 then take 4 key @ js ''...'' @ slice_end 4 key
      else take 8 key @ js ''...'' @ slice_end 8 key)"

definition formatKeyPreview :: "jstr \<Rightarrow> nat \<Rightarrow> jstr" where
  "formatKeyPreview key maxLength =
     (if key = [] then [] else if length key \<le> maxLength then key else take maxLength key @ js ''...'')"

definition countKeys :: "jstr \<Rightarrow> nat" where
  "countKeys key = (if key = [] then 0 else length (filter (\<lambda>k. trim k \<noteq> []) (split_char 10 key)))"

record dedup_result =
  deduplicatedText :: jstr
  beforeCount :: nat
  afterCount :: nat
  removedCount :: int

text \<open>The loop over the lines, with the keys kept so far.\<close>

fun dedup_lines :: "jstr list \<Rightarrow> jstr list \<Rightarrow> jstr list" where
  "dedup_lines kept [] = kept"
| "dedup_lines kept (line # ls) =
     (if trim line \<noteq> [] \<and> trim line \<notin> set kept then dedup_lines (kept @ [trim line]) ls else dedup_lines kept ls)"

definition deduplicateKeys :: "jstr \<Rightarrow> dedup_result" where
  "deduplicateKeys keysText =
     (if trim keysText = [] then \<lparr>deduplicatedText = [], beforeCount = 0, afterCount = 0, removedCount = 0\<rparr>
      else (let ls = split_char 10 keysText; ks = dedup_lines [] ls
            in \<lparr>deduplicatedText = join [10] ks, beforeCount = length ls, afterCount = length ks,
                removedCount = int (length ls) - int (length ks)\<rparr>))"

section \<open>Lists\<close>

definition parseModelsList :: "jstr \<Rightarrow> jstr list" where
  "parseModelsList models =
     (if models = [] then [] else filter (\<lambda>m. 0 < length m) (map trim (split_char (ch CHR '','') models)))"

text \<open>The comparison of the sort: \<open>default\<close> first, then the collation.  The sort is stable.\<close>

definition group_before :: "(jstr \<Rightarrow> jstr \<Rightarrow> bool) \<Rightarrow> jstr \<Rightarrow> jstr \<Rightarrow> bool" where
  "group_before collates a b = (if a = js ''default'' then True else if b = js ''default'' then False else collates a b)"

fun insert_group :: "(jstr \<Rightarrow> jstr \<Rightarrow> bool) \<Rightarrow> jstr \<Rightarrow> jstr list \<Rightarrow> jstr list" where
  "insert_group le x [] = [x]"
| "insert_group le x (y # ys) = (if group_before le x y then x # y # ys else y # insert_group le x ys)"

definition parseGroupsList :: "(jstr \<Rightarrow> jstr \<Rightarrow> bool) \<Rightarrow> jstr \<Rightarrow> jstr list" where
  "parseGroupsList collates groups =
     (if groups = [] then []
      else foldr (insert_group collates) (filter (\<lambda>g. 0 < length g) (map trim (split_char (ch CHR '','') groups))) [])"

definition formatModelsString :: "jstr list \<Rightarrow> jstr" where
  "formatModelsString models = join (js '','') models"

definition formatGroupsString :: "jstr list \<Rightarrow> jstr" where
  "formatGroupsString groups = join (js '','') groups"

section \<open>Settings\<close>

definition parseChannelSettings :: "jstr option \<Rightarrow> json" where
  "parseChannelSettings s =
     (case s of None \<Rightarrow> JObj [] | Some t \<Rightarrow>
        if t = [] then JObj [] else (case JSON_parse t of None \<Rightarrow> JObj [] | Some v \<Rightarrow> v))"

definition parseChannelOtherSettings :: "jstr option \<Rightarrow> json" where
  "parseChannelOtherSettings s =
     (case s of None \<Rightarrow> JObj [] | Some t \<Rightarrow>
        if t = [] \<or> t = js ''{}'' then JObj [] else (case JSON_parse t of None \<Rightarrow> JObj [] | Some v \<Rightarrow> v))"

definition validateChannelSettings :: "jstr \<Rightarrow> bool" where
  "validateChannelSettings settings = (if trim settings = [] then True else JSON_parse settings \<noteq> None)"

section \<open>Display values\<close>

datatype variant = Success | Warning | Danger | Neutral | Info

definition getBalanceVariant :: "jsnum \<Rightarrow> variant" where
  "getBalanceVariant balance =
     (if balance = Fin 0 0 then Neutral
      else if num_less balance (num_of_nat 1) then Danger
      else if num_less balance (num_of_nat 10) then Warning else Success)"

definition num_le :: "jsnum \<Rightarrow> jsnum \<Rightarrow> bool" where
  "num_le a b \<longleftrightarrow> a \<noteq> NaN \<and> b \<noteq> NaN \<and> \<not> num_less b a"

definition getResponseTimeConfig :: "jsnum \<Rightarrow> variant \<times> string" where
  "getResponseTimeConfig timeMs =
     (if timeMs = Fin 0 0 then (Neutral, ''Not tested'')
      else if num_le timeMs (num_of_nat 500) then (Success, ''Excellent'')
      else if num_le timeMs (num_of_nat 1000) then (Info, ''Good'')
      else if num_le timeMs (num_of_nat 2000) then (Warning, ''Fair'')
      else (Danger, ''Poor''))"

definition getPriorityDisplay :: "jsnum option \<Rightarrow> jstr" where
  "getPriorityDisplay priority = (case priority of None \<Rightarrow> js ''0'' | Some p \<Rightarrow> num_str p)"

definition getWeightDisplay :: "jsnum option \<Rightarrow> jstr" where
  "getWeightDisplay weight = (case weight of None \<Rightarrow> js ''0'' | Some w \<Rightarrow> num_str w)"

definition validateChannelName :: "jstr \<Rightarrow> bool" where
  "validateChannelName name \<longleftrightarrow> 0 < length (trim name)"

definition validateApiKey :: "jstr \<Rightarrow> bool" where
  "validateApiKey key \<longleftrightarrow> 0 < length (trim key)"

definition validateModels :: "jstr \<Rightarrow> bool" where
  "validateModels models \<longleftrightarrow> 0 < length (parseModelsList models)"

definition validateGroups :: "(jstr \<Rightarrow> jstr \<Rightarrow> bool) \<Rightarrow> jstr \<Rightarrow> bool" where
  "validateGroups collates groups \<longleftrightarrow> 0 < length (parseGroupsList collates groups)"

section \<open>Attention\<close>

definition low_balance :: "channel \<Rightarrow> bool" where
  "low_balance c \<longleftrightarrow> num_less (Fin 0 0) (ch_balance c) \<and> num_less (ch_balance c) (num_of_nat 1)"

definition all_keys_disabled :: "channel \<Rightarrow> bool" where
  "all_keys_disabled c \<longleftrightarrow> ci_is_multi_key (ch_channel_info c) \<and>
     (case ci_multi_key_status_list (ch_channel_info c) of
        None \<Rightarrow> False
      | Some l \<Rightarrow> num_le (ci_multi_key_size (ch_channel_info c)) (num_of_nat (length (obj_keys l))))"

definition channelNeedsAttention :: "channel \<Rightarrow> bool" where
  "channelNeedsAttention c =
     (if ch_status c = num_of_nat 3 then True else if low_balance c then True else if all_keys_disabled c then True else False)"

definition getAttentionReason :: "channel \<Rightarrow> string option" where
  "getAttentionReason c =
     (if ch_status c = num_of_nat 3 then Some ''Auto-disabled'' else if low_balance c then Some ''Low balance''
      else if all_keys_disabled c then Some ''All keys disabled'' else None)"

section \<open>Channels by tag\<close>

text \<open>The fields of an aggregate row that the loop computes; an undefined status is \<open>None\<close>.\<close>

record tag_row =
  tr_tag :: jstr
  tr_status :: "jsnum option"
  tr_group :: jstr
  tr_used_quota :: jsnum
  tr_response_time :: jsnum
  tr_priority :: "jsnum option"
  tr_weight :: "jsnum option"
  tr_children :: "channel list"

definition tag_of :: "channel \<Rightarrow> jstr" where
  "tag_of c = str_or_empty (ch_tag c)"

definition new_tag_row :: "jstr \<Rightarrow> tag_row" where
  "new_tag_row tag =
     \<lparr>tr_tag = tag, tr_status = None, tr_group = [], tr_used_quota = Fin 0 0, tr_response_time = Fin 0 0,
      tr_priority = Some (Fin (-1) 0), tr_weight = Some (Fin (-1) 0), tr_children = []\<rparr>"

text \<open>Average of one more value, and a value that is null once two channels differ (\<open>-1\<close> marks the start).\<close>

definition average_in :: "jsnum \<Rightarrow> nat \<Rightarrow> jsnum \<Rightarrow> jsnum" where
  "average_in avg childCount x =
     num_div (num_add (num_mul avg (num_of_nat (childCount - 1))) x) (num_of_nat childCount)"

definition agree_in :: "jsnum option \<Rightarrow> jsnum option \<Rightarrow> jsnum option" where
  "agree_in cur x = (if cur = Some (Fin (-1) 0) then x else if cur \<noteq> x then None else cur)"

definition split_groups :: "jstr \<Rightarrow> jstr list" where
  "split_groups s = filter (\<lambda>g. g \<noteq> []) (split_char (ch CHR '','') s)"

definition merge_groups :: "jstr \<Rightarrow> jstr \<Rightarrow> jstr" where
  "merge_groups cur new =
     (if cur = [] then new
      else fold (\<lambda>g acc. acc @ js '','' @ g) (filter (\<lambda>g. g \<notin> set (split_groups cur)) (split_groups new)) cur)"

definition status_in :: "jsnum option \<Rightarrow> jsnum \<Rightarrow> jsnum option" where
  "status_in cur s =
     (if s = num_of_nat 1 then Some (num_of_nat 1) else case cur of None \<Rightarrow> Some s | Some c \<Rightarrow> Some c)"

definition add_child :: "tag_row \<Rightarrow> channel \<Rightarrow> tag_row" where
  "add_child row c =
     (let childCount = length (tr_children row) + 1
      in row\<lparr>tr_children := tr_children row @ [c],
             tr_used_quota := num_add (tr_used_quota row) (ch_used_quota c),
             tr_response_time := average_in (tr_response_time row) childCount (ch_response_time c),
             tr_priority := agree_in (tr_priority row) (ch_priority c),
             tr_weight := agree_in (tr_weight row) (ch_weight c),
             tr_group := merge_groups (tr_group row) (ch_group c),
             tr_status := status_in (tr_status row) (ch_status c)\<rparr>)"

text \<open>The rows so far, in the order in which their tags appear.\<close>

fun add_to_rows :: "tag_row list \<Rightarrow> channel \<Rightarrow> tag_row list" where
  "add_to_rows [] c = [add_child (new_tag_row (tag_of c)) c]"
| "add_to_rows (r # rs) c = (if tr_tag r = tag_of c then add_child r c # rs else r # add_to_rows rs c)"

definition aggregateChannelsByTag :: "channel list \<Rightarrow> tag_row list" where
  "aggregateChannelsByTag channels = foldl add_to_rows [] channels"

definition TYPE_TO_KEY_PROMPT :: "(nat \<times> string) list" where
  "TYPE_TO_KEY_PROMPT =
    [(15, ''Format: APIKey|SecretKey''),
     (18, ''Format: APPID|APISecret|APIKey''),
     (22, ''Format: APIKey-AppId, e.g., fastgpt-0sp2gtvfdgyi4k30jwlgwf1i-64f335d84283f05518e9e041''),
     (23, ''Format: AppId|SecretId|SecretKey''),
     (33, ''Format: Ak|Sk|Region''),
     (50, ''Format: AccessKey|SecretKey (or just ApiKey if upstream is New API)''),
     (51, ''Format: Access Key ID|Secret Access Key''),
     (57, ''Paste Codex OAuth JSON credential (access_token / refresh_token / account_id)'')]"

definition getKeyPromptForType :: "jsnum \<Rightarrow> jstr" where
  "getKeyPromptForType type =
     js (case lookup_type TYPE_TO_KEY_PROMPT type of None \<Rightarrow> ''Enter API key for this channel'' | Some p \<Rightarrow> p)"

section \<open>Multi-key actions\<close>

datatype confirm_action = ActEnable | ActDisable | ActDelete | ActEnableAll | ActDisableAll | ActDeleteDisabled

definition getMultiKeyConfirmMessage :: "confirm_action option \<Rightarrow> string" where
  "getMultiKeyConfirmMessage action =
     (case action of
        None \<Rightarrow> []
      | Some ActDelete \<Rightarrow> ''Are you sure you want to delete this key? This action cannot be undone.''
      | Some ActEnable \<Rightarrow> ''Enable this key?''
      | Some ActDisable \<Rightarrow> ''Disable this key?''
      | Some ActEnableAll \<Rightarrow> ''Are you sure you want to enable all keys?''
      | Some ActDisableAll \<Rightarrow> ''Are you sure you want to disable all enabled keys?''
      | Some ActDeleteDisabled \<Rightarrow>
          ''Are you sure you want to delete all auto-disabled keys? This action cannot be undone.'')"

definition isDestructiveAction :: "confirm_action option \<Rightarrow> bool" where
  "isDestructiveAction action \<longleftrightarrow> action \<in> {Some ActDelete, Some ActDeleteDisabled, Some ActDisableAll}"

section \<open>Pending upstream changes\<close>

definition normalizeModelList :: "json list \<Rightarrow> jstr list" where
  "normalizeModelList models =
     dedup (filter (\<lambda>m. m \<noteq> []) (map (\<lambda>m. trim (json_str (jor (Some m) (JStr [])))) models))"

record upstream_meta =
  um_enabled :: bool
  um_pendingAddModels :: "jstr list"
  um_pendingRemoveModels :: "jstr list"

text \<open>A list value; anything truthy that is no array has no \<open>map\<close> and throws.\<close>

definition model_values :: "json option \<Rightarrow> js_error + json list" where
  "model_values v = (case jor v (JArr []) of JArr xs \<Rightarrow> Inr xs | _ \<Rightarrow> Inl TypeError)"

definition upstream_object :: "json \<Rightarrow> json option" where
  "upstream_object settings =
     (case settings of
        JObj _ \<Rightarrow> Some settings
      | JStr s \<Rightarrow> (case JSON_parse s of Some (JObj ob) \<Rightarrow> Some (JObj ob) | Some (JArr xs) \<Rightarrow> Some (JArr xs) | _ \<Rightarrow> None)
      | _ \<Rightarrow> None)"

definition upstream_field :: "json \<Rightarrow> string \<Rightarrow> json option" where
  "upstream_field v k = (case v of JObj ob \<Rightarrow> obj_get ob (js k) | _ \<Rightarrow> None)"

definition parseUpstreamUpdateMeta :: "json \<Rightarrow> js_error + upstream_meta" where
  "parseUpstreamUpdateMeta settings =
     (case upstream_object settings of
        None \<Rightarrow> Inr \<lparr>um_enabled = False, um_pendingAddModels = [], um_pendingRemoveModels = []\<rparr>
      | Some parsed \<Rightarrow>
          (case model_values (upstream_field parsed ''upstream_model_update_last_detected_models'') of
             Inl e \<Rightarrow> Inl e
           | Inr adds \<Rightarrow>
               (case model_values (upstream_field parsed ''upstream_model_update_last_removed_models'') of
                  Inl e \<Rightarrow> Inl e
                | Inr removes \<Rightarrow>
                    Inr \<lparr>um_enabled = (upstream_field parsed ''upstream_model_update_check_enabled'' = Some (JBool True)),
                         um_pendingAddModels = normalizeModelList adds,
                         um_pendingRemoveModels = normalizeModelList removes\<rparr>)))"

section \<open>Channels by tag: equality with grouping\<close>

lemma dedup_snoc: "dedup (xs @ [x]) = (if x \<in> set xs then dedup xs else dedup xs @ [x])"
  by (induction xs) auto

lemma add_child_fields [simp]:
  "tr_tag (add_child r c) = tr_tag r" "tr_children (add_child r c) = tr_children r @ [c]"
  "tr_status (add_child r c) = status_in (tr_status r) (ch_status c)"
  by (simp_all add: add_child_def Let_def)

definition tag_group :: "jstr \<Rightarrow> channel list \<Rightarrow> tag_row" where
  "tag_group t cs = foldl add_child (new_tag_row t) (filter (\<lambda>c. tag_of c = t) cs)"

lemma tag_group_tag [simp]: "tr_tag (tag_group t cs) = t"
proof -
  have "tr_tag (foldl add_child r xs) = tr_tag r" for r xs
    by (induction xs arbitrary: r) auto
  then show ?thesis by (simp add: tag_group_def new_tag_row_def)
qed

lemma tag_group_snoc:
  "tag_group t (cs @ [c]) = (if tag_of c = t then add_child (tag_group t cs) c else tag_group t cs)"
  by (simp add: tag_group_def)

lemma add_to_rows_groups:
  "distinct ts \<Longrightarrow> add_to_rows (map (\<lambda>t. tag_group t cs) ts) c =
     (if tag_of c \<in> set ts then map (\<lambda>t. tag_group t (cs @ [c])) ts
      else map (\<lambda>t. tag_group t (cs @ [c])) ts @ [add_child (new_tag_row (tag_of c)) c])"
  by (induction ts) (auto simp: tag_group_snoc)

lemma aggregate_groups: "aggregateChannelsByTag cs = map (\<lambda>t. tag_group t cs) (dedup (map tag_of cs))"
proof (induction cs rule: rev_induct)
  case (snoc c cs)
  have "tag_group (tag_of c) (cs @ [c]) = add_child (new_tag_row (tag_of c)) c" if "tag_of c \<notin> set (map tag_of cs)"
  proof -
    have "filter (\<lambda>d. tag_of d = tag_of c) cs = []" using that unfolding filter_empty_conv by (metis image_eqI set_map)
    then show ?thesis by (simp add: tag_group_def)
  qed
  then show ?case
    using snoc add_to_rows_groups [of "dedup (map tag_of cs)" cs c]
    by (auto simp: aggregateChannelsByTag_def dedup_snoc simp del: set_map)
qed (simp add: aggregateChannelsByTag_def)

lemma tag_group_children: "tr_children (tag_group t cs) = filter (\<lambda>c. tag_of c = t) cs"
proof -
  have "tr_children (foldl add_child r xs) = tr_children r @ xs" for r xs
    by (induction xs arbitrary: r) auto
  then show ?thesis by (simp add: tag_group_def new_tag_row_def)
qed

lemma tag_group_status:
  "tr_status (tag_group t cs) = Some (num_of_nat 1) \<longleftrightarrow> list_ex isChannelEnabled (filter (\<lambda>c. tag_of c = t) cs)"
proof -
  have "tr_status (foldl add_child r xs) = Some (num_of_nat 1) \<longleftrightarrow>
      tr_status r = Some (num_of_nat 1) \<or> list_ex isChannelEnabled xs" for r xs
    by (induction xs arbitrary: r) (auto simp: status_in_def isChannelEnabled_def split: option.splits)
  then show ?thesis by (simp add: tag_group_def new_tag_row_def)
qed

section \<open>Duplicate keys\<close>

lemma dedup_lines_eq:
  "dedup_lines kept ls = kept @ filter (\<lambda>k. k \<notin> set kept) (dedup (filter (\<lambda>k. k \<noteq> []) (map trim ls)))"
proof (induction ls arbitrary: kept)
  case (Cons l ls)
  then show ?case by (auto intro!: filter_cong)
qed simp

lemma dedup_keys_eq:
  "deduplicatedText (deduplicateKeys s) = join [10] (dedup (filter (\<lambda>k. k \<noteq> []) (map trim (split_char 10 s))))"
proof (cases "trim s = []")
  case True
  have "trim w = []" if "w \<in> set (split_char 10 s)" for w
    using set_split_char [OF that] True by (auto simp: trim_eq_Nil)
  then have "filter (\<lambda>k. k \<noteq> []) (map trim (split_char 10 s)) = []" by (auto simp: filter_empty_conv)
  then show ?thesis using True by (simp add: deduplicateKeys_def)
qed (simp add: deduplicateKeys_def Let_def dedup_lines_eq)

lemma clean_lines:
  assumes "list_all (\<lambda>k. k \<noteq> [] \<and> trimmed k \<and> 10 \<notin> set k) ks" "distinct ks" "ks \<noteq> []"
  shows "deduplicateKeys (join [10] ks) =
    \<lparr>deduplicatedText = join [10] ks, beforeCount = length ks, afterCount = length ks, removedCount = 0\<rparr>"
proof -
  have sp: "split_char 10 (join [10] ks) = ks" using assms by (intro split_join_char) (auto simp: list_all_iff)
  have "filter (\<lambda>k. k \<noteq> []) (map trim ks) = ks"
    using assms(1) by (induction ks) (auto simp: trim_id)
  then have d: "dedup_lines [] ks = ks" using assms(2) by (simp add: dedup_lines_eq dedup_distinct)
  have "trim (join [10] ks) \<noteq> []"
  proof -
    obtain k ks' where ks: "ks = k # ks'" using assms(3) by (cases ks) auto
    then have "hd k \<in> set (join [10] ks)" "\<not> is_ws (hd k)"
      using assms(1) by (cases ks'; auto simp: trimmed_def)+
    then show ?thesis unfolding trim_eq_Nil by blast
  qed
  then show ?thesis by (simp add: deduplicateKeys_def Let_def sp d)
qed

section \<open>Properties\<close>

text \<open>C30: The tree by tag groups the channels: one row per tag in order of first appearance, each with exactly the channels of that tag in
  their order, so every channel is in one row; and a row is shown as enabled exactly when one of its channels is.\<close>

theorem channels_by_tag:
  "map tr_tag (aggregateChannelsByTag cs) = dedup (map tag_of cs) \<and>
   map tr_children (aggregateChannelsByTag cs) = map (\<lambda>t. filter (\<lambda>c. tag_of c = t) cs) (dedup (map tag_of cs)) \<and>
   mset (concat (map tr_children (aggregateChannelsByTag cs))) = mset cs \<and>
   map (\<lambda>r. tr_status r = Some (num_of_nat 1)) (aggregateChannelsByTag cs) =
     map (\<lambda>r. list_ex isChannelEnabled (tr_children r)) (aggregateChannelsByTag cs)"
proof -
  have "mset (concat (map (\<lambda>t. filter (\<lambda>c. tag_of c = t) xs) ts)) = mset (filter (\<lambda>c. tag_of c \<in> set ts) xs)"
    if "distinct ts" for ts xs
    using that
  proof (induction ts)
    case (Cons t ts)
    have "mset (filter (\<lambda>c. tag_of c \<in> set (t # ts)) xs) =
        mset (filter (\<lambda>c. tag_of c = t) xs) + mset (filter (\<lambda>c. tag_of c \<in> set ts) xs)"
      using Cons.prems by (induction xs) auto
    then show ?case using Cons by simp
  qed simp
  from this [of "dedup (map tag_of cs)" cs]
  have "mset (concat (map (\<lambda>t. filter (\<lambda>c. tag_of c = t) cs) (dedup (map tag_of cs)))) = mset cs"
    by (simp add: filter_id_conv)
  then show ?thesis
    by (simp add: aggregate_groups tag_group_children tag_group_status comp_def del: One_nat_def)
qed

text \<open>Removing duplicate keys is final: doing it again changes nothing and reports nothing removed, and the number removed is never
  negative.\<close>

lemma deduplicateKeys_idempotent:
  "deduplicatedText (deduplicateKeys (deduplicatedText (deduplicateKeys s))) = deduplicatedText (deduplicateKeys s) \<and>
   removedCount (deduplicateKeys (deduplicatedText (deduplicateKeys s))) = 0 \<and> 0 \<le> removedCount (deduplicateKeys s)"
proof -
  let ?ks = "dedup (filter (\<lambda>k. k \<noteq> []) (map trim (split_char 10 s)))"
  have "list_all (\<lambda>k. k \<noteq> [] \<and> trimmed k \<and> 10 \<notin> set k) ?ks"
    using split_char_no_sep [of _ 10 s] set_trim by (fastforce simp: list_all_iff)
  then have "?ks \<noteq> [] \<Longrightarrow> deduplicateKeys (join [10] ?ks) =
      \<lparr>deduplicatedText = join [10] ?ks, beforeCount = length ?ks, afterCount = length ?ks, removedCount = 0\<rparr>"
    by (intro clean_lines) auto
  moreover have "?ks = [] \<Longrightarrow> deduplicateKeys (join [10] ?ks) =
      \<lparr>deduplicatedText = [], beforeCount = 0, afterCount = 0, removedCount = 0\<rparr>"
    by (simp add: deduplicateKeys_def)
  moreover have "length (dedup_lines [] (split_char 10 s)) \<le> length (split_char 10 s)"
    unfolding dedup_lines_eq by (simp del: dedup.simps)
      (metis length_dedup_le length_filter_le length_map order_trans)
  then have "0 \<le> removedCount (deduplicateKeys s)" by (simp add: deduplicateKeys_def Let_def)
  ultimately show ?thesis unfolding dedup_keys_eq [of s] by (cases "?ks = []") simp_all
qed

text \<open>A masked key shows at most nineteen characters, but a key of four to eight characters is not masked at all: no other key of
  its length is shown the same way.\<close>

lemma masked_key_bounds:
  "length (formatChannelKey key False) \<le> 19 \<and>
   (4 \<le> length key \<and> length key \<le> 8 \<longrightarrow>
      {key'. length key' = length key \<and> formatChannelKey key' False = formatChannelKey key False} = {key})"
proof -
  have "key' = key" if k: "4 \<le> length key" "length key \<le> 8" "length key' = length key"
      and e: "formatChannelKey key' False = formatChannelKey key False" for key'
  proof -
    have "key \<noteq> []" "key' \<noteq> []" using k by auto
    then have "take 4 key' @ js ''...'' @ slice_end 4 key' = take 4 key @ js ''...'' @ slice_end 4 key"
      using e k by (simp add: formatChannelKey_def)
    then have 1: "take 4 key' = take 4 key" and 2: "drop (length key - 4) key' = drop (length key - 4) key"
      using k by (simp_all add: slice_end_def append_eq_append_conv)
    have "drop 4 xs = drop (8 - length key) (drop (length key - 4) xs)" for xs :: jstr
      using k(1,2) by simp
    then have "drop 4 key' = drop 4 key" using 2 by metis
    with 1 show ?thesis by (metis append_take_drop_id)
  qed
  moreover have "length (formatChannelKey key False) \<le> 19"
    by (auto simp: formatChannelKey_def slice_end_def js_lit min_def)
  ultimately show ?thesis by blast
qed

text \<open>The list of channel types offers every type but the unknown one exactly once, with its label.\<close>

lemma channel_type_options:
  "mset CHANNEL_TYPE_OPTIONS = mset (filter (\<lambda>(i, _). i \<noteq> 0) CHANNEL_TYPES) \<and> distinct (map fst CHANNEL_TYPE_OPTIONS)"
proof -
  have d: "distinct (map fst CHANNEL_TYPES)" "distinct CHANNEL_TYPE_DISPLAY_ORDER" "0 \<notin> set CHANNEL_TYPE_DISPLAY_ORDER"
    by (simp_all add: CHANNEL_TYPES_def CHANNEL_TYPE_DISPLAY_ORDER_def)
  have o: "set ordered_options = {(i, l). i \<in> set CHANNEL_TYPE_DISPLAY_ORDER \<and> (i, l) \<in> set CHANNEL_TYPES}"
    unfolding ordered_options_def set_map_filter using d(1) by (auto simp: map_of_eq_Some_iff)
  have "map fst (List.map_filter (\<lambda>i. map_option (Pair i) (f i)) xs) = filter (\<lambda>i. f i \<noteq> None) xs" for f :: "nat \<Rightarrow> string option" and xs
    by (induction xs) (auto simp: map_filter_simps split: option.split)
  then have do: "distinct (map fst ordered_options)" unfolding ordered_options_def using d(2) by simp
  have dd: "distinct (map fst (ordered_options @ filter (\<lambda>(i, label). i \<noteq> 0 \<and> i \<notin> set (map fst ordered_options)) CHANNEL_TYPES))"
    using do d(1) by (force simp: distinct_map_filter)
  moreover have "set CHANNEL_TYPE_OPTIONS = set (filter (\<lambda>(i, _). i \<noteq> 0) CHANNEL_TYPES)"
    unfolding CHANNEL_TYPE_OPTIONS_def using o d(3) by (auto simp: image_iff)
  moreover have "distinct (filter (\<lambda>(i, _). i \<noteq> 0) CHANNEL_TYPES)" using d(1) by (simp add: distinct_map)
  ultimately show ?thesis
    unfolding CHANNEL_TYPE_OPTIONS_def [symmetric] by (metis set_eq_iff_mset_eq_distinct distinct_map)
qed

end
