(* ===== verification/Channel_Form.thy ===== *)
theory Channel_Form
  imports Channel_Types Model_Mapping
begin

text \<open>
  The channel editor's form (features/channels/lib/channel-form.ts): reading a channel into form values, the two JSON
  texts a channel stores, and the payloads that create and update one.  The flat form of the source is grouped here by
  where its values are stored.  An optional field is always read with a default (\<open>|| ''\<close>, \<open>=== true\<close>), so an
  absent one is that default, except where the code tells them apart; values that come unchecked out of a stored JSON text
  are JSON values.  The lemmas show what survives saving and opening a channel again, and which cleared fields the server
  keeps.
\<close>

section \<open>Form values\<close>

datatype multi_key_mode = Single | Batch | MultiToSingle
datatype key_mode = Append | Replace

text \<open>Values stored in the \<open>setting\<close> text, and in the \<open>settings\<close> text.\<close>

record extra_settings =
  es_force_format :: json
  es_thinking_to_content :: json
  es_proxy :: json
  es_pass_through_body_enabled :: json
  es_system_prompt :: json
  es_system_prompt_override :: json

record special_settings =
  sp_is_enterprise_account :: bool
  sp_vertex_key_type :: json
  sp_aws_key_type :: json
  sp_azure_responses_version :: json
  sp_allow_service_tier :: bool
  sp_disable_store :: bool
  sp_allow_safety_identifier :: bool
  sp_allow_include_obfuscation :: bool
  sp_allow_inference_geo :: bool
  sp_allow_speed :: bool
  sp_claude_beta_query :: bool
  sp_check_enabled :: bool
  sp_auto_sync_enabled :: bool
  sp_ignored_models :: jstr

record channel_form =
  cf_name :: jstr
  cf_type :: jsnum
  cf_base_url :: jstr
  cf_key :: jstr
  cf_openai_organization :: jstr
  cf_models :: jstr
  cf_group :: "jstr list"
  cf_model_mapping :: jstr
  cf_priority :: jsnum
  cf_weight :: jsnum
  cf_test_model :: jstr
  cf_auto_ban :: "jsnum option"
  cf_status :: jsnum
  cf_status_code_mapping :: jstr
  cf_tag :: jstr
  cf_remark :: jstr
  cf_setting :: jstr
  cf_param_override :: jstr
  cf_header_override :: jstr
  cf_settings :: jstr
  cf_other :: jstr
  cf_multi_key_mode :: "multi_key_mode option"
  cf_multi_key_type :: "multi_key_type option"
  cf_batch_add_set_key_prefix_2_name :: "bool option"
  cf_key_mode :: "key_mode option"
  cf_extra :: extra_settings
  cf_special :: special_settings

text \<open>The bounds that the schema puts on the fields.\<close>

definition channelFormSchema :: "channel_form \<Rightarrow> bool" where
  "channelFormSchema f \<longleftrightarrow> 1 \<le> length (cf_name f) \<and> \<not> num_less (cf_type f) (Fin 0 0) \<and> cf_type f \<noteq> NaN \<and>
     1 \<le> length (cf_models f) \<and> 1 \<le> length (cf_group f) \<and> length (cf_remark f) \<le> 255"

definition default_extra :: extra_settings where
  "default_extra =
     \<lparr>es_force_format = JBool False, es_thinking_to_content = JBool False, es_proxy = JStr [],
      es_pass_through_body_enabled = JBool False, es_system_prompt = JStr [], es_system_prompt_override = JBool False\<rparr>"

definition default_special :: special_settings where
  "default_special =
     \<lparr>sp_is_enterprise_account = False, sp_vertex_key_type = JStr (js ''json''), sp_aws_key_type = JStr (js ''ak_sk''),
      sp_azure_responses_version = JStr [], sp_allow_service_tier = False, sp_disable_store = False,
      sp_allow_safety_identifier = False, sp_allow_include_obfuscation = False, sp_allow_inference_geo = False,
      sp_allow_speed = False, sp_claude_beta_query = False, sp_check_enabled = False, sp_auto_sync_enabled = False,
      sp_ignored_models = []\<rparr>"

definition CHANNEL_FORM_DEFAULT_VALUES :: channel_form where
  "CHANNEL_FORM_DEFAULT_VALUES =
     \<lparr>cf_name = [], cf_type = num_of_nat 1, cf_base_url = [], cf_key = [], cf_openai_organization = [], cf_models = [],
      cf_group = [js ''default''], cf_model_mapping = [], cf_priority = num_of_nat 0, cf_weight = num_of_nat 0,
      cf_test_model = [], cf_auto_ban = Some (num_of_nat 1), cf_status = ENABLED, cf_status_code_mapping = [], cf_tag = [],
      cf_remark = [], cf_setting = [], cf_param_override = [], cf_header_override = [], cf_settings = js ''{}'',
      cf_other = [], cf_multi_key_mode = Some Single, cf_multi_key_type = Some Random,
      cf_batch_add_set_key_prefix_2_name = Some False, cf_key_mode = Some Append, cf_extra = default_extra,
      cf_special = default_special\<rparr>"

section \<open>From a channel to the form\<close>

text \<open>A property of a value that is not null, and the test \<open>=== true\<close>.\<close>

definition field_of :: "json \<Rightarrow> string \<Rightarrow> json option" where
  "field_of v k = (case jget v (js k) of Inl _ \<Rightarrow> None | Inr r \<Rightarrow> r)"

definition is_true :: "json option \<Rightarrow> bool" where
  "is_true v \<longleftrightarrow> v = Some (JBool True)"

text \<open>The parsed text, unless it is empty, no JSON, or null (reading a property of which throws into the same handler).\<close>

definition stored_value :: "jstr \<Rightarrow> json option" where
  "stored_value s =
     (if s = [] then None
      else (case JSON_parse s of None \<Rightarrow> None | Some v \<Rightarrow> if v = JNull then None else Some v))"

definition read_extra :: "jstr \<Rightarrow> extra_settings" where
  "read_extra setting =
     (case stored_value setting of
        None \<Rightarrow> default_extra
      | Some parsed \<Rightarrow>
          \<lparr>es_force_format = jor (field_of parsed ''force_format'') (JBool False),
           es_thinking_to_content = jor (field_of parsed ''thinking_to_content'') (JBool False),
           es_proxy = jor (field_of parsed ''proxy'') (JStr []),
           es_pass_through_body_enabled = jor (field_of parsed ''pass_through_body_enabled'') (JBool False),
           es_system_prompt = jor (field_of parsed ''system_prompt'') (JStr []),
           es_system_prompt_override = jor (field_of parsed ''system_prompt_override'') (JBool False)\<rparr>)"

definition ignored_models_text :: "json option \<Rightarrow> jstr" where
  "ignored_models_text v = (case v of Some (JArr xs) \<Rightarrow> join (js '','') (map json_elem_str xs) | _ \<Rightarrow> [])"

definition read_special :: "jstr \<Rightarrow> special_settings" where
  "read_special settings =
     (case stored_value settings of
        None \<Rightarrow> default_special
      | Some parsed \<Rightarrow>
          \<lparr>sp_is_enterprise_account = is_true (field_of parsed ''openrouter_enterprise''),
           sp_vertex_key_type = jor (field_of parsed ''vertex_key_type'') (JStr (js ''json'')),
           sp_aws_key_type = jor (field_of parsed ''aws_key_type'') (JStr (js ''ak_sk'')),
           sp_azure_responses_version = jor (field_of parsed ''azure_responses_version'') (JStr []),
           sp_allow_service_tier = is_true (field_of parsed ''allow_service_tier''),
           sp_disable_store = is_true (field_of parsed ''disable_store''),
           sp_allow_safety_identifier = is_true (field_of parsed ''allow_safety_identifier''),
           sp_allow_include_obfuscation = is_true (field_of parsed ''allow_include_obfuscation''),
           sp_allow_inference_geo = is_true (field_of parsed ''allow_inference_geo''),
           sp_allow_speed = is_true (field_of parsed ''allow_speed''),
           sp_claude_beta_query = is_true (field_of parsed ''claude_beta_query''),
           sp_check_enabled = is_true (field_of parsed ''upstream_model_update_check_enabled''),
           sp_auto_sync_enabled = is_true (field_of parsed ''upstream_model_update_auto_sync_enabled''),
           sp_ignored_models = ignored_models_text (field_of parsed ''upstream_model_update_ignored_models'')\<rparr>)"

definition comma_list :: "jstr \<Rightarrow> jstr list" where
  "comma_list s = filter (\<lambda>x. x \<noteq> []) (map trim (split_char (ch CHR '','') s))"

definition parseModels :: "jstr \<Rightarrow> jstr list" where
  "parseModels models = (if models = [] then [] else comma_list models)"

definition parseGroups :: "jstr \<Rightarrow> jstr list" where
  "parseGroups groups = (if groups = [] then [] else comma_list groups)"

definition formatModels :: "jstr list \<Rightarrow> jstr" where
  "formatModels models = join (js '','') models"

definition formatGroups :: "jstr list \<Rightarrow> jstr" where
  "formatGroups groups = join (js '','') groups"

definition transformChannelToFormDefaults :: "channel \<Rightarrow> channel_form" where
  "transformChannelToFormDefaults c =
     \<lparr>cf_name = ch_name c, cf_type = ch_type c, cf_base_url = str_or_empty (ch_base_url c), cf_key = [],
      cf_openai_organization = str_or_empty (ch_openai_organization c), cf_models = ch_models c,
      cf_group = parseGroups (if ch_group c = [] then js ''default'' else ch_group c),
      cf_model_mapping = str_or_empty (ch_model_mapping c),
      cf_priority = (case ch_priority c of None \<Rightarrow> num_of_nat 0 | Some p \<Rightarrow> or_zero p),
      cf_weight = (case ch_weight c of None \<Rightarrow> num_of_nat 0 | Some w \<Rightarrow> or_zero w),
      cf_test_model = str_or_empty (ch_test_model c),
      cf_auto_ban = Some (case ch_auto_ban c of None \<Rightarrow> num_of_nat 1 | Some a \<Rightarrow> a),
      cf_status = ch_status c, cf_status_code_mapping = str_or_empty (ch_status_code_mapping c),
      cf_tag = str_or_empty (ch_tag c), cf_remark = ch_remark c, cf_setting = str_or_empty (ch_setting c),
      cf_param_override = str_or_empty (ch_param_override c), cf_header_override = str_or_empty (ch_header_override c),
      cf_settings = (if ch_settings c = [] then js ''{}'' else ch_settings c), cf_other = ch_other c,
      cf_multi_key_mode = Some Single, cf_multi_key_type = Some (ci_multi_key_mode (ch_channel_info c)),
      cf_batch_add_set_key_prefix_2_name = Some False, cf_key_mode = Some Append,
      cf_extra = read_extra (str_or_empty (ch_setting c)), cf_special = read_special (ch_settings c)\<rparr>"

section \<open>The two JSON texts\<close>

definition buildSettingJSON :: "channel_form \<Rightarrow> jstr" where
  "buildSettingJSON f =
     JSON_stringify (JObj
       [(js ''force_format'', jor (Some (es_force_format (cf_extra f))) (JBool False)),
        (js ''thinking_to_content'', jor (Some (es_thinking_to_content (cf_extra f))) (JBool False)),
        (js ''proxy'', jor (Some (es_proxy (cf_extra f))) (JStr [])),
        (js ''pass_through_body_enabled'', jor (Some (es_pass_through_body_enabled (cf_extra f))) (JBool False)),
        (js ''system_prompt'', jor (Some (es_system_prompt (cf_extra f))) (JStr [])),
        (js ''system_prompt_override'', jor (Some (es_system_prompt_override (cf_extra f))) (JBool False))])"

text \<open>The object the update starts from: the stored text, or an empty object when it is empty or no JSON.\<close>

definition settings_start :: "channel_form \<Rightarrow> json" where
  "settings_start f =
     (if cf_settings f = [] \<or> cf_settings f = js ''{}'' then JObj []
      else (case JSON_parse (cf_settings f) of None \<Rightarrow> JObj [] | Some v \<Rightarrow> v))"

text \<open>Assignment of a value, or deletion of the key.\<close>

definition put_or_delete :: "jstr \<times> json option \<Rightarrow> json jobj \<Rightarrow> json jobj" where
  "put_or_delete kv ob = (case snd kv of None \<Rightarrow> obj_delete (fst kv) ob | Some v \<Rightarrow> obj_set (fst kv) v ob)"

definition type_is :: "channel_form \<Rightarrow> nat \<Rightarrow> bool" where
  "type_is f n \<longleftrightarrow> cf_type f = num_of_nat n"

definition flag_if :: "bool \<Rightarrow> bool \<Rightarrow> json option" where
  "flag_if applies b = (if applies then Some (JBool b) else None)"

text \<open>The assignments and deletions of the type-specific keys, in the order of the source.\<close>

definition type_updates :: "channel_form \<Rightarrow> (jstr \<times> json option) list" where
  "type_updates f =
     (let s = cf_special f
      in [(js ''vertex_key_type'',
             if type_is f 41 then Some (jor (Some (sp_vertex_key_type s)) (JStr (js ''json''))) else None),
          (js ''azure_responses_version'',
             if type_is f 3 \<and> jtruthy (sp_azure_responses_version s) then Some (sp_azure_responses_version s) else None),
          (js ''openrouter_enterprise'', flag_if (type_is f 20) (sp_is_enterprise_account s)),
          (js ''aws_key_type'', if type_is f 33 then Some (jor (Some (sp_aws_key_type s)) (JStr (js ''ak_sk''))) else None),
          (js ''allow_service_tier'', flag_if (type_is f 1 \<or> type_is f 14) (sp_allow_service_tier s)),
          (js ''disable_store'', flag_if (type_is f 1) (sp_disable_store s)),
          (js ''allow_safety_identifier'', flag_if (type_is f 1) (sp_allow_safety_identifier s)),
          (js ''allow_include_obfuscation'', flag_if (type_is f 1) (sp_allow_include_obfuscation s))] @
         (if type_is f 14 then [] else [(js ''allow_inference_geo'', flag_if (type_is f 1) (sp_allow_inference_geo s))]) @
         (if type_is f 14 then [(js ''allow_inference_geo'', Some (JBool (sp_allow_inference_geo s)))] else []) @
         [(js ''allow_speed'', flag_if (type_is f 14) (sp_allow_speed s)),
          (js ''claude_beta_query'', flag_if (type_is f 14) (sp_claude_beta_query s))])"

definition is_array :: "json option \<Rightarrow> bool" where
  "is_array v = (case v of Some (JArr _) \<Rightarrow> True | _ \<Rightarrow> False)"

definition is_number :: "json option \<Rightarrow> bool" where
  "is_number v = (case v of Some (JNum _) \<Rightarrow> True | _ \<Rightarrow> False)"

definition set_detected :: "bool \<Rightarrow> json jobj \<Rightarrow> json jobj" where
  "set_detected check ob =
     (if \<not> is_array (obj_get ob (js ''upstream_model_update_last_detected_models'')) \<or> \<not> check
      then obj_set (js ''upstream_model_update_last_detected_models'') (JArr []) ob else ob)"

definition set_check_time :: "json jobj \<Rightarrow> json jobj" where
  "set_check_time ob =
     (if \<not> is_number (obj_get ob (js ''upstream_model_update_last_check_time''))
      then obj_set (js ''upstream_model_update_last_check_time'') (JNum (num_of_nat 0)) ob else ob)"

definition upstream_updates :: "channel_form \<Rightarrow> json jobj \<Rightarrow> json jobj" where
  "upstream_updates f ob =
     (let s = cf_special f
      in if cf_type f \<in> set MODEL_FETCHABLE_TYPES
         then set_check_time (set_detected (sp_check_enabled s)
           (obj_set (js ''upstream_model_update_ignored_models'')
              (JArr (map JStr (dedup (comma_list (sp_ignored_models s)))))
              (obj_set (js ''upstream_model_update_auto_sync_enabled'')
                 (JBool (sp_check_enabled s \<and> sp_auto_sync_enabled s))
                 (obj_set (js ''upstream_model_update_check_enabled'') (JBool (sp_check_enabled s)) ob))))
         else ob)"

definition updated_settings :: "channel_form \<Rightarrow> json jobj \<Rightarrow> json jobj" where
  "updated_settings f ob = upstream_updates f (fold put_or_delete (type_updates f) ob)"

text \<open>
  On an array the assignments add named properties, which \<open>JSON.stringify\<close> leaves out; on null and on primitive
  values the first access throws.
\<close>

definition buildSettingsJSON :: "channel_form \<Rightarrow> js_error + jstr" where
  "buildSettingsJSON f =
     (case settings_start f of
        JObj ob \<Rightarrow> Inr (JSON_stringify (JObj (updated_settings f ob)))
      | JArr xs \<Rightarrow> Inr (JSON_stringify (JArr xs))
      | _ \<Rightarrow> Inl TypeError)"

section \<open>Payloads\<close>

definition str_or_null :: "jstr \<Rightarrow> json" where
  "str_or_null s = (if s = [] then JNull else JStr s)"

definition num_or_null :: "jsnum \<Rightarrow> json" where
  "num_or_null x = (if num_truthy x then JNum x else JNull)"

text \<open>The fields shared by both payloads after the key, with the two JSON texts.\<close>

definition shared_fields :: "channel_form \<Rightarrow> jstr \<Rightarrow> json jobj" where
  "shared_fields f settings =
     [(js ''openai_organization'', str_or_null (cf_openai_organization f)),
      (js ''models'', JStr (cf_models f)),
      (js ''group'', JStr (formatGroups (cf_group f))),
      (js ''model_mapping'', str_or_null (cf_model_mapping f)),
      (js ''priority'', num_or_null (cf_priority f)),
      (js ''weight'', num_or_null (cf_weight f)),
      (js ''test_model'', str_or_null (cf_test_model f)),
      (js ''auto_ban'', JNum (case cf_auto_ban f of None \<Rightarrow> num_of_nat 1 | Some a \<Rightarrow> a)),
      (js ''status'', JNum (cf_status f)),
      (js ''status_code_mapping'', str_or_null (cf_status_code_mapping f)),
      (js ''tag'', str_or_null (cf_tag f)),
      (js ''remark'', JStr (cf_remark f)),
      (js ''setting'', JStr (buildSettingJSON f)),
      (js ''param_override'', str_or_null (cf_param_override f)),
      (js ''header_override'', str_or_null (cf_header_override f)),
      (js ''settings'', JStr settings),
      (js ''other'', JStr (cf_other f))]"

text \<open>The loop that turns empty strings into null.\<close>

definition empty_to_null :: "json jobj \<Rightarrow> json jobj" where
  "empty_to_null ob = map (\<lambda>(k, v). (k, if v = JStr [] then JNull else v)) ob"

record create_payload =
  cp_mode :: multi_key_mode
  cp_multi_key_mode :: "multi_key_type option"
  cp_batch_add_set_key_prefix_2_name :: "bool option"
  cp_channel :: "json jobj"

definition create_mode :: "channel_form \<Rightarrow> multi_key_mode" where
  "create_mode f = (case cf_multi_key_mode f of None \<Rightarrow> Single | Some m \<Rightarrow> m)"

definition transformFormDataToCreatePayload :: "channel_form \<Rightarrow> js_error + create_payload" where
  "transformFormDataToCreatePayload f =
     (case buildSettingsJSON f of
        Inl e \<Rightarrow> Inl e
      | Inr settings \<Rightarrow>
          Inr \<lparr>cp_mode = create_mode f,
            cp_multi_key_mode = (if create_mode f = MultiToSingle then cf_multi_key_type f else None),
            cp_batch_add_set_key_prefix_2_name =
              (if create_mode f = Batch then cf_batch_add_set_key_prefix_2_name f else None),
            cp_channel = empty_to_null
              ([(js ''name'', JStr (cf_name f)), (js ''type'', JNum (cf_type f)),
                (js ''base_url'', str_or_null (cf_base_url f)), (js ''key'', JStr (cf_key f))] @
               shared_fields f settings)\<rparr>)"

definition explicit_texts :: "channel_form \<Rightarrow> json jobj \<Rightarrow> json jobj" where
  "explicit_texts f p =
     obj_set (js ''header_override'') (JStr (cf_header_override f))
       (obj_set (js ''param_override'') (JStr (cf_param_override f))
         (obj_set (js ''status_code_mapping'') (JStr (cf_status_code_mapping f))
           (obj_set (js ''model_mapping'') (JStr (cf_model_mapping f)) p)))"

definition transformFormDataToUpdatePayload :: "channel_form \<Rightarrow> jsnum \<Rightarrow> js_error + json jobj" where
  "transformFormDataToUpdatePayload f channelId =
     (case buildSettingsJSON f of
        Inl e \<Rightarrow> Inl e
      | Inr settings \<Rightarrow>
          Inr (explicit_texts f (empty_to_null
            ([(js ''id'', JNum channelId), (js ''name'', JStr (cf_name f)), (js ''type'', JNum (cf_type f)),
              (js ''base_url'', str_or_null (cf_base_url f))] @
             shared_fields f settings @
             (if trim (cf_key f) \<noteq> [] then [(js ''key'', JStr (cf_key f))] else [])))))"

section \<open>Validation helpers\<close>

definition validateJSON :: "jstr \<Rightarrow> bool" where
  "validateJSON s = (if trim s = [] then True else JSON_parse s \<noteq> None)"

definition validateModelMapping :: "jstr \<Rightarrow> bool" where
  "validateModelMapping s = (if trim s = [] then True else validateJSON s)"

end
