(* ===== verification/Channel_Form_Rules.thy ===== *)
theory Channel_Form_Rules
  imports Channel_Form
begin

text \<open>
  Properties of the channel form: what the settings texts hold after saving, what opening the channel again shows, when
  saving throws, and which cleared fields the server keeps.
\<close>

section \<open>What the settings text holds after saving\<close>

lemma put_or_delete_assign: "put_or_delete kv ob = jo.assign kv ob"
  by (cases kv; cases "snd kv") (auto simp: put_or_delete_def)

lemma get_type_updates:
  assumes "distinct (map fst ob)"
  shows "obj_get (fold put_or_delete us ob) k = (case map_of (rev us) k of None \<Rightarrow> obj_get ob k | Some x \<Rightarrow> x)"
  using jo.get_assigns [OF assms, of us k] by (simp add: put_or_delete_assign [abs_def])

lemma num_of_nat_types:
  "num_of_nat 1 = Fin 1 0" "num_of_nat 3 = Fin 3 0" "num_of_nat 14 = Fin 7 1" "num_of_nat 20 = Fin 5 2"
  "num_of_nat 33 = Fin 33 0" "num_of_nat 41 = Fin 41 0" "num_of_nat 0 = Fin 0 0"
  by code_simp+

lemma type_is_unique: "type_is f m \<Longrightarrow> type_is f n \<longleftrightarrow> num_of_nat m = num_of_nat n"
  by (simp add: type_is_def)

definition type_keys :: "jstr list" where
  "type_keys = [js ''vertex_key_type'', js ''azure_responses_version'', js ''openrouter_enterprise'', js ''aws_key_type'',
     js ''allow_service_tier'', js ''disable_store'', js ''allow_safety_identifier'', js ''allow_include_obfuscation'',
     js ''allow_inference_geo'', js ''allow_speed'', js ''claude_beta_query'']"

definition upstream_keys :: "jstr list" where
  "upstream_keys =
    [js ''upstream_model_update_check_enabled'', js ''upstream_model_update_auto_sync_enabled'',
     js ''upstream_model_update_ignored_models'', js ''upstream_model_update_last_detected_models'',
     js ''upstream_model_update_last_check_time'']"

lemma keys_type_updates: "map fst (type_updates f) = type_keys"
  by (simp add: type_updates_def type_keys_def Let_def)

lemma get_upstream_other: "k \<notin> set upstream_keys \<Longrightarrow> obj_get (upstream_updates f ob) k = obj_get ob k"
  by (simp add: upstream_updates_def set_check_time_def set_detected_def Let_def obj_get_set upstream_keys_def)

lemma unmanaged_kept:
  assumes "distinct (map fst ob)" "k \<notin> set type_keys" "k \<notin> set upstream_keys"
  shows "obj_get (updated_settings f ob) k = obj_get ob k"
proof -
  have "k \<notin> fst ` set (type_updates f)" using assms(2) keys_type_updates [of f] by (metis set_map)
  then have "map_of (rev (type_updates f)) k = None" by (simp add: map_of_eq_None_iff)
  then show ?thesis
    using get_type_updates [OF assms(1)] get_upstream_other [OF assms(3)] by (simp add: updated_settings_def)
qed

text \<open>The type-specific values that apply to the form's type; the values of the upstream checks stay as stored for other types.\<close>

definition special_of_type :: "channel_form \<Rightarrow> json jobj \<Rightarrow> special_settings" where
  "special_of_type f ob =
     (let s = cf_special f; fetch = cf_type f \<in> set MODEL_FETCHABLE_TYPES
      in \<lparr>sp_is_enterprise_account = type_is f 20 \<and> sp_is_enterprise_account s,
          sp_vertex_key_type = (if type_is f 41 then jor (Some (sp_vertex_key_type s)) (JStr (js ''json'')) else JStr (js ''json'')),
          sp_aws_key_type = (if type_is f 33 then jor (Some (sp_aws_key_type s)) (JStr (js ''ak_sk'')) else JStr (js ''ak_sk'')),
          sp_azure_responses_version = (if type_is f 3 then jor (Some (sp_azure_responses_version s)) (JStr []) else JStr []),
          sp_allow_service_tier = (type_is f 1 \<or> type_is f 14) \<and> sp_allow_service_tier s,
          sp_disable_store = type_is f 1 \<and> sp_disable_store s,
          sp_allow_safety_identifier = type_is f 1 \<and> sp_allow_safety_identifier s,
          sp_allow_include_obfuscation = type_is f 1 \<and> sp_allow_include_obfuscation s,
          sp_allow_inference_geo = (type_is f 1 \<or> type_is f 14) \<and> sp_allow_inference_geo s,
          sp_allow_speed = type_is f 14 \<and> sp_allow_speed s,
          sp_claude_beta_query = type_is f 14 \<and> sp_claude_beta_query s,
          sp_check_enabled =
            (if fetch then sp_check_enabled s else is_true (obj_get ob (js ''upstream_model_update_check_enabled''))),
          sp_auto_sync_enabled =
            (if fetch then sp_check_enabled s \<and> sp_auto_sync_enabled s
             else is_true (obj_get ob (js ''upstream_model_update_auto_sync_enabled''))),
          sp_ignored_models =
            (if fetch then join (js '','') (dedup (comma_list (sp_ignored_models s)))
             else ignored_models_text (obj_get ob (js ''upstream_model_update_ignored_models'')))\<rparr>)"

lemma get_upstream_keys:
  "obj_get (upstream_updates f ob) (js ''upstream_model_update_check_enabled'') =
     (if cf_type f \<in> set MODEL_FETCHABLE_TYPES then Some (JBool (sp_check_enabled (cf_special f)))
      else obj_get ob (js ''upstream_model_update_check_enabled''))"
  "obj_get (upstream_updates f ob) (js ''upstream_model_update_auto_sync_enabled'') =
     (if cf_type f \<in> set MODEL_FETCHABLE_TYPES
      then Some (JBool (sp_check_enabled (cf_special f) \<and> sp_auto_sync_enabled (cf_special f)))
      else obj_get ob (js ''upstream_model_update_auto_sync_enabled''))"
  "obj_get (upstream_updates f ob) (js ''upstream_model_update_ignored_models'') =
     (if cf_type f \<in> set MODEL_FETCHABLE_TYPES
      then Some (JArr (map JStr (dedup (comma_list (sp_ignored_models (cf_special f))))))
      else obj_get ob (js ''upstream_model_update_ignored_models''))"
  by (simp_all add: upstream_updates_def set_check_time_def set_detected_def Let_def obj_get_set)

lemma map_of_rev_distinct: "distinct (map fst xs) \<Longrightarrow> map_of (rev xs) k = map_of xs k"
proof -
  assume "distinct (map fst xs)"
  then have "map_of (rev xs) k = Some y \<longleftrightarrow> map_of xs k = Some y" for y
    by (simp add: map_of_eq_Some_iff rev_map [symmetric])
  then show ?thesis by (metis option.exhaust)
qed

lemma get_type_key:
  assumes "distinct (map fst ob)" "map_of (type_updates f) k = Some x" "k \<notin> set upstream_keys"
  shows "obj_get (updated_settings f ob) k = x"
proof -
  have "distinct (map fst (type_updates f))" unfolding keys_type_updates by (simp add: type_keys_def)
  then have "map_of (rev (type_updates f)) k = Some x" using assms(2) by (simp add: map_of_rev_distinct)
  then show ?thesis
    using get_type_updates [OF assms(1)] get_upstream_other [OF assms(3)] by (simp add: updated_settings_def)
qed

lemma get_upstream_key:
  assumes "distinct (map fst ob)" "k \<in> set upstream_keys"
  shows "obj_get (fold put_or_delete (type_updates f) ob) k = obj_get ob k"
proof -
  have "k \<notin> set type_keys" using assms(2) by (auto simp: upstream_keys_def type_keys_def)
  then have "map_of (rev (type_updates f)) k = None"
    using keys_type_updates [of f] by (metis map_of_eq_None_iff set_map set_rev rev_map)
  then show ?thesis using get_type_updates [OF assms(1)] by simp
qed

lemma is_true_flag: "is_true (flag_if a b) \<longleftrightarrow> a \<and> b" "is_true (Some (JBool b)) \<longleftrightarrow> b" "\<not> is_true None"
  by (auto simp: is_true_def flag_if_def)

lemma jor_jor: "jor (Some (jor x (JStr s))) (JStr s) = jor x (JStr s)"
  by (auto simp: jor_def split: option.split)

lemma read_special_updated:
  assumes "distinct (map fst ob)" "stored_value t = Some (JObj (updated_settings f ob))"
  shows "read_special t = special_of_type f ob"
proof -
  note g = get_type_key [OF assms(1)]
  note u = get_upstream_key [OF assms(1), of _ f]
  have 1: "obj_get (updated_settings f ob) (js ''openrouter_enterprise'') = flag_if (type_is f 20) (sp_is_enterprise_account (cf_special f))"
    by (rule g) (simp_all add: type_updates_def Let_def upstream_keys_def)
  have 2: "obj_get (updated_settings f ob) (js ''vertex_key_type'') =
     (if type_is f 41 then Some (jor (Some (sp_vertex_key_type (cf_special f))) (JStr (js ''json''))) else None)"
    by (rule g) (simp_all add: type_updates_def Let_def upstream_keys_def)
  have 3: "obj_get (updated_settings f ob) (js ''aws_key_type'') =
     (if type_is f 33 then Some (jor (Some (sp_aws_key_type (cf_special f))) (JStr (js ''ak_sk''))) else None)"
    by (rule g) (simp_all add: type_updates_def Let_def upstream_keys_def)
  have 4: "obj_get (updated_settings f ob) (js ''azure_responses_version'') =
     (if type_is f 3 \<and> jtruthy (sp_azure_responses_version (cf_special f)) then Some (sp_azure_responses_version (cf_special f)) else None)"
    by (rule g) (simp_all add: type_updates_def Let_def upstream_keys_def)
  have 5: "obj_get (updated_settings f ob) (js ''allow_service_tier'') =
      flag_if (type_is f 1 \<or> type_is f 14) (sp_allow_service_tier (cf_special f))"
    "obj_get (updated_settings f ob) (js ''disable_store'') = flag_if (type_is f 1) (sp_disable_store (cf_special f))"
    "obj_get (updated_settings f ob) (js ''allow_safety_identifier'') = flag_if (type_is f 1) (sp_allow_safety_identifier (cf_special f))"
    "obj_get (updated_settings f ob) (js ''allow_include_obfuscation'') = flag_if (type_is f 1) (sp_allow_include_obfuscation (cf_special f))"
    "obj_get (updated_settings f ob) (js ''allow_speed'') = flag_if (type_is f 14) (sp_allow_speed (cf_special f))"
    "obj_get (updated_settings f ob) (js ''claude_beta_query'') = flag_if (type_is f 14) (sp_claude_beta_query (cf_special f))"
    by (rule g, simp_all add: type_updates_def Let_def upstream_keys_def)+
  have 6: "obj_get (updated_settings f ob) (js ''allow_inference_geo'') =
      flag_if (type_is f 1 \<or> type_is f 14) (sp_allow_inference_geo (cf_special f))"
    by (rule g) (simp_all add: type_updates_def Let_def upstream_keys_def flag_if_def)
  show ?thesis
    unfolding read_special_def assms(2) special_of_type_def
    by (simp add: field_of_def 1 2 3 4 5 6 is_true_flag jor_jor Let_def)
      (simp add: jor_def updated_settings_def get_upstream_keys u upstream_keys_def is_true_flag ignored_models_text_def comp_def)
qed

section \<open>The texts read back\<close>

lemma str_ok_Nil: "str_ok []"
  by (simp add: str_ok_def)

lemma str_ok_comma_list: "str_ok s \<Longrightarrow> list_all str_ok (comma_list s)"
  using set_split_char [of _ 44 s] set_trim by (fastforce simp: comma_list_def str_ok_def list_all_iff)

definition special_ok :: "special_settings \<Rightarrow> bool" where
  "special_ok s \<longleftrightarrow> json_wf (sp_vertex_key_type s) \<and> json_wf (sp_aws_key_type s) \<and>
     json_wf (sp_azure_responses_version s) \<and> str_ok (sp_ignored_models s)"

definition extra_ok :: "extra_settings \<Rightarrow> bool" where
  "extra_ok e \<longleftrightarrow> json_wf (es_force_format e) \<and> json_wf (es_thinking_to_content e) \<and> json_wf (es_proxy e) \<and>
     json_wf (es_pass_through_body_enabled e) \<and> json_wf (es_system_prompt e) \<and> json_wf (es_system_prompt_override e)"

definition normal_extra :: "extra_settings \<Rightarrow> extra_settings" where
  "normal_extra e =
     \<lparr>es_force_format = jor (Some (es_force_format e)) (JBool False),
      es_thinking_to_content = jor (Some (es_thinking_to_content e)) (JBool False),
      es_proxy = jor (Some (es_proxy e)) (JStr []),
      es_pass_through_body_enabled = jor (Some (es_pass_through_body_enabled e)) (JBool False),
      es_system_prompt = jor (Some (es_system_prompt e)) (JStr []),
      es_system_prompt_override = jor (Some (es_system_prompt_override e)) (JBool False)\<rparr>"

lemma json_wf_jor: "json_wf v \<Longrightarrow> json_wf d \<Longrightarrow> json_wf (jor (Some v) d)"
  by (simp add: jor_def)

lemma json_wf_put_or_delete:
  "json_wf (JObj ob) \<Longrightarrow> str_ok (fst kv) \<Longrightarrow> pred_option json_wf (snd kv) \<Longrightarrow> json_wf (JObj (put_or_delete kv ob))"
  unfolding put_or_delete_def by (cases "snd kv") (simp_all only: option.case option.pred_inject json_wf_delete json_wf_set)

lemma json_wf_updates:
  "json_wf (JObj ob) \<Longrightarrow> list_all (\<lambda>kv. str_ok (fst kv) \<and> pred_option json_wf (snd kv)) us \<Longrightarrow>
   json_wf (JObj (fold put_or_delete us ob))"
proof (induction us arbitrary: ob)
  case (Cons u us)
  then have "json_wf (JObj (put_or_delete u ob))" by (intro json_wf_put_or_delete) auto
  then show ?case using Cons by (simp del: json_wf.simps)
qed simp

lemma json_wf_special:
  assumes "special_ok (cf_special f)" "json_wf (JObj ob)"
  shows "json_wf (JObj (updated_settings f ob))"
proof -
  have "list_all (\<lambda>kv. str_ok (fst kv) \<and> pred_option json_wf (snd kv)) (type_updates f)"
    using assms(1) by (simp add: type_updates_def Let_def flag_if_def special_ok_def json_wf_jor)
  then have 1: "json_wf (JObj (fold put_or_delete (type_updates f) ob))" by (rule json_wf_updates [OF assms(2)])
  have 2: "json_wf (JArr (map JStr (dedup (comma_list (sp_ignored_models (cf_special f))))))"
    using str_ok_comma_list [of "sp_ignored_models (cf_special f)"] assms(1)
    by (simp add: special_ok_def list_all_iff)
  have 3: "json_wf (JNum (num_of_nat 0))" by code_simp
  have 4: "json_wf (JArr [])" "\<And>b. json_wf (JBool b)" by simp_all
  show ?thesis
    unfolding updated_settings_def upstream_updates_def set_check_time_def set_detected_def Let_def
    by (simp del: json_wf.simps add: json_wf_set 1 2 3 4)
qed

lemma stored_value_stringify: "json_wf (JObj ob) \<Longrightarrow> stored_value (JSON_stringify (JObj ob)) = Some (JObj ob)"
  using JSON_roundtrip [of "JObj ob"] by (simp add: stored_value_def js_lit)

lemma jor_idem: "jor (Some (jor x d)) d = jor x d"
  by (auto simp: jor_def split: option.split)

lemma read_extra_built:
  assumes "extra_ok (cf_extra f)"
  shows "read_extra (buildSettingJSON f) = normal_extra (cf_extra f)"
proof -
  have "obj_wf [(js ''force_format'', a), (js ''thinking_to_content'', b), (js ''proxy'', c),
      (js ''pass_through_body_enabled'', d), (js ''system_prompt'', e), (js ''system_prompt_override'', g)]" for a b c d e g :: json
    unfolding obj_wf_iff keys_wf_def by (simp add: key_before_def index_key_def js_lit is_digit_def)
  then show ?thesis
    using assms unfolding buildSettingJSON_def read_extra_def
    by (subst stored_value_stringify)
      (simp_all add: extra_ok_def json_wf_jor normal_extra_def field_of_def obj_get_def jor_idem str_ok_Nil)
qed

section \<open>Properties\<close>

text \<open>C14: Saving a channel form and opening the channel again shows the values that were saved: the general settings exactly, and of the
  type-specific ones those that belong to the channel's type, with the others at their defaults; settings that the form does not know
  are kept.\<close>

theorem saved_settings_reopen:
  assumes "extra_ok (cf_extra f)" "special_ok (cf_special f)" "settings_start f = JObj ob" "json_wf (JObj ob)"
    and "ch_setting c = Some (buildSettingJSON f)" "buildSettingsJSON f = Inr (ch_settings c)"
  shows "cf_extra (transformChannelToFormDefaults c) = normal_extra (cf_extra f) \<and>
    cf_special (transformChannelToFormDefaults c) = special_of_type f ob \<and>
    (\<exists>ob'. JSON_parse (ch_settings c) = Some (JObj ob') \<and>
       (\<forall>k. k \<notin> set type_keys \<and> k \<notin> set upstream_keys \<longrightarrow> obj_get ob' k = obj_get ob k))"
proof -
  have t: "ch_settings c = JSON_stringify (JObj (updated_settings f ob))"
    using assms(3,6) by (simp add: buildSettingsJSON_def)
  have w: "json_wf (JObj (updated_settings f ob))" using json_wf_special assms(2,4) by blast
  have d: "distinct (map fst ob)" using assms(4) by (simp add: obj_wf_iff keys_wf_def)
  show ?thesis
    using read_special_updated [OF d stored_value_stringify [OF w]] read_extra_built [OF assms(1)] JSON_roundtrip [OF w]
      unmanaged_kept [OF d] assms(5) t
    by (auto simp: transformChannelToFormDefaults_def str_or_empty_def)
qed

abbreviation demo_form :: channel_form where
  "demo_form \<equiv> CHANNEL_FORM_DEFAULT_VALUES\<lparr>cf_type := num_of_nat 14, cf_settings := js ''{\"x\":1}'',
     cf_special := default_special\<lparr>sp_allow_speed := True, sp_disable_store := True\<rparr>\<rparr>"

abbreviation demo_channel :: "jstr \<Rightarrow> jstr \<Rightarrow> channel" where
  "demo_channel setting settings \<equiv>
     \<lparr>ch_id = Fin 1 0, ch_type = num_of_nat 14, ch_key = [], ch_openai_organization = None, ch_test_model = None,
      ch_status = ENABLED, ch_name = js ''a'', ch_weight = None, ch_created_time = Fin 0 0, ch_test_time = Fin 0 0,
      ch_response_time = Fin 0 0, ch_base_url = None, ch_other = [], ch_balance = Fin 0 0, ch_balance_updated_time = Fin 0 0,
      ch_models = js ''m'', ch_group = js ''default'', ch_used_quota = Fin 0 0, ch_model_mapping = None,
      ch_status_code_mapping = None, ch_priority = None, ch_auto_ban = None, ch_other_info = [], ch_tag = None,
      ch_setting = Some setting, ch_param_override = None, ch_header_override = None, ch_remark = [],
      ch_max_input_tokens = Fin 0 0,
      ch_channel_info = \<lparr>ci_is_multi_key = False, ci_multi_key_size = Fin 0 0, ci_multi_key_status_list = None,
        ci_multi_key_disabled_reason = None, ci_multi_key_disabled_time = None, ci_multi_key_polling_index = Fin 0 0,
        ci_multi_key_mode = Random\<rparr>,
      ch_settings = settings\<rparr>"

theorem saved_settings_reopen_witness:
  "cf_special (transformChannelToFormDefaults (demo_channel (buildSettingJSON demo_form) (projr (buildSettingsJSON demo_form)))) =
     default_special\<lparr>sp_allow_speed := True\<rparr>"
proof -
  let ?c = "demo_channel (buildSettingJSON demo_form) (projr (buildSettingsJSON demo_form))"
  have 1: "extra_ok (cf_extra demo_form)" "special_ok (cf_special demo_form)"
    "settings_start demo_form = JObj [(js ''x'', JNum (num_of_nat 1))]" "json_wf (JObj [(js ''x'', JNum (num_of_nat 1))])"
    by code_simp+
  have 2: "ch_setting ?c = Some (buildSettingJSON demo_form)" by simp
  have 3: "buildSettingsJSON demo_form = Inr (ch_settings ?c)" using 1(3) by (simp add: buildSettingsJSON_def)
  have 4: "special_of_type demo_form [(js ''x'', JNum (num_of_nat 1))] = default_special\<lparr>sp_allow_speed := True\<rparr>" by code_simp
  show ?thesis using saved_settings_reopen [OF 1 2 3] 4 by (simp only:)
qed


section \<open>Cleared fields\<close>

text \<open>
  The columns of the server's channel that are pointers (model/channel.go) and that the form can clear.  The server
  stores an update with \<open>Updates\<close> of a struct, which the ORM documents to write only the fields that are not zero;
  a JSON null is a nil pointer, hence not written.
\<close>

definition clearable_columns :: "jstr list" where
  "clearable_columns = [js ''base_url'', js ''openai_organization'', js ''priority'', js ''weight'', js ''test_model'',
     js ''tag'', js ''remark'']"

definition skips_null :: "(json jobj \<Rightarrow> json jobj \<Rightarrow> json jobj) \<Rightarrow> bool" where
  "skips_null updates \<longleftrightarrow> (\<forall>row p k. k \<in> set clearable_columns \<longrightarrow> obj_get p k = Some JNull \<longrightarrow>
     obj_get (updates row p) k = obj_get row k)"

lemma get_empty_to_null:
  "obj_get (empty_to_null ob) k = map_option (\<lambda>v. if v = JStr [] then JNull else v) (obj_get ob k)"
proof (induction ob)
  case (Cons p ob)
  then show ?case by (cases p) (simp add: empty_to_null_def obj_get_def)
qed (simp add: empty_to_null_def obj_get_def)

lemma get_explicit:
  "k \<notin> {js ''header_override'', js ''param_override'', js ''status_code_mapping'', js ''model_mapping''} \<Longrightarrow>
   obj_get (explicit_texts f p) k = obj_get p k"
  by (simp add: explicit_texts_def obj_get_set)

lemma get_shared:
  "map_of (shared_fields f s) (js ''openai_organization'') = Some (str_or_null (cf_openai_organization f))"
  "map_of (shared_fields f s) (js ''priority'') = Some (num_or_null (cf_priority f))"
  "map_of (shared_fields f s) (js ''weight'') = Some (num_or_null (cf_weight f))"
  "map_of (shared_fields f s) (js ''test_model'') = Some (str_or_null (cf_test_model f))"
  "map_of (shared_fields f s) (js ''tag'') = Some (str_or_null (cf_tag f))"
  "map_of (shared_fields f s) (js ''remark'') = Some (JStr (cf_remark f))"
  "map_of (shared_fields f s) (js ''base_url'') = None"
  by (simp_all add: shared_fields_def)

definition form_value :: "channel_form \<Rightarrow> jstr \<Rightarrow> json" where
  "form_value f k =
     (if k = js ''base_url'' then str_or_null (cf_base_url f)
      else if k = js ''openai_organization'' then str_or_null (cf_openai_organization f)
      else if k = js ''priority'' then num_or_null (cf_priority f)
      else if k = js ''weight'' then num_or_null (cf_weight f)
      else if k = js ''test_model'' then str_or_null (cf_test_model f)
      else if k = js ''tag'' then str_or_null (cf_tag f)
      else str_or_null (cf_remark f))"

lemma get_update_payload:
  assumes "transformFormDataToUpdatePayload f i = Inr p" "k \<in> set clearable_columns"
  shows "obj_get p k = Some (form_value f k)"
proof -
  let ?clean = "\<lambda>v. if v = JStr [] then JNull else v"
  obtain s where s: "buildSettingsJSON f = Inr s"
    using assms(1) by (cases "buildSettingsJSON f") (simp_all add: transformFormDataToUpdatePayload_def)
  let ?ob = "[(js ''id'', JNum i), (js ''name'', JStr (cf_name f)), (js ''type'', JNum (cf_type f)),
    (js ''base_url'', str_or_null (cf_base_url f))] @ shared_fields f s @
    (if trim (cf_key f) \<noteq> [] then [(js ''key'', JStr (cf_key f))] else [])"
  have p: "p = explicit_texts f (empty_to_null ?ob)"
    using assms(1) unfolding transformFormDataToUpdatePayload_def s sum.case by (simp only: sum.inject)
  have n: "k \<notin> {js ''header_override'', js ''param_override'', js ''status_code_mapping'', js ''model_mapping''}"
    using assms(2) unfolding clearable_columns_def list.set insert_iff empty_iff by (elim disjE FalseE) simp_all
  have g: "obj_get p k = map_option ?clean (obj_get ?ob k)"
    unfolding p get_explicit [OF n] by (rule get_empty_to_null)
  have c: "?clean (str_or_null x) = str_or_null x" "?clean (num_or_null y) = num_or_null y" "?clean (JStr x) = str_or_null x" for x y
    by (simp_all add: str_or_null_def num_or_null_def)
  show ?thesis
    using assms(2) unfolding g clearable_columns_def list.set insert_iff empty_iff
    by (elim disjE FalseE) (simp_all add: obj_get_def get_shared form_value_def c map_add_def str_or_null_def)
qed


abbreviation demo_updates :: "json jobj \<Rightarrow> json jobj \<Rightarrow> json jobj" where
  "demo_updates row p \<equiv> map (\<lambda>(k, v). (k, case obj_get p k of None \<Rightarrow> v | Some w \<Rightarrow> if w = JNull then v else w)) row"


end
