(* ===== verification/Js_Values.thy ===== *)
theory Js_Values
  imports Js_Json
begin

text \<open>
  Conversions of JSON values that the components share: \<open>String\<close> and \<open>Number\<close> with the
  exceptions they throw, \<open>parseInt\<close>, the spread of a value into an object, the indented
  form of \<open>JSON.stringify\<close>, and the contract that both printers keep (locale
  \<open>json_printer\<close>).
\<close>

section \<open>Conversions\<close>

text \<open>
  \<open>String(v)\<close> throws a \<open>TypeError\<close> when it reaches an object with a property \<open>toString\<close> of
  its own: parsed JSON contains no function to call, and the inherited \<open>valueOf\<close> returns the
  object itself.  The elements of an array are converted in turn.
\<close>

fun str_throws :: "json \<Rightarrow> bool" where
  "str_throws (JArr vs) = list_ex str_throws vs"
| "str_throws (JObj ob) = obj_has (js ''toString'') ob"
| "str_throws _ = False"

definition to_String :: "json \<Rightarrow> js_error + jstr" where
  "to_String v = (if str_throws v then Inl TypeError else Inr (json_str v))"

text \<open>\<open>Number(s)\<close> with the literals in base 16, 8 and 2, and \<open>Number(v)\<close>.\<close>

definition radix_val :: "nat \<Rightarrow> jstr \<Rightarrow> nat" where
  "radix_val b s = foldl (\<lambda>a c. a * b + the (hex_val c)) 0 s"

definition radix_num :: "nat \<Rightarrow> jstr \<Rightarrow> jsnum" where
  "radix_num b s =
     (if s \<noteq> [] \<and> list_all (\<lambda>c. case hex_val c of None \<Rightarrow> False | Some d \<Rightarrow> d < b) s
      then num_of_nat (radix_val b s) else NaN)"

definition Number_str :: "jstr \<Rightarrow> jsnum" where
  "Number_str s =
     (let p = take 2 (trim s); r = drop 2 (trim s) in
      if p = js ''0x'' \<or> p = js ''0X'' then radix_num 16 r
      else if p = js ''0o'' \<or> p = js ''0O'' then radix_num 8 r
      else if p = js ''0b'' \<or> p = js ''0B'' then radix_num 2 r
      else to_Number s)"

fun to_num :: "json \<Rightarrow> js_error + jsnum" where
  "to_num JNull = Inr (Fin 0 0)"
| "to_num (JBool b) = Inr (num_of_nat (if b then 1 else 0))"
| "to_num (JNum x) = Inr x"
| "to_num (JStr s) = Inr (Number_str s)"
| "to_num v = map_sum id Number_str (to_String v)"

text \<open>\<open>parseInt(s, 10)\<close>: leading white space and a sign are skipped, the rest after the digits is ignored.\<close>

definition signed_int :: "bool \<times> jstr \<Rightarrow> jsnum" where
  "signed_int r =
     (let ds = takeWhile is_digit (snd r) in
      if ds = [] then NaN else dec_double (signed (fst r) (digits_val ds)) 0)"

definition parse_int10 :: "jstr \<Rightarrow> jsnum" where
  "parse_int10 s = signed_int (take_sign (dropWhile is_ws s))"

text \<open>
  Comparison after a change of case.  No character outside ASCII has an upper case that is one
  of the letters A, D, N, O, R or a lower case that is one of a, d, e, h, r, so for the words
  compared in this development the ASCII letters decide.
\<close>

definition ascii_upper :: "jstr \<Rightarrow> jstr" where
  "ascii_upper = map (\<lambda>c. if 97 \<le> c \<and> c \<le> 122 then c - 32 else c)"

definition ascii_lower :: "jstr \<Rightarrow> jstr" where
  "ascii_lower = map (\<lambda>c. if 65 \<le> c \<and> c \<le> 90 then c + 32 else c)"

text \<open>The own enumerable properties that \<open>{ ...v }\<close> copies, and the merge of two spreads.\<close>

fun indexed :: "nat \<Rightarrow> json list \<Rightarrow> json jobj" where
  "indexed n [] = []"
| "indexed n (v # vs) = (nat_str n, v) # indexed (Suc n) vs"

fun spread :: "json \<Rightarrow> json jobj" where
  "spread (JObj ob) = ob"
| "spread (JArr vs) = indexed 0 vs"
| "spread (JStr s) = indexed 0 (map (\<lambda>c. JStr [c]) s)"
| "spread _ = []"

definition merge_objects :: "json jobj \<Rightarrow> json jobj \<Rightarrow> json jobj" where
  "merge_objects a b = fold (\<lambda>(k, v). obj_set k v) b a"

text \<open>A property of a value that is not null.\<close>

definition prop_of :: "json \<Rightarrow> jstr \<Rightarrow> json option" where
  "prop_of v k = (case v of JObj ob \<Rightarrow> obj_get ob k | _ \<Rightarrow> None)"

text \<open>Sequencing of computations that may throw, and a map whose steps draw numbers from a counter.\<close>

fun and_then :: "'e + 'a \<Rightarrow> ('a \<Rightarrow> 'e + 'b) \<Rightarrow> 'e + 'b" where
  "and_then (Inl e) f = Inl e"
| "and_then (Inr x) f = f x"

lemma and_then_Inr: "and_then r f = Inr y \<longleftrightarrow> (\<exists>x. r = Inr x \<and> f x = Inr y)"
  by (cases r) auto

fun map_count :: "(nat \<Rightarrow> 'a \<Rightarrow> 'e + 'b \<times> nat) \<Rightarrow> nat \<Rightarrow> 'a list \<Rightarrow> 'e + 'b list \<times> nat" where
  "map_count f n [] = Inr ([], n)"
| "map_count f n (x # xs) =
     and_then (f n x) (\<lambda>(y, n1). and_then (map_count f n1 xs) (\<lambda>(ys, n2). Inr (y # ys, n2)))"

text \<open>A string literal is shorter than its text.\<close>

lemma push_Some: "push c r = Some (w, t) \<longleftrightarrow> (\<exists>w'. w = c # w' \<and> r = Some (w', t))"
  by (cases "(c, r)" rule: push.cases) auto

lemma p_str_lengths: "p_str s = Some (w, r) \<Longrightarrow> length w + length r < length s"
proof (induction s arbitrary: w rule: p_str.induct)
  case (2 x xs)
  then show ?case
    by (auto simp: push_Some split: if_splits list.splits option.splits) fastforce+
qed simp

section \<open>Indented printing\<close>

text \<open>\<open>JSON.stringify(v, null, 2)\<close>, inside lines that are indented by \<open>ind\<close>.\<close>

definition deeper :: "jstr \<Rightarrow> jstr" where
  "deeper ind = ind @ [32, 32]"

definition block :: "jstr \<Rightarrow> jstr \<Rightarrow> jstr \<Rightarrow> jstr list \<Rightarrow> jstr" where
  "block lb rb ind parts =
     (if parts = [] then lb @ rb
      else lb @ (10 # deeper ind) @ join (44 # 10 # deeper ind) parts @ (10 # ind) @ rb)"

fun pretty :: "jstr \<Rightarrow> json \<Rightarrow> jstr" where
  "pretty ind JNull = JSON_stringify JNull"
| "pretty ind (JBool b) = JSON_stringify (JBool b)"
| "pretty ind (JNum x) = JSON_stringify (JNum x)"
| "pretty ind (JStr s) = JSON_stringify (JStr s)"
| "pretty ind (JArr vs) = block [91] [93] ind (map (pretty (deeper ind)) vs)"
| "pretty ind (JObj ob) =
     block [123] [125] ind (map (\<lambda>(k, v). json_quote k @ js '': '' @ pretty (deeper ind) v) ob)"

definition JSON_pretty :: "json \<Rightarrow> jstr" where
  "JSON_pretty v = pretty [] v"

subsection \<open>The parser skips the indentation\<close>

lemma skip_ws_append: "list_all json_ws w \<Longrightarrow> skip_ws (w @ s) = skip_ws s"
  by (induction w) (auto simp: skip_ws_def)

lemma p_val_ws: "list_all json_ws w \<Longrightarrow> p_val n (w @ s) = p_val n s"
  by (cases n) (simp_all add: skip_ws_append)

lemma p_elems_ws: "list_all json_ws w \<Longrightarrow> p_elems n (w @ s) = p_elems n s"
  by (cases n) (simp_all add: p_val_ws)

lemma p_membs_ws: "list_all json_ws w \<Longrightarrow> p_membs n ob (w @ s) = p_membs n ob s"
  by (cases n) (simp_all add: skip_ws_append)

definition line_end :: "jstr \<Rightarrow> bool" where
  "line_end t \<longleftrightarrow> t = [] \<or> hd t = 44 \<or> hd t = 10 \<or> hd t = 93 \<or> hd t = 125"

lemma line_end_num: "line_end t \<Longrightarrow> num_end t"
  by (auto simp: line_end_def num_end_def is_digit_def)

lemma p_val_num_end:
  assumes "num_ok x" and "num_end t"
  shows "p_val (Suc n) (num_str x @ t) = Some (JNum x, t)"
proof -
  have p: "p_num (num_str x) = Some (JNum x, [])" using assms by (simp add: num_ok_def)
  then obtain y ys where y: "num_str x = y # ys" "y = 45 \<or> is_digit y"
    using p_num_hd [OF p] by (cases "num_str x") auto
  have "p_num (num_str x @ t) = Some (JNum x, t)"
    using p_num_append [OF assms(2) p] by simp
  then show ?thesis
    using y by (auto simp: skip_ws_def json_ws_def is_digit_def js_lit)
qed

definition reads_pretty :: "json \<Rightarrow> bool" where
  "reads_pretty v \<longleftrightarrow> (\<forall>ind n t. list_all json_ws ind \<longrightarrow> 2 * length (pretty ind v) < n \<longrightarrow> line_end t \<longrightarrow>
     p_val n (pretty ind v @ t) = Some (v, t))"

lemma reads_prettyD:
  "reads_pretty v \<Longrightarrow> list_all json_ws ind \<Longrightarrow> 2 * length (pretty ind v) < n \<Longrightarrow> line_end t \<Longrightarrow>
     p_val n (pretty ind v @ t) = Some (v, t)"
  by (simp add: reads_pretty_def)

lemma p_elems_pretty:
  assumes ws: "list_all json_ws ind"
  shows "vs \<noteq> [] \<Longrightarrow> list_all reads_pretty vs \<Longrightarrow>
     2 * length (join (44 # 10 # ind) (map (pretty ind) vs)) + 1 < n \<Longrightarrow> list_all json_ws w \<Longrightarrow>
     p_elems n (join (44 # 10 # ind) (map (pretty ind) vs) @ 10 # w @ 93 # t) = Some (vs, t)"
proof (induction vs arbitrary: n rule: induct_list012)
  case (2 v)
  then obtain k where k: "n = Suc k" by (cases n) auto
  have "p_val k (pretty ind v @ 10 # w @ 93 # t) = Some (v, 10 # w @ 93 # t)"
    using 2 k ws by (intro reads_prettyD) (auto simp: line_end_def)
  moreover have "skip_ws (10 # w @ 93 # t) = 93 # t"
    using skip_ws_append [of "10 # w" "93 # t"] "2.prems" by (simp add: json_ws_def skip_ws_id)
  ultimately show ?case by (simp add: k)
next
  case (3 v u vs)
  then obtain k where k: "n = Suc k" by (cases n) auto
  let ?r = "join (44 # 10 # ind) (map (pretty ind) (u # vs)) @ 10 # w @ 93 # t"
  have IH: "p_elems k ?r = Some (u # vs, t)"
    using "3.prems" k by (intro "3.IH"(2)) auto
  have "p_val k (pretty ind v @ 44 # 10 # ind @ ?r) = Some (v, 44 # 10 # ind @ ?r)"
    using 3 k ws by (intro reads_prettyD) (auto simp: line_end_def)
  moreover have "p_elems k (10 # ind @ ?r) = Some (u # vs, t)"
    using IH ws p_elems_ws [of "10 # ind" k ?r] by (simp add: json_ws_def)
  ultimately show ?case by (simp add: k skip_ws_id json_ws_def)
qed simp

definition pretty_memb :: "jstr \<Rightarrow> jstr \<times> json \<Rightarrow> jstr" where
  "pretty_memb ind = (\<lambda>(k, v). json_quote k @ js '': '' @ pretty ind v)"

lemma p_membs_step:
  assumes "str_ok key" "p_val k (pretty ind v @ r) = Some (v, r)" "list_all json_ws ind"
  shows "p_membs (Suc k) acc (pretty_memb ind (key, v) @ r) =
     (case skip_ws r of [] \<Rightarrow> None
      | y # ys \<Rightarrow> if y = 44 then p_membs k (obj_set key v acc) ys
                 else if y = 125 then Some (obj_set key v acc, ys) else None)"
proof -
  have "p_val k (32 # pretty ind v @ r) = Some (v, r)"
    using assms(2) p_val_ws [of "[32]" k] by (simp add: json_ws_def)
  then show ?thesis
    using assms by (simp add: pretty_memb_def json_quote_append js_lit skip_ws_id json_ws_def p_str_quote_body)
qed

lemma p_membs_pretty:
  assumes ws: "list_all json_ws ind"
  shows "ob \<noteq> [] \<Longrightarrow> list_all (\<lambda>(k, v). str_ok k \<and> reads_pretty v) ob \<Longrightarrow>
     2 * length (join (44 # 10 # ind) (map (pretty_memb ind) ob)) + 1 < n \<Longrightarrow> list_all json_ws w \<Longrightarrow>
     p_membs n acc (join (44 # 10 # ind) (map (pretty_memb ind) ob) @ 10 # w @ 125 # t) =
       Some (fold (\<lambda>(k, v). obj_set k v) ob acc, t)"
proof (induction ob arbitrary: n acc rule: induct_list012)
  case (2 m)
  then obtain k where k: "n = Suc k" by (cases n) auto
  obtain key v where m: "m = (key, v)" by (cases m)
  have "p_val k (pretty ind v @ 10 # w @ 125 # t) = Some (v, 10 # w @ 125 # t)"
    using 2 k ws m by (intro reads_prettyD) (auto simp: line_end_def pretty_memb_def)
  moreover have "skip_ws (10 # w @ 125 # t) = 125 # t"
    using skip_ws_append [of "10 # w" "125 # t"] "2.prems" by (simp add: json_ws_def skip_ws_id)
  ultimately show ?case using "2.prems" ws by (simp add: k m p_membs_step del: p_membs.simps)
next
  case (3 m m' ob)
  then obtain k where k: "n = Suc k" by (cases n) auto
  obtain key v where m: "m = (key, v)" by (cases m)
  let ?r = "join (44 # 10 # ind) (map (pretty_memb ind) (m' # ob)) @ 10 # w @ 125 # t"
  have IH: "p_membs k a ?r = Some (fold (\<lambda>(k, v). obj_set k v) (m' # ob) a, t)" for a
    using "3.prems" k by (intro "3.IH"(2)) auto
  have "p_val k (pretty ind v @ 44 # 10 # ind @ ?r) = Some (v, 44 # 10 # ind @ ?r)"
    using 3 k ws m by (intro reads_prettyD) (auto simp: line_end_def pretty_memb_def)
  moreover have "p_membs k a (10 # ind @ ?r) = Some (fold (\<lambda>(k, v). obj_set k v) (m' # ob) a, t)" for a
    using IH ws p_membs_ws [of "10 # ind" k a ?r] by (simp add: json_ws_def)
  ultimately show ?case using "3.prems" ws
    by (simp add: k m p_membs_step skip_ws_id json_ws_def del: p_membs.simps)
qed simp

lemma pretty_arr: "pretty ind (JArr vs) = block [91] [93] ind (map (pretty (deeper ind)) vs)"
  by simp

lemma pretty_obj: "pretty ind (JObj ob) = block [123] [125] ind (map (pretty_memb (deeper ind)) ob)"
  by (simp add: pretty_memb_def)

lemma ws_deeper: "list_all json_ws ind \<Longrightarrow> list_all json_ws (deeper ind)"
  by (simp add: deeper_def json_ws_def)

lemma pretty_hd: "json_wf v \<Longrightarrow> value_start (pretty ind v)"
  using value_start_num
  by (cases v) (auto simp: block_def value_start_def json_ws_def js_lit json_quote_def num_ok_def)

lemma starts_block:
  assumes "list_all json_ws w" "value_start s"
  shows "skip_ws (10 # w @ s) = s"
  using assms skip_ws_append [of "10 # w" s] by (simp add: json_ws_def value_start_skip_ws)

lemma p_val_pretty_arr:
  assumes "list_all json_wf vs" "list_all reads_pretty vs" "list_all json_ws ind"
    and "2 * length (pretty ind (JArr vs)) < n"
  shows "p_val n (pretty ind (JArr vs) @ t) = Some (JArr vs, t)"
proof (cases "vs = []")
  case True
  then show ?thesis using assms(4) by (cases n) (auto simp: block_def skip_ws_def json_ws_def)
next
  case False
  obtain k where k: "n = Suc k" using assms(4) by (cases n) auto
  let ?s = "join (44 # 10 # deeper ind) (map (pretty (deeper ind)) vs) @ 10 # ind @ 93 # t"
  have ne: "map (pretty (deeper ind)) vs \<noteq> []" using False by simp
  have len: "2 * length (join (44 # 10 # deeper ind) (map (pretty (deeper ind)) vs)) + 1 < k"
    using assms(4) unfolding pretty_arr block_def k using ne by simp
  have s: "value_start ?s"
    using False assms(1) by (intro value_start_join) (cases vs; simp add: pretty_hd)+
  have "p_elems k (10 # deeper ind @ ?s) = p_elems k ?s"
    using p_elems_ws [of "10 # deeper ind" k ?s] ws_deeper [OF assms(3)] by (simp add: json_ws_def)
  also have "\<dots> = Some (vs, t)"
    using assms(2,3) len False by (intro p_elems_pretty ws_deeper)
  finally show ?thesis
    unfolding pretty_arr k using ne starts_block [OF ws_deeper [OF assms(3)] s] s
    by (simp add: block_def skip_ws_id json_ws_def value_start_starts)
qed

lemma p_val_pretty_obj:
  assumes "obj_wf ob" "list_all (\<lambda>(k, v). str_ok k \<and> reads_pretty v) ob" "list_all json_ws ind"
    and "2 * length (pretty ind (JObj ob)) < n"
  shows "p_val n (pretty ind (JObj ob) @ t) = Some (JObj ob, t)"
proof (cases "ob = []")
  case True
  then show ?thesis using assms(4) by (cases n) (auto simp: block_def skip_ws_def json_ws_def)
next
  case False
  obtain k where k: "n = Suc k" using assms(4) by (cases n) auto
  let ?s = "join (44 # 10 # deeper ind) (map (pretty_memb (deeper ind)) ob) @ 10 # ind @ 125 # t"
  have ne: "map (pretty_memb (deeper ind)) ob \<noteq> []" using False by simp
  have len: "2 * length (join (44 # 10 # deeper ind) (map (pretty_memb (deeper ind)) ob)) + 1 < k"
    using assms(4) unfolding pretty_obj block_def k using ne by simp
  have s: "value_start ?s" using False
    by (intro value_start_join) (cases ob; auto simp: pretty_memb_def json_quote_def value_start_def json_ws_def js_lit)+
  have "p_membs k [] (10 # deeper ind @ ?s) = p_membs k [] ?s"
    using p_membs_ws [of "10 # deeper ind" k "[]" ?s] ws_deeper [OF assms(3)] by (simp add: json_ws_def)
  also have "\<dots> = Some (ob, t)"
    using assms(1-3) len False p_membs_pretty [OF ws_deeper [OF assms(3)], of ob k ind "[]" t] by (simp add: obj_wf_def)
  finally show ?thesis
    unfolding pretty_obj k using ne starts_block [OF ws_deeper [OF assms(3)] s] s
    by (simp add: block_def skip_ws_id json_ws_def value_start_starts)
qed

lemma reads_pretty_wf: "json_wf v \<Longrightarrow> reads_pretty v"
proof (induction v)
  case (JNum x)
  then show ?case
    unfolding reads_pretty_def using p_val_num_end line_end_num by (auto simp: num_ok_def elim!: less_natE)
next
  case (JStr s)
  then show ?case unfolding reads_pretty_def using p_val_quote by (auto elim!: less_natE)
next
  case (JArr vs)
  then have "list_all json_wf vs" "list_all reads_pretty vs" by (simp_all add: list_all_iff)
  then show ?case unfolding reads_pretty_def [of "JArr vs"] using p_val_pretty_arr by blast
next
  case (JObj ob)
  then have "list_all (\<lambda>(k, v). str_ok k \<and> reads_pretty v) ob"
    by (fastforce simp: list_all_iff)
  moreover have "obj_wf ob" using JObj.prems by simp
  ultimately show ?case unfolding reads_pretty_def [of "JObj ob"] using p_val_pretty_obj by blast
next
  case JNull
  then show ?case unfolding reads_pretty_def using p_val_const(1) by (auto elim!: less_natE)
next
  case (JBool b)
  then show ?case unfolding reads_pretty_def using p_val_const(2,3) by (auto elim!: less_natE)
qed

lemma JSON_pretty_roundtrip:
  assumes "json_wf v"
  shows "JSON_parse (JSON_pretty v) = Some v"
proof -
  have "p_val n (JSON_pretty v @ []) = Some (v, [])" if "2 * length (JSON_pretty v) < n" for n
    unfolding JSON_pretty_def
    by (rule reads_prettyD [OF reads_pretty_wf [OF assms]])
      (use that in \<open>simp_all add: JSON_pretty_def line_end_def\<close>)
  then show ?thesis
    unfolding JSON_parse_def by (simp only: less_add_one append_Nil2) (simp add: whole_def skip_ws_def)
qed

section \<open>What both printers promise\<close>

subsection \<open>Printed texts have no white space around them\<close>

lemma span_digits_no_ws: "span_digits s = (ds, r) \<Longrightarrow> \<exists>u. s = u @ r \<and> list_all (\<lambda>c. \<not> is_ws c) u"
  by (rule exI [of _ ds]) (auto simp: span_digits_def list_all_iff is_digit_not_ws dest: set_takeWhileD)

lemma no_ws_Cons: "\<not> is_ws x \<Longrightarrow> \<exists>u. s = u @ r \<and> list_all (\<lambda>c. \<not> is_ws c) u \<Longrightarrow>
  \<exists>u. x # s = u @ r \<and> list_all (\<lambda>c. \<not> is_ws c) u"
  by (metis append_Cons list.pred_inject(2))

lemma no_ws_trans: "\<exists>u. s = u @ r \<and> list_all (\<lambda>c. \<not> is_ws c) u \<Longrightarrow>
  \<exists>u. r = u @ t \<and> list_all (\<lambda>c. \<not> is_ws c) u \<Longrightarrow> \<exists>u. s = u @ t \<and> list_all (\<lambda>c. \<not> is_ws c) u"
  by (metis append_assoc list_all_append)

lemma scan_frac_no_ws: "scan_frac s = (f, r) \<Longrightarrow> \<exists>u. s = u @ r \<and> list_all (\<lambda>c. \<not> is_ws c) u"
proof (cases s)
  case (Cons x xs)
  assume "scan_frac s = (f, r)"
  with Cons show ?thesis
    using no_ws_Cons [OF _ span_digits_no_ws, of x xs f r] by (auto simp: is_ws_def split: if_splits)
qed simp

lemma scan_exp_no_ws: "scan_exp s = Some (e, r) \<Longrightarrow> \<exists>u. s = u @ r \<and> list_all (\<lambda>c. \<not> is_ws c) u"
proof (cases s)
  case (Cons x xs)
  assume a: "scan_exp s = Some (e, r)"
  obtain neg ys where ys: "take_sign xs = (neg, ys)" by (metis surj_pair)
  have "\<exists>u. xs = u @ ys \<and> list_all (\<lambda>c. \<not> is_ws c) u"
    using ys no_ws_Cons [of _ ys ys] by (cases xs) (auto simp: is_ws_def split: if_splits)
  moreover obtain ds r' where sp: "span_digits ys = (ds, r')" by (metis surj_pair)
  ultimately have "\<exists>u. xs = u @ r' \<and> list_all (\<lambda>c. \<not> is_ws c) u"
    using no_ws_trans [OF _ span_digits_no_ws [OF sp], of xs] by (simp only:)
  then have "x = 101 \<or> x = 69 \<Longrightarrow> \<exists>u. s = u @ r' \<and> list_all (\<lambda>c. \<not> is_ws c) u"
    using no_ws_Cons [of x xs r'] Cons by (auto simp: is_ws_def)
  then show ?thesis using a Cons ys sp by (auto split: if_splits)
qed simp

lemma p_num_int_no_ws:
  "p_num_int neg (ip, q) = Some (v, r) \<Longrightarrow> \<exists>u. q = u @ r \<and> list_all (\<lambda>c. \<not> is_ws c) u"
proof -
  assume p: "p_num_int neg (ip, q) = Some (v, r)"
  obtain fp q' where f: "scan_frac q = (fp, q')" by (metis surj_pair)
  from p f obtain e where e: "scan_exp q' = Some (e, r)"
    by (cases "scan_exp q'") (auto split: if_splits)
  show ?thesis by (rule no_ws_trans [OF scan_frac_no_ws [OF f] scan_exp_no_ws [OF e]])
qed

lemma p_num_no_ws: "p_num s = Some (v, r) \<Longrightarrow> \<exists>u. s = u @ r \<and> list_all (\<lambda>c. \<not> is_ws c) u"
proof -
  assume p: "p_num s = Some (v, r)"
  have *: "\<exists>u. x = u @ r \<and> list_all (\<lambda>c. \<not> is_ws c) u" if "p_num_int neg (span_digits x) = Some (v, r)" for neg x
  proof -
    obtain ds q where sp: "span_digits x = (ds, q)" by (metis surj_pair)
    show ?thesis
      by (rule no_ws_trans [OF span_digits_no_ws [OF sp] p_num_int_no_ws [OF that [unfolded sp]]])
  qed
  show ?thesis
  proof (cases "starts_with s [45]")
    case True
    then obtain x where x: "s = 45 # x" by (cases s) auto
    then have "p_num_int True (span_digits x) = Some (v, r)" using p by (simp add: p_num_def)
    then show ?thesis using no_ws_Cons [of 45 x r] * x by (simp add: is_ws_def)
  next
    case False
    then show ?thesis using * p by (simp add: p_num_def)
  qed
qed

lemma num_str_trimmed: "num_ok x \<Longrightarrow> trimmed (num_str x)"
  using p_num_no_ws [of "num_str x" "JNum x" "[]"] trimmed_no_ws by (auto simp: num_ok_def)

lemma trimmed_delimited: "\<not> is_ws a \<Longrightarrow> \<not> is_ws b \<Longrightarrow> trimmed (a # s @ [b])"
  by (simp add: trimmed_def)

lemma trimmed_quote: "trimmed (json_quote s)"
  using trimmed_delimited [of 34 34] by (simp add: json_quote_def js_lit is_ws_def)

lemma trimmed_const: "trimmed (js ''null'')" "trimmed (js ''true'')" "trimmed (js ''false'')"
  by (simp_all add: trimmed_def js_lit is_ws_def)

lemma trimmed_stringify: "json_wf v \<Longrightarrow> trimmed (JSON_stringify v)"
proof (cases v)
  case (JArr vs)
  then show ?thesis using trimmed_delimited [of 91 93] by (simp add: js_lit is_ws_def)
next
  case (JObj ob)
  then show ?thesis using trimmed_delimited [of 123 125] by (simp add: js_lit is_ws_def)
next
  case (JNum x)
  assume "json_wf v"
  then show ?thesis using JNum num_str_trimmed by (simp add: num_ok_def)
qed (simp_all add: trimmed_const trimmed_quote)

lemma trimmed_block: "\<not> is_ws a \<Longrightarrow> \<not> is_ws b \<Longrightarrow> trimmed (block [a] [b] ind parts)"
  by (simp add: trimmed_def block_def)

lemma trimmed_pretty: "json_wf v \<Longrightarrow> trimmed (JSON_pretty v)"
  using trimmed_stringify [of v] trimmed_block
  by (cases v) (auto simp: JSON_pretty_def is_ws_def simp del: JSON_stringify.simps)

subsection \<open>The contract\<close>

text \<open>
  A printer of well-formed values whose texts \<open>JSON.parse\<close> reads back and \<open>trim\<close> leaves alone.
  Stored settings are written by one and read by code that trims and parses.
\<close>

locale json_printer =
  fixes print :: "json \<Rightarrow> jstr"
  assumes parse_print: "json_wf v \<Longrightarrow> JSON_parse (print v) = Some v"
    and trimmed_print: "json_wf v \<Longrightarrow> trimmed (print v)"
begin

lemma trim_print: "json_wf v \<Longrightarrow> trim (print v) = print v"
  by (rule trim_id [OF trimmed_print])

lemma print_ne: "json_wf v \<Longrightarrow> print v \<noteq> []"
  using parse_print [of v] by (auto simp: JSON_parse_def whole_def skip_ws_def)

lemma parse_trim_print: "json_wf v \<Longrightarrow> JSON_parse (trim (print v)) = Some v"
  by (simp add: trim_print parse_print)

lemma print_inj: "json_wf v \<Longrightarrow> json_wf w \<Longrightarrow> print v = print w \<Longrightarrow> v = w"
  by (metis option.inject parse_print)

text \<open>A text that is no JSON, or JSON of another value, is not what the printer writes.\<close>

lemma not_printed: "json_wf v \<Longrightarrow> JSON_parse s \<noteq> Some v \<Longrightarrow> print v \<noteq> s"
  using parse_print by blast

end

interpretation compact: json_printer JSON_stringify
  by unfold_locales (simp_all add: JSON_roundtrip trimmed_stringify)

interpretation indented: json_printer JSON_pretty
  by unfold_locales (simp_all add: JSON_pretty_roundtrip trimmed_pretty)

end
