(* ===== verification/Sidebar_Config.thy ===== *)
theory Sidebar_Config
  imports Js_Values
begin

text \<open>
  Which entries the sidebar shows (hooks/use-sidebar-config.ts): the administrator's configuration with its defaults, the
  user's narrower one, the upgrade of old casual settings, and the filter over the navigation groups.  Both
  configurations are JSON texts whose shape nothing checks, so sections and switches are JSON values.
\<close>

section \<open>Configurations\<close>

definition switches :: "string list \<Rightarrow> json jobj" where
  "switches ks = map (\<lambda>k. (js k, JBool True)) ks"

definition DEFAULT_SIDEBAR_MODULES :: "(jstr \<times> json jobj) list" where
  "DEFAULT_SIDEBAR_MODULES =
     [(js ''chat'', switches [''enabled'', ''playground'', ''chat'']),
      (js ''console'', switches [''enabled'', ''detail'', ''token'', ''log'', ''midjourney'', ''task'']),
      (js ''personal'', switches [''enabled'', ''topup'', ''personal'']),
      (js ''marketplace'', switches [''enabled'', ''skills'', ''mySkills'']),
      (js ''admin'', switches [''enabled'', ''channel'', ''models'', ''redemption'', ''user'', ''setting'', ''subscription''])]"

text \<open>One section: absent or falsy sections become the default, others are laid over it; keys that are then missing are filled in.\<close>

definition fill_missing :: "json jobj \<Rightarrow> json jobj \<Rightarrow> json jobj" where
  "fill_missing defaults sec = fold (\<lambda>(k, v) s. if obj_get s k = None then obj_set k v s else s) defaults sec"

definition merge_section :: "jstr \<times> json jobj \<Rightarrow> json jobj \<Rightarrow> json jobj" where
  "merge_section d merged =
     (case obj_get merged (fst d) of
        None \<Rightarrow> obj_set (fst d) (JObj (snd d)) merged
      | Some existing \<Rightarrow>
          if \<not> jtruthy existing then obj_set (fst d) (JObj (snd d)) merged
          else obj_set (fst d) (JObj (fill_missing (snd d) (merge_objects (snd d) (spread existing)))) merged)"

definition mergeWithDefaultSidebarModules :: "json \<Rightarrow> json jobj" where
  "mergeWithDefaultSidebarModules config = fold merge_section DEFAULT_SIDEBAR_MODULES (merge_objects [] (spread config))"

definition URL_TO_CONFIG_MAP :: "(string \<times> string \<times> string) list" where
  "URL_TO_CONFIG_MAP =
     [(''/playground'', ''chat'', ''playground''),
      (''/dashboard'', ''console'', ''detail''),
      (''/dashboard/overview'', ''console'', ''detail''),
      (''/dashboard/models'', ''console'', ''detail''),
      (''/dashboard/users'', ''console'', ''detail''),
      (''/keys'', ''console'', ''token''),
      (''/usage-logs'', ''console'', ''log''),
      (''/usage-logs/common'', ''console'', ''log''),
      (''/usage-logs/drawing'', ''console'', ''midjourney''),
      (''/usage-logs/task'', ''console'', ''task''),
      (''/wallet'', ''personal'', ''topup''),
      (''/profile'', ''personal'', ''personal''),
      (''/skills'', ''marketplace'', ''skills''),
      (''/skills/my'', ''marketplace'', ''mySkills''),
      (''/channels'', ''admin'', ''channel''),
      (''/models'', ''admin'', ''models''),
      (''/models/metadata'', ''admin'', ''models''),
      (''/models/deployments'', ''admin'', ''models''),
      (''/users'', ''admin'', ''user''),
      (''/redemption-codes'', ''admin'', ''redemption''),
      (''/subscriptions'', ''admin'', ''subscription''),
      (''/system-settings'', ''admin'', ''setting''),
      (''/system-settings/site'', ''admin'', ''setting'')]"

definition config_of_url :: "jstr \<Rightarrow> (jstr \<times> jstr) option" where
  "config_of_url url =
     map_of (map (\<lambda>(u, s, m). (js u, (js s, js m))) URL_TO_CONFIG_MAP) url"

text \<open>An absent or null text is \<open>None\<close>.  JSON \<open>null\<close> spreads to nothing.\<close>

definition default_config :: "json jobj" where
  "default_config = map (\<lambda>(k, sec). (k, JObj sec)) DEFAULT_SIDEBAR_MODULES"

definition parseSidebarConfig :: "jstr option \<Rightarrow> json jobj" where
  "parseSidebarConfig value =
     (case value of
        None \<Rightarrow> default_config
      | Some s \<Rightarrow>
          if trim s = [] then default_config
          else (case JSON_parse s of None \<Rightarrow> default_config | Some parsed \<Rightarrow> mergeWithDefaultSidebarModules parsed))"

definition parseUserSidebarConfig :: "jstr option \<Rightarrow> json option" where
  "parseUserSidebarConfig value =
     (case value of
        None \<Rightarrow> None
      | Some s \<Rightarrow>
          if trim s = [] then None
          else (case JSON_parse s of
              Some (JObj ob) \<Rightarrow> Some (JObj ob)
            | Some (JArr vs) \<Rightarrow> Some (JArr vs)
            | _ \<Rightarrow> None))"

definition readPersona :: "json option \<Rightarrow> jstr option" where
  "readPersona setting =
     (case setting of
        None \<Rightarrow> None
      | Some v \<Rightarrow>
          (let w = (case v of JStr s \<Rightarrow> if s = [] then None else JSON_parse s | _ \<Rightarrow> Some v)
           in case w of
                Some (JObj ob) \<Rightarrow> (case obj_get ob (js ''persona'') of Some (JStr p) \<Rightarrow> Some p | _ \<Rightarrow> None)
              | _ \<Rightarrow> None))"

definition token_only_console :: "json jobj" where
  "token_only_console =
     [(js ''enabled'', JBool True), (js ''detail'', JBool False), (js ''token'', JBool True), (js ''log'', JBool False),
      (js ''midjourney'', JBool False), (js ''task'', JBool False)]"

definition upgradeLegacyCasualConfig :: "json option \<Rightarrow> jstr option \<Rightarrow> json option" where
  "upgradeLegacyCasualConfig config persona =
     (case config of
        None \<Rightarrow> None
      | Some c \<Rightarrow>
          if persona \<noteq> Some (js ''casual'') then Some c
          else if (case prop_of c (js ''console'') of None \<Rightarrow> None | Some s \<Rightarrow> prop_of s (js ''enabled'')) \<noteq> Some (JBool False)
          then Some c
          else Some (JObj (obj_set (js ''console'') (JObj token_only_console) (merge_objects [] (spread c)))))"

section \<open>Visibility\<close>

definition admin_allows :: "json jobj \<Rightarrow> jstr \<Rightarrow> jstr \<Rightarrow> bool" where
  "admin_allows adminConfig section module =
     (case obj_get adminConfig section of
        None \<Rightarrow> False
      | Some sec \<Rightarrow>
          jtruthy sec \<and> (case prop_of sec (js ''enabled'') of None \<Rightarrow> False | Some e \<Rightarrow> jtruthy e) \<and>
          prop_of sec module = Some (JBool True))"

definition user_allows :: "json option \<Rightarrow> jstr \<Rightarrow> jstr \<Rightarrow> bool" where
  "user_allows userConfig section module =
     (case userConfig of
        None \<Rightarrow> True
      | Some u \<Rightarrow>
          (case prop_of u section of
             None \<Rightarrow> True
           | Some sec \<Rightarrow>
               if \<not> jtruthy sec then True
               else if prop_of sec (js ''enabled'') = Some (JBool False) then False
               else prop_of sec module \<noteq> Some (JBool False)))"

definition isModuleEnabled :: "jstr \<Rightarrow> json jobj \<Rightarrow> json option \<Rightarrow> bool" where
  "isModuleEnabled url adminConfig userConfig =
     (case config_of_url url of
        None \<Rightarrow> True
      | Some (section, module) \<Rightarrow>
          if \<not> admin_allows adminConfig section module then False else user_allows userConfig section module)"

datatype nav_item =
    NavLink jstr jstr "jstr list option"
  | NavCollapsible jstr "(jstr \<times> jstr) list"
  | NavChatPresets jstr

fun isNavItemVisible :: "json jobj \<Rightarrow> json option \<Rightarrow> nav_item \<Rightarrow> bool" where
  "isNavItemVisible adminConfig userConfig (NavChatPresets _) =
     (if \<not> admin_allows adminConfig (js ''chat'') (js ''chat'') then False
      else user_allows userConfig (js ''chat'') (js ''chat''))"
| "isNavItemVisible adminConfig userConfig (NavLink _ url configUrls) =
     (if url = [] then True
      else list_ex (\<lambda>u. isModuleEnabled u adminConfig userConfig) (case configUrls of None \<Rightarrow> [url] | Some us \<Rightarrow> us))"
| "isNavItemVisible adminConfig userConfig (NavCollapsible _ items) =
     list_ex (\<lambda>(_, u). isModuleEnabled u adminConfig userConfig) items"

fun filter_sub_items :: "json jobj \<Rightarrow> json option \<Rightarrow> nav_item \<Rightarrow> nav_item" where
  "filter_sub_items adminConfig userConfig (NavCollapsible title items) =
     NavCollapsible title (filter (\<lambda>(_, u). isModuleEnabled u adminConfig userConfig) items)"
| "filter_sub_items adminConfig userConfig item = item"

definition filterNavItems :: "nav_item list \<Rightarrow> json jobj \<Rightarrow> json option \<Rightarrow> nav_item list" where
  "filterNavItems items adminConfig userConfig =
     filter (isNavItemVisible adminConfig userConfig) (map (filter_sub_items adminConfig userConfig) items)"

record nav_group =
  ng_title :: jstr
  ng_items :: "nav_item list"

text \<open>What the hook reads of the status and of the signed-in user.\<close>

record sidebar_inputs =
  in_SidebarModulesAdmin :: "jstr option"
  in_sidebar_settings :: "bool option"
  in_sidebar_modules :: "jstr option"
  in_setting :: "json option"

definition user_config :: "sidebar_inputs \<Rightarrow> json option" where
  "user_config i =
     (if in_sidebar_settings i = Some False then None
      else upgradeLegacyCasualConfig (parseUserSidebarConfig (in_sidebar_modules i)) (readPersona (in_setting i)))"

definition useSidebarConfig :: "sidebar_inputs \<Rightarrow> nav_group list \<Rightarrow> nav_group list" where
  "useSidebarConfig i navGroups =
     filter (\<lambda>g. 0 < length (ng_items g))
       (map (\<lambda>g. g\<lparr>ng_items := filterNavItems (ng_items g) (parseSidebarConfig (in_SidebarModulesAdmin i)) (user_config i)\<rparr>)
          navGroups)"

section \<open>Merging with the defaults\<close>

lemma get_merge_objects:
  "distinct (map fst b) \<Longrightarrow> obj_get (merge_objects a b) k = (case obj_get b k of None \<Rightarrow> obj_get a k | Some v \<Rightarrow> Some v)"
proof (induction b arbitrary: a)
  case (Cons p b)
  obtain k' v' where p: "p = (k', v')" by (cases p)
  have "obj_get (merge_objects a (p # b)) k = obj_get (merge_objects (obj_set k' v' a) b) k"
    by (simp add: merge_objects_def p)
  also have "\<dots> = (case obj_get b k of None \<Rightarrow> obj_get (obj_set k' v' a) k | Some v \<Rightarrow> Some v)"
    using Cons by simp
  finally show ?case
    using Cons.prems by (auto simp: p obj_get_set obj_get_def map_of_eq_None_iff split: option.split dest: map_of_SomeD)
      (metis fst_conv image_eqI map_of_SomeD)+
qed (simp add: merge_objects_def obj_get_def)

lemma fill_missing_none:
  "list_all (\<lambda>(k, v). obj_get s k \<noteq> None) d \<Longrightarrow> fill_missing d s = s"
  by (induction d) (auto simp: fill_missing_def)

lemma fill_after_merge:
  assumes "distinct (map fst b)"
  shows "fill_missing d (merge_objects d b) = merge_objects d b"
proof (rule fill_missing_none)
  have "(k, v) \<in> set d \<Longrightarrow> obj_get d k \<noteq> None" for k v
    unfolding obj_get_def by (metis fst_conv image_eqI map_of_eq_None_iff)
  then show "list_all (\<lambda>(k, v). obj_get (merge_objects d b) k \<noteq> None) d"
    by (auto simp: list_all_iff get_merge_objects [OF assms] split: option.split)
qed

definition section_with_default :: "json jobj \<Rightarrow> json option \<Rightarrow> json jobj" where
  "section_with_default d x =
     (case x of None \<Rightarrow> d
      | Some e \<Rightarrow> if \<not> jtruthy e then d else fill_missing d (merge_objects d (spread e)))"

lemma get_merge_section:
  "obj_get (merge_section d m) k =
     (if k = fst d then Some (JObj (section_with_default (snd d) (obj_get m k))) else obj_get m k)"
  by (auto simp: merge_section_def section_with_default_def obj_get_set split: option.split)

lemma get_merge_sections:
  "distinct (map fst ds) \<Longrightarrow> obj_get (fold merge_section ds m) k =
     (case map_of ds k of None \<Rightarrow> obj_get m k | Some d \<Rightarrow> Some (JObj (section_with_default d (obj_get m k))))"
proof (induction ds arbitrary: m)
  case (Cons d ds)
  then have "obj_get (fold merge_section (d # ds) m) k =
    (case map_of ds k of None \<Rightarrow> obj_get (merge_section d m) k
     | Some d' \<Rightarrow> Some (JObj (section_with_default d' (obj_get (merge_section d m) k))))" by simp
  then show ?case
    using Cons.prems by (cases d) (auto simp: get_merge_section split: option.split dest: map_of_SomeD
        intro: rev_image_eqI)
qed simp

lemma default_sections:
  assumes "config_of_url url = Some (s, m)"
  obtains d where "map_of DEFAULT_SIDEBAR_MODULES s = Some d" "obj_get d (js ''enabled'') = Some (JBool True)"
    "obj_get d m = Some (JBool True)"
proof -
  have "list_all (\<lambda>(u, s, m). case map_of DEFAULT_SIDEBAR_MODULES (js s) of None \<Rightarrow> False
      | Some d \<Rightarrow> obj_get d (js ''enabled'') = Some (JBool True) \<and> obj_get d (js m) = Some (JBool True)) URL_TO_CONFIG_MAP"
    by code_simp
  moreover have "(s, m) \<in> (\<lambda>(u, s, m). (js s, js m)) ` set URL_TO_CONFIG_MAP"
    using map_of_SomeD [OF assms [unfolded config_of_url_def]] by force
  ultimately show ?thesis using that by (fastforce simp: list_all_iff split: option.splits)
qed

lemma trim_stringify_obj: "trim (JSON_stringify (JObj c)) \<noteq> []"
  by (simp add: trim_eq_Nil js_lit is_ws_def)

section \<open>Properties\<close>

text \<open>For a stored administrator configuration that has the section of an entry, the entry is on exactly when the section is on and
  its module is true, where a switch that the section does not have counts as on.\<close>

lemma admin_module_rule:
  assumes "json_wf (JObj c)" "config_of_url url = Some (s, m)" "obj_get c s = Some (JObj sec)"
  shows "isModuleEnabled url (parseSidebarConfig (Some (JSON_stringify (JObj c)))) None \<longleftrightarrow>
     (case obj_get sec (js ''enabled'') of None \<Rightarrow> True | Some e \<Rightarrow> jtruthy e) \<and>
     (case obj_get sec m of None \<Rightarrow> True | Some v \<Rightarrow> v = JBool True)"
proof -
  obtain d where d: "map_of DEFAULT_SIDEBAR_MODULES s = Some d" "obj_get d (js ''enabled'') = Some (JBool True)"
    "obj_get d m = Some (JBool True)" using default_sections [OF assms(2)] .
  have c: "distinct (map fst c)" "fold (\<lambda>(k, v). obj_set k v) c [] = c"
    using assms(1) by (simp_all add: obj_wf_iff keys_wf_def) (simp add: obj_wf_def [symmetric] obj_wf_iff keys_wf_def)
  have "\<forall>(k, v) \<in> set c. json_wf v" using assms(1) by (auto simp: list_all_iff)
  then have "json_wf (JObj sec)" using map_of_SomeD [OF assms(3) [unfolded obj_get_def]] by blast
  then have sec: "distinct (map fst sec)" by (simp add: obj_wf_iff keys_wf_def)
  have "distinct (map fst DEFAULT_SIDEBAR_MODULES)" by (simp add: DEFAULT_SIDEBAR_MODULES_def)
  then have "obj_get (mergeWithDefaultSidebarModules (JObj c)) s = Some (JObj (merge_objects d sec))"
    by (simp add: mergeWithDefaultSidebarModules_def merge_objects_def [of "[]"] c(2) get_merge_sections d(1) assms(3)
        section_with_default_def fill_after_merge [OF sec])
  then show ?thesis
    using JSON_roundtrip [OF assms(1)] trim_stringify_obj [of c] d sec
    by (auto simp: isModuleEnabled_def assms(2) parseSidebarConfig_def admin_allows_def user_allows_def prop_of_def
        get_merge_objects split: option.split)
qed

text \<open>C31: The user's configuration only removes entries: filtering with both configurations is the same as filtering with the
  administrator's alone and then with both, and filtering again removes nothing more.\<close>

theorem user_layer_narrows:
  "filterNavItems items a u = filterNavItems (filterNavItems items a None) a u \<and>
   filterNavItems (filterNavItems items a u) a u = filterNavItems items a u"
proof -
  have e: "isModuleEnabled url a u \<Longrightarrow> isModuleEnabled url a None" for url u
    by (auto simp: isModuleEnabled_def user_allows_def split: option.splits if_splits)
  have f: "filter (\<lambda>x. isModuleEnabled (snd x) a u) (filter (\<lambda>x. isModuleEnabled (snd x) a None) xs) =
      filter (\<lambda>x. isModuleEnabled (snd x) a u) xs" for xs :: "(jstr \<times> jstr) list"
    using e by (induction xs) auto
  have 1: "filterNavItems (filterNavItems [i] a None) a u = filterNavItems [i] a u" for i
    using e [of _ u] f
    by (cases i) (auto simp: filterNavItems_def list_ex_iff user_allows_def case_prod_unfold split: if_splits)
  have 2: "filterNavItems (filterNavItems [i] a u) a u = filterNavItems [i] a u" for i
    by (cases i) (auto simp: filterNavItems_def list_ex_iff case_prod_unfold)
  have c: "filterNavItems (i # is) a v = filterNavItems [i] a v @ filterNavItems is a v" for i "is" v
    by (simp add: filterNavItems_def)
  have app: "filterNavItems (xs @ ys) a v = filterNavItems xs a v @ filterNavItems ys a v" for xs ys v
    by (simp add: filterNavItems_def)
  show ?thesis
    by (induction items) (simp_all add: filterNavItems_def [of "[]"] c [of _ "_ # _"] app 1 2, metis 1 2 app c)
qed

text \<open>A setting that was encoded twice hides the persona: reading the encoding of an encoded setting finds no persona, whatever the
  setting says.\<close>

lemma double_encoded_persona:
  assumes "str_ok t"
  shows "readPersona (Some (JStr (JSON_stringify (JStr t)))) = None"
  using JSON_roundtrip [of "JStr t"] assms by (simp add: readPersona_def)

end
