(* ===== verification/Param_Override.thy ===== *)
theory Param_Override
  imports Js_Values
begin

text \<open>
  The data of the parameter override editor
  (features/channels/components/dialogs/param-override-editor-dialog.tsx): rules and their
  conditions, the text of a value and its loose reading, the drafts behind the special editors
  (custom error, object pruning, synchronised fields), validation, and the JSON that is stored.

  Identifiers come from \<open>nextLocalId\<close>, which prints the clock and a counter.  The counter is
  threaded through every function that creates an object; the clock is a function of the
  counter, so nothing is assumed about time.
\<close>

section \<open>Types and constants\<close>

record po_condition =
  c_id :: jstr
  c_path :: jstr
  c_mode :: jstr
  c_value_text :: jstr
  c_invert :: bool
  c_pass_missing_key :: bool

record po_operation =
  o_id :: jstr
  o_description :: jstr
  o_path :: jstr
  o_mode :: jstr
  o_from :: jstr
  o_to :: jstr
  o_value_text :: jstr
  o_keep_origin :: bool
  o_logic :: jstr
  o_conditions :: "po_condition list"

definition OPERATION_MODE_OPTIONS :: "(string \<times> string) list" where
  "OPERATION_MODE_OPTIONS =
     [(''Set Field'', ''set''),
      (''Delete Field'', ''delete''),
      (''Append to End'', ''append''),
      (''Prepend to Start'', ''prepend''),
      (''Copy Field'', ''copy''),
      (''Move Field'', ''move''),
      (''String Replace'', ''replace''),
      (''Regex Replace'', ''regex_replace''),
      (''Trim Prefix'', ''trim_prefix''),
      (''Trim Suffix'', ''trim_suffix''),
      (''Ensure Prefix'', ''ensure_prefix''),
      (''Ensure Suffix'', ''ensure_suffix''),
      (''Trim Space'', ''trim_space''),
      (''To Lowercase'', ''to_lower''),
      (''To Uppercase'', ''to_upper''),
      (''Return Custom Error'', ''return_error''),
      (''Prune Object Items'', ''prune_objects''),
      (''Pass Through Headers'', ''pass_headers''),
      (''Sync Fields'', ''sync_fields''),
      (''Set Request Header'', ''set_header''),
      (''Delete Request Header'', ''delete_header''),
      (''Copy Request Header'', ''copy_header''),
      (''Move Request Header'', ''move_header'')]"

definition OPERATION_MODE_VALUES :: "jstr list" where
  "OPERATION_MODE_VALUES = map (\<lambda>(_, v). js v) OPERATION_MODE_OPTIONS"

definition OPERATION_MODE_LABEL_MAP :: "jstr jobj" where
  "OPERATION_MODE_LABEL_MAP = fold (\<lambda>(l, v). obj_set (js v) (js l)) OPERATION_MODE_OPTIONS []"

definition CONDITION_MODE_OPTIONS :: "(string \<times> string) list" where
  "CONDITION_MODE_OPTIONS =
     [(''Exact Match'', ''full''),
      (''Prefix'', ''prefix''),
      (''Suffix'', ''suffix''),
      (''Contains'', ''contains''),
      (''Greater Than'', ''gt''),
      (''Greater Than or Equal'', ''gte''),
      (''Less Than'', ''lt''),
      (''Less Than or Equal'', ''lte'')]"

definition CONDITION_MODE_VALUES :: "jstr list" where
  "CONDITION_MODE_VALUES = map (\<lambda>(_, v). js v) CONDITION_MODE_OPTIONS"

text \<open>Which fields a mode uses; \<open>to\<close> may be absent, true or false.\<close>

record mode_meta =
  m_path :: bool
  m_pathOptional :: bool
  m_value :: bool
  m_from :: bool
  m_to :: "bool option"
  m_keepOrigin :: bool
  m_pathAlias :: bool

definition no_meta :: mode_meta where
  "no_meta = \<lparr>m_path = False, m_pathOptional = False, m_value = False, m_from = False,
     m_to = None, m_keepOrigin = False, m_pathAlias = False\<rparr>"

definition MODE_META :: "(string \<times> mode_meta) list" where
  "MODE_META =
     [(''delete'', no_meta\<lparr>m_path := True\<rparr>),
      (''set'', no_meta\<lparr>m_path := True, m_value := True, m_keepOrigin := True\<rparr>),
      (''append'', no_meta\<lparr>m_path := True, m_value := True, m_keepOrigin := True\<rparr>),
      (''prepend'', no_meta\<lparr>m_path := True, m_value := True, m_keepOrigin := True\<rparr>),
      (''copy'', no_meta\<lparr>m_from := True, m_to := Some True\<rparr>),
      (''move'', no_meta\<lparr>m_from := True, m_to := Some True\<rparr>),
      (''replace'', no_meta\<lparr>m_path := True, m_from := True, m_to := Some False\<rparr>),
      (''regex_replace'', no_meta\<lparr>m_path := True, m_from := True, m_to := Some False\<rparr>),
      (''trim_prefix'', no_meta\<lparr>m_path := True, m_value := True\<rparr>),
      (''trim_suffix'', no_meta\<lparr>m_path := True, m_value := True\<rparr>),
      (''ensure_prefix'', no_meta\<lparr>m_path := True, m_value := True\<rparr>),
      (''ensure_suffix'', no_meta\<lparr>m_path := True, m_value := True\<rparr>),
      (''trim_space'', no_meta\<lparr>m_path := True\<rparr>),
      (''to_lower'', no_meta\<lparr>m_path := True\<rparr>),
      (''to_upper'', no_meta\<lparr>m_path := True\<rparr>),
      (''return_error'', no_meta\<lparr>m_value := True\<rparr>),
      (''prune_objects'', no_meta\<lparr>m_pathOptional := True, m_value := True\<rparr>),
      (''pass_headers'', no_meta\<lparr>m_value := True, m_keepOrigin := True\<rparr>),
      (''sync_fields'', no_meta\<lparr>m_from := True, m_to := Some True\<rparr>),
      (''set_header'', no_meta\<lparr>m_path := True, m_value := True, m_keepOrigin := True\<rparr>),
      (''delete_header'', no_meta\<lparr>m_path := True\<rparr>),
      (''copy_header'', no_meta\<lparr>m_from := True, m_to := Some True, m_keepOrigin := True, m_pathAlias := True\<rparr>),
      (''move_header'', no_meta\<lparr>m_from := True, m_to := Some True, m_keepOrigin := True, m_pathAlias := True\<rparr>)]"

definition mode_lookup :: "jstr \<Rightarrow> mode_meta option" where
  "mode_lookup mode = map_of (map (\<lambda>(k, m). (js k, m)) MODE_META) mode"

text \<open>\<open>MODE_META[mode] || MODE_META.set\<close>\<close>

definition meta_of :: "jstr \<Rightarrow> mode_meta" where
  "meta_of mode =
     (case mode_lookup mode of
        Some m \<Rightarrow> m
      | None \<Rightarrow> no_meta\<lparr>m_path := True, m_value := True, m_keepOrigin := True\<rparr>)"

definition VALUE_REQUIRED_MODES :: "jstr list" where
  "VALUE_REQUIRED_MODES =
     map js [''trim_prefix'', ''trim_suffix'', ''ensure_prefix'', ''ensure_suffix'', ''set_header'',
       ''return_error'', ''prune_objects'', ''pass_headers'']"

definition FROM_REQUIRED_MODES :: "jstr list" where
  "FROM_REQUIRED_MODES =
     map js [''copy'', ''move'', ''replace'', ''regex_replace'', ''copy_header'', ''move_header'', ''sync_fields'']"

definition TO_REQUIRED_MODES :: "jstr list" where
  "TO_REQUIRED_MODES = map js [''copy'', ''move'', ''copy_header'', ''move_header'', ''sync_fields'']"

section \<open>Values\<close>

definition nextLocalId :: "(nat \<Rightarrow> nat) \<Rightarrow> nat \<Rightarrow> jstr" where
  "nextLocalId clock seed = js ''po_'' @ nat_str (clock seed) @ js ''_'' @ nat_str seed"

text \<open>An absent value is \<open>None\<close>; no JSON value makes \<open>JSON.stringify\<close> throw.\<close>

fun toValueText :: "json option \<Rightarrow> jstr" where
  "toValueText None = []"
| "toValueText (Some (JStr s)) = s"
| "toValueText (Some v) = JSON_stringify v"

definition parseLooseValue :: "jstr \<Rightarrow> json" where
  "parseLooseValue valueText =
     (let raw = trim valueText in
      if raw = [] then JStr []
      else (case JSON_parse raw of Some v \<Rightarrow> v | None \<Rightarrow> JStr raw))"

definition verifyJSON :: "jstr \<Rightarrow> bool" where
  "verifyJSON s \<longleftrightarrow> JSON_parse s \<noteq> None"

definition str_field :: "json \<Rightarrow> string \<Rightarrow> jstr" where
  "str_field v k = (case prop_of v (js k) of Some (JStr s) \<Rightarrow> s | _ \<Rightarrow> [])"

definition true_field :: "json \<Rightarrow> string \<Rightarrow> bool" where
  "true_field v k \<longleftrightarrow> prop_of v (js k) = Some (JBool True)"

definition mode_field :: "jstr list \<Rightarrow> string \<Rightarrow> json \<Rightarrow> jstr" where
  "mode_field modes d v =
     (case prop_of v (js ''mode'') of Some (JStr s) \<Rightarrow> if s \<in> set modes then s else js d | _ \<Rightarrow> js d)"

definition condition_of :: "jstr \<Rightarrow> json \<Rightarrow> po_condition" where
  "condition_of i v =
     \<lparr>c_id = i,
      c_path = str_field v ''path'',
      c_mode = mode_field CONDITION_MODE_VALUES ''full'' v,
      c_value_text = toValueText (prop_of v (js ''value'')),
      c_invert = true_field v ''invert'',
      c_pass_missing_key = true_field v ''pass_missing_key''\<rparr>"

text \<open>Reading a property of \<open>null\<close> throws.\<close>

definition normalizeCondition_po :: "(nat \<Rightarrow> nat) \<Rightarrow> nat \<Rightarrow> json \<Rightarrow> js_error + po_condition \<times> nat" where
  "normalizeCondition_po clock n condition =
     (if condition = JNull then Inl TypeError
      else Inr (condition_of (nextLocalId clock n) condition, Suc n))"

definition createDefaultCondition :: "(nat \<Rightarrow> nat) \<Rightarrow> nat \<Rightarrow> po_condition" where
  "createDefaultCondition clock n = fst (projr (normalizeCondition_po clock n (JObj [])))"

definition condition_items :: "json option \<Rightarrow> json list" where
  "condition_items v = (case v of Some (JArr vs) \<Rightarrow> vs | _ \<Rightarrow> [])"

definition operation_of :: "jstr \<Rightarrow> jstr \<Rightarrow> json \<Rightarrow> po_condition list \<Rightarrow> po_operation" where
  "operation_of i logic v conditions =
     \<lparr>o_id = i,
      o_description = str_field v ''description'',
      o_path = str_field v ''path'',
      o_mode = mode_field OPERATION_MODE_VALUES ''set'' v,
      o_from = str_field v ''from'',
      o_to = str_field v ''to'',
      o_value_text = toValueText (prop_of v (js ''value'')),
      o_keep_origin = true_field v ''keep_origin'',
      o_logic = (if ascii_upper logic = js ''AND'' then js ''AND'' else js ''OR''),
      o_conditions = conditions\<rparr>"

definition normalizeOperation :: "(nat \<Rightarrow> nat) \<Rightarrow> nat \<Rightarrow> json \<Rightarrow> js_error + po_operation \<times> nat" where
  "normalizeOperation clock n operation =
     (if operation = JNull then Inl TypeError
      else and_then (to_String (jor (prop_of operation (js ''logic'')) (JStr (js ''OR'')))) (\<lambda>logic.
        and_then (map_count (normalizeCondition_po clock) (Suc n) (condition_items (prop_of operation (js ''conditions''))))
          (\<lambda>(conditions, n').
            Inr (operation_of (nextLocalId clock n) logic operation conditions, n'))))"

definition createDefaultOperation :: "(nat \<Rightarrow> nat) \<Rightarrow> nat \<Rightarrow> po_operation" where
  "createDefaultOperation clock n =
     fst (projr (normalizeOperation clock n (JObj [(js ''mode'', JStr (js ''set''))])))"

section \<open>Lists of rules\<close>

text \<open>\<open>findIndex\<close> (\<open>None\<close> for \<open>-1\<close>) and \<open>splice\<close>.\<close>

fun find_index :: "('a \<Rightarrow> bool) \<Rightarrow> 'a list \<Rightarrow> nat option" where
  "find_index P [] = None"
| "find_index P (x # xs) = (if P x then Some 0 else map_option Suc (find_index P xs))"

definition remove_at :: "nat \<Rightarrow> 'a list \<Rightarrow> 'a list" where
  "remove_at i xs = take i xs @ drop (Suc i) xs"

definition insert_at :: "nat \<Rightarrow> 'a \<Rightarrow> 'a list \<Rightarrow> 'a list" where
  "insert_at i x xs = take i xs @ x # drop i xs"

datatype drop_position = Before | After

definition reorderOperations ::
  "po_operation list \<Rightarrow> jstr \<Rightarrow> jstr \<Rightarrow> drop_position \<Rightarrow> po_operation list" where
  "reorderOperations ops sourceId targetId position =
     (if sourceId = [] \<or> targetId = [] \<or> sourceId = targetId then ops
      else (case find_index (\<lambda>x. o_id x = sourceId) ops of
          None \<Rightarrow> ops
        | Some srcIdx \<Rightarrow>
            (let moved = ops ! srcIdx; next = remove_at srcIdx ops in
             case find_index (\<lambda>x. o_id x = targetId) next of
               None \<Rightarrow> ops
             | Some i \<Rightarrow> insert_at (if position = After then i + 1 else i) moved next)))"

definition condition_filled :: "po_condition \<Rightarrow> bool" where
  "condition_filled c \<longleftrightarrow>
     trim (c_path c) \<noteq> [] \<or> trim (c_value_text c) \<noteq> [] \<or> c_mode c \<noteq> js ''full'' \<or> c_invert c \<or> c_pass_missing_key c"

definition isOperationBlank :: "po_operation \<Rightarrow> bool" where
  "isOperationBlank operation \<longleftrightarrow>
     o_mode operation = js ''set'' \<and> trim (o_path operation) = [] \<and> trim (o_from operation) = [] \<and>
     trim (o_to operation) = [] \<and> trim (o_value_text operation) = [] \<and> \<not> o_keep_origin operation \<and>
     \<not> list_ex condition_filled (o_conditions operation)"

text \<open>\<open>a || b || ... || '-'\<close> over strings.\<close>

definition first_filled :: "jstr list \<Rightarrow> jstr" where
  "first_filled ss = (case dropWhile (\<lambda>s. s = []) ss of [] \<Rightarrow> js ''-'' | s # _ \<Rightarrow> s)"

definition mode_or_set :: "po_operation \<Rightarrow> jstr" where
  "mode_or_set operation = (if o_mode operation = [] then js ''set'' else o_mode operation)"

definition getOperationSummary :: "po_operation \<Rightarrow> nat \<Rightarrow> jstr" where
  "getOperationSummary operation index =
     (let mode = mode_or_set operation;
          modeLabel = (case obj_get OPERATION_MODE_LABEL_MAP mode of Some l \<Rightarrow> if l = [] then mode else l | None \<Rightarrow> mode);
          ends = [trim (o_from operation), trim (o_to operation)]
      in nat_str (index + 1) @ js ''. '' @ modeLabel @ [32, 183, 32] @
         (if mode = js ''sync_fields'' then first_filled ends
          else first_filled (trim (o_path operation) # ends)))"

definition getModePathLabel :: "jstr \<Rightarrow> jstr" where
  "getModePathLabel mode =
     (if mode = js ''set_header'' \<or> mode = js ''delete_header'' then js ''Header Name''
      else if mode = js ''prune_objects'' then js ''Target Path (optional)''
      else js ''Target Field Path'')"

definition getModePathPlaceholder :: "jstr \<Rightarrow> jstr" where
  "getModePathPlaceholder mode =
     (if mode = js ''set_header'' then js ''Authorization''
      else if mode = js ''delete_header'' then js ''X-Debug-Mode''
      else if mode = js ''prune_objects'' then js ''messages''
      else js ''temperature'')"

definition getModeFromLabel :: "jstr \<Rightarrow> jstr" where
  "getModeFromLabel mode =
     (if mode = js ''replace'' then js ''Match Text''
      else if mode = js ''regex_replace'' then js ''Regex Pattern''
      else if mode = js ''copy_header'' \<or> mode = js ''move_header'' then js ''Source Header''
      else js ''Source Field'')"

definition getModeFromPlaceholder :: "jstr \<Rightarrow> jstr" where
  "getModeFromPlaceholder mode =
     (if mode = js ''replace'' then js ''openai/''
      else if mode = js ''regex_replace'' then js ''^gpt-''
      else if mode = js ''copy_header'' \<or> mode = js ''move_header'' then js ''Authorization''
      else js ''model'')"

definition getModeToLabel :: "jstr \<Rightarrow> jstr" where
  "getModeToLabel mode =
     (if mode = js ''replace'' \<or> mode = js ''regex_replace'' then js ''Replace With''
      else if mode = js ''copy_header'' \<or> mode = js ''move_header'' then js ''Target Header''
      else js ''Target Field'')"

definition getModeToPlaceholder :: "jstr \<Rightarrow> jstr" where
  "getModeToPlaceholder mode =
     (if mode = js ''replace'' then js ''(leave empty to delete)''
      else if mode = js ''regex_replace'' then js ''openai/gpt-''
      else if mode = js ''copy_header'' \<or> mode = js ''move_header'' then js ''X-Upstream-Auth''
      else js ''original_model'')"

definition is_affix_mode :: "jstr \<Rightarrow> bool" where
  "is_affix_mode mode \<longleftrightarrow>
     mode = js ''trim_prefix'' \<or> mode = js ''trim_suffix'' \<or> mode = js ''ensure_prefix'' \<or> mode = js ''ensure_suffix''"

definition getModeValueLabel :: "jstr \<Rightarrow> jstr" where
  "getModeValueLabel mode =
     (if mode = js ''set_header'' then js ''Header Value (supports string or JSON mapping)''
      else if mode = js ''pass_headers'' then js ''Pass-through Headers (comma-separated or JSON array)''
      else if is_affix_mode mode then js ''Prefix/Suffix Text''
      else if mode = js ''prune_objects'' then js ''Prune Rule (string or JSON object)''
      else js ''Value (supports JSON or plain text)'')"

definition getModeValuePlaceholder :: "jstr \<Rightarrow> jstr" where
  "getModeValuePlaceholder mode =
     (if mode = js ''set_header'' then js ''Bearer sk-xxx''
      else if mode = js ''pass_headers'' then js ''Authorization, X-Request-Id''
      else if is_affix_mode mode then js ''openai/''
      else if mode = js ''prune_objects'' then js ''{\"type\":\"redacted_thinking\"}''
      else js ''0.7'')"

section \<open>Synchronised fields\<close>

text \<open>A target is its type and key.\<close>

definition parseSyncTargetSpec :: "jstr \<Rightarrow> jstr \<times> jstr" where
  "parseSyncTargetSpec spec =
     (let raw = trim spec in
      if raw = [] then (js ''json'', [])
      else (case index_of raw (js '':'') of
          None \<Rightarrow> (js ''json'', raw)
        | Some idx \<Rightarrow>
            (let prefix = ascii_lower (trim (take idx raw)); key = trim (drop (idx + 1) raw) in
             if prefix = js ''header'' then (js ''header'', key) else (js ''json'', key))))"

definition buildSyncTargetSpec :: "jstr \<Rightarrow> jstr \<Rightarrow> jstr" where
  "buildSyncTargetSpec type key =
     (let normalizedType = (if type = js ''header'' then js ''header'' else js ''json'');
          normalizedKey = trim key
      in if normalizedKey = [] then [] else normalizedType @ js '':'' @ normalizedKey)"

section \<open>Custom errors\<close>

record ReturnErrorDraft =
  re_message :: jstr
  re_statusCode :: jsnum
  re_code :: jstr
  re_type :: jstr
  re_skipRetry :: bool
  re_simpleMode :: bool

definition error_defaults :: ReturnErrorDraft where
  "error_defaults = \<lparr>re_message = [], re_statusCode = num_of_nat 400, re_code = [], re_type = [],
     re_skipRetry = True, re_simpleMode = True\<rparr>"

definition status_or_400 :: "jsnum \<Rightarrow> jsnum" where
  "status_or_400 x =
     (if num_isInteger x \<and> \<not> num_less x (num_of_nat 100) \<and> \<not> num_less (num_of_nat 599) x then x
      else num_of_nat 400)"

text \<open>The fields of a parsed object; an exception makes the caller fall back to plain text.\<close>

definition status_raw :: "json jobj \<Rightarrow> js_error + jsnum" where
  "status_raw parsed =
     (case (case obj_get parsed (js ''status_code'') of Some v \<Rightarrow> Some v | None \<Rightarrow> obj_get parsed (js ''status'')) of
        None \<Rightarrow> Inr NaN
      | Some v \<Rightarrow> to_num v)"

definition error_draft_of :: "json jobj \<Rightarrow> js_error + ReturnErrorDraft" where
  "error_draft_of parsed =
     and_then (status_raw parsed) (\<lambda>statusValue.
     and_then (to_String (jor (obj_get parsed (js ''message'')) (jor (obj_get parsed (js ''msg'')) (JStr [])))) (\<lambda>message.
     and_then (to_String (jor (obj_get parsed (js ''code'')) (JStr []))) (\<lambda>code.
     and_then (to_String (jor (obj_get parsed (js ''type'')) (JStr []))) (\<lambda>type.
       Inr \<lparr>re_message = trim message, re_statusCode = status_or_400 statusValue, re_code = trim code,
         re_type = trim type, re_skipRetry = (obj_get parsed (js ''skip_retry'') \<noteq> Some (JBool False)),
         re_simpleMode = False\<rparr>))))"

definition parseReturnErrorDraft :: "jstr \<Rightarrow> ReturnErrorDraft" where
  "parseReturnErrorDraft valueText =
     (let raw = trim valueText; plain = error_defaults\<lparr>re_message := raw, re_simpleMode := True\<rparr> in
      if raw = [] then error_defaults
      else (case JSON_parse raw of
          Some (JObj parsed) \<Rightarrow> (case error_draft_of parsed of Inr d \<Rightarrow> d | Inl _ \<Rightarrow> plain)
        | _ \<Rightarrow> plain))"

definition set_if :: "bool \<Rightarrow> string \<Rightarrow> json \<Rightarrow> json jobj \<Rightarrow> json jobj" where
  "set_if b k v ob = (if b then obj_set (js k) v ob else ob)"

definition error_payload :: "ReturnErrorDraft \<Rightarrow> json jobj" where
  "error_payload draft =
     (let code = trim (re_code draft); type = trim (re_type draft) in
      set_if (\<not> re_skipRetry draft) ''skip_retry'' (JBool False)
       (set_if (type \<noteq> []) ''type'' (JStr type)
        (set_if (code \<noteq> []) ''code'' (JStr code)
         [(js ''message'', JStr (trim (re_message draft))),
          (js ''status_code'', JNum (status_or_400 (re_statusCode draft)))])))"

definition buildReturnErrorValueText :: "ReturnErrorDraft \<Rightarrow> jstr" where
  "buildReturnErrorValueText draft =
     (if re_simpleMode draft then trim (re_message draft) else JSON_stringify (JObj (error_payload draft)))"

section \<open>Object pruning\<close>

type_synonym PruneRule = po_condition

record PruneObjectsDraft =
  pd_simpleMode :: bool
  pd_typeText :: jstr
  pd_logic :: jstr
  pd_recursive :: bool
  pd_rules :: "PruneRule list"

definition prune_defaults :: PruneObjectsDraft where
  "prune_defaults = \<lparr>pd_simpleMode = True, pd_typeText = [], pd_logic = js ''AND'', pd_recursive = True, pd_rules = []\<rparr>"

text \<open>Every caller passes an object, so no property of \<open>null\<close> is read.\<close>

definition normalizePruneRule :: "(nat \<Rightarrow> nat) \<Rightarrow> nat \<Rightarrow> json \<Rightarrow> PruneRule" where
  "normalizePruneRule clock n rule = condition_of (nextLocalId clock n) rule"

definition entry_rule :: "jstr \<times> json \<Rightarrow> json" where
  "entry_rule e = JObj [(js ''path'', JStr (fst e)), (js ''mode'', JStr (js ''full'')), (js ''value'', snd e)]"

fun is_composite :: "json \<Rightarrow> bool" where
  "is_composite (JObj _) = True"
| "is_composite (JArr _) = True"
| "is_composite _ = False"

definition rule_items :: "json jobj \<Rightarrow> json list" where
  "rule_items parsed =
     (case obj_get parsed (js ''where'') of Some (JObj w) \<Rightarrow> map entry_rule w | _ \<Rightarrow> []) @
     (case obj_get parsed (js ''conditions'') of
        Some (JArr vs) \<Rightarrow> filter is_composite vs
      | Some (JObj w) \<Rightarrow> map entry_rule w
      | _ \<Rightarrow> [])"

definition numbered_rules :: "(nat \<Rightarrow> nat) \<Rightarrow> nat \<Rightarrow> json list \<Rightarrow> PruneRule list" where
  "numbered_rules clock n items = map2 (normalizePruneRule clock) [n ..< n + length items] items"

definition prune_type_text :: "json jobj \<Rightarrow> js_error + jstr" where
  "prune_type_text parsed =
     (case obj_get parsed (js ''type'') of None \<Rightarrow> Inr [] | Some v \<Rightarrow> map_sum id trim (to_String v))"

definition prune_draft_of :: "json jobj \<Rightarrow> PruneRule list \<Rightarrow> js_error + PruneObjectsDraft" where
  "prune_draft_of parsed rules =
     and_then (prune_type_text parsed) (\<lambda>typeText.
     and_then (to_String (jor (obj_get parsed (js ''logic'')) (JStr (js ''AND'')))) (\<lambda>logic.
       Inr \<lparr>pd_simpleMode = (obj_get parsed (js ''logic'') = None \<and> obj_get parsed (js ''recursive'') = None \<and>
               obj_get parsed (js ''where'') = None \<and> obj_get parsed (js ''conditions'') = None),
         pd_typeText = typeText,
         pd_logic = (if ascii_upper logic = js ''OR'' then js ''OR'' else js ''AND''),
         pd_recursive = (obj_get parsed (js ''recursive'') \<noteq> Some (JBool False)),
         pd_rules = rules\<rparr>))"

text \<open>\<open>String(v ?? '').trim()\<close> of a value that is no object.\<close>

definition plain_type_text :: "json \<Rightarrow> js_error + jstr" where
  "plain_type_text v = (if v = JNull then Inr [] else map_sum id trim (to_String v))"

definition or_raw :: "jstr \<Rightarrow> js_error + PruneObjectsDraft \<Rightarrow> PruneObjectsDraft" where
  "or_raw raw r = (case r of Inr d \<Rightarrow> d | Inl _ \<Rightarrow> prune_defaults\<lparr>pd_typeText := raw\<rparr>)"

definition parsePruneObjectsDraft :: "(nat \<Rightarrow> nat) \<Rightarrow> nat \<Rightarrow> jstr \<Rightarrow> PruneObjectsDraft \<times> nat" where
  "parsePruneObjectsDraft clock n valueText =
     (let raw = trim valueText in
      if raw = [] then (prune_defaults, n)
      else (case JSON_parse raw of
          None \<Rightarrow> (prune_defaults\<lparr>pd_typeText := raw\<rparr>, n)
        | Some (JObj parsed) \<Rightarrow>
            (let items = rule_items parsed in
             (or_raw raw (prune_draft_of parsed (numbered_rules clock n items)), n + length items))
        | Some v \<Rightarrow> (or_raw raw (map_sum id (\<lambda>s. prune_defaults\<lparr>pd_typeText := s\<rparr>) (plain_type_text v)), n)))"

definition rule_payload :: "PruneRule \<Rightarrow> json" where
  "rule_payload rule =
     (let valueRaw = trim (c_value_text rule) in
      JObj (set_if (c_pass_missing_key rule) ''pass_missing_key'' (JBool True)
        (set_if (c_invert rule) ''invert'' (JBool True)
         (set_if (valueRaw \<noteq> []) ''value'' (parseLooseValue valueRaw)
          [(js ''path'', JStr (trim (c_path rule))),
           (js ''mode'', JStr (if c_mode rule \<in> set CONDITION_MODE_VALUES then c_mode rule else js ''full''))]))))"

definition prune_conditions :: "PruneRule list \<Rightarrow> json list" where
  "prune_conditions rules = map rule_payload (filter (\<lambda>rule. trim (c_path rule) \<noteq> []) rules)"

definition prune_payload :: "PruneObjectsDraft \<Rightarrow> json jobj" where
  "prune_payload draft =
     (let typeText = trim (pd_typeText draft); conditions = prune_conditions (pd_rules draft) in
      set_if (conditions \<noteq> []) ''conditions'' (JArr conditions)
       (set_if (\<not> pd_recursive draft) ''recursive'' (JBool False)
        (set_if (ascii_upper (if pd_logic draft = [] then js ''AND'' else pd_logic draft) = js ''OR'') ''logic'' (JStr (js ''OR''))
         (set_if (typeText \<noteq> []) ''type'' (JStr typeText) []))))"

definition buildPruneObjectsValueText :: "PruneObjectsDraft \<Rightarrow> jstr" where
  "buildPruneObjectsValueText draft =
     (if pd_simpleMode draft then trim (pd_typeText draft)
      else (let payload = prune_payload draft in
        if obj_get payload (js ''type'') = None \<and> obj_get payload (js ''conditions'') = None
        then JSON_stringify (JObj [(js ''logic'', JStr (js ''AND''))])
        else JSON_stringify (JObj payload)))"

section \<open>Passed headers\<close>

text \<open>\<open>String(i ?? '').trim()\<close> of every item, without the empty ones.\<close>

fun header_items :: "json list \<Rightarrow> js_error + jstr list" where
  "header_items [] = Inr []"
| "header_items (v # vs) =
     and_then (plain_type_text v) (\<lambda>s.
     and_then (header_items vs) (\<lambda>ss. Inr (if s = [] then ss else s # ss)))"

fun parsePassHeaderNames :: "json \<Rightarrow> js_error + jstr list" where
  "parsePassHeaderNames (JArr vs) = header_items vs"
| "parsePassHeaderNames (JObj ob) =
     (case obj_get ob (js ''headers'') of
        Some (JArr vs) \<Rightarrow> header_items vs
      | _ \<Rightarrow> (case obj_get ob (js ''header'') of
          Some v \<Rightarrow> header_items [v]
        | None \<Rightarrow> Inr []))"
| "parsePassHeaderNames (JStr s) = Inr (filter (\<lambda>i. i \<noteq> []) (map trim (split_char 44 s)))"
| "parsePassHeaderNames _ = Inr []"

section \<open>Validation\<close>

text \<open>
  The translation function of the user interface gets a key and the number of the rule.  A failed
  check returns at once with a message; a rule that passes is \<open>None\<close>.
\<close>

type_synonym translate = "jstr \<Rightarrow> nat option \<Rightarrow> jstr"

definition buildConditionPayload :: "po_condition \<Rightarrow> json option" where
  "buildConditionPayload condition =
     (let path = trim (c_path condition) in
      if path = [] then None
      else Some (JObj (set_if (c_pass_missing_key condition) ''pass_missing_key'' (JBool True)
        (set_if (c_invert condition) ''invert'' (JBool True)
         [(js ''path'', JStr path),
          (js ''mode'', JStr (if c_mode condition = [] then js ''full'' else c_mode condition)),
          (js ''value'', parseLooseValue (c_value_text condition))]))))"

definition missing_source :: "mode_meta \<Rightarrow> jstr \<Rightarrow> jstr \<Rightarrow> jstr \<Rightarrow> bool" where
  "missing_source meta mode fromValue pathValue \<longleftrightarrow>
     mode \<in> set FROM_REQUIRED_MODES \<and> fromValue = [] \<and> \<not> (m_pathAlias meta \<and> pathValue \<noteq> [])"

definition missing_target :: "mode_meta \<Rightarrow> jstr \<Rightarrow> jstr \<Rightarrow> jstr \<Rightarrow> bool" where
  "missing_target meta mode toValue pathValue \<longleftrightarrow>
     mode \<in> set TO_REQUIRED_MODES \<and> toValue = [] \<and> \<not> (m_pathAlias meta \<and> pathValue \<noteq> [])"

text \<open>An object without a message; a text that is no JSON, or whose message cannot be converted, is allowed.\<close>

definition lacks_message :: "jstr \<Rightarrow> bool" where
  "lacks_message raw =
     (case JSON_parse raw of
        Some (JObj parsed) \<Rightarrow>
          (case to_String (jor (obj_get parsed (js ''message'')) (JStr [])) of Inr s \<Rightarrow> trim s = [] | Inl _ \<Rightarrow> False)
      | _ \<Rightarrow> False)"

definition check_headers :: "translate \<Rightarrow> nat \<Rightarrow> jstr \<Rightarrow> js_error + jstr option" where
  "check_headers t line raw =
     and_then (parsePassHeaderNames (parseLooseValue raw)) (\<lambda>headers.
       Inr (if headers = [] then Some (t (js ''Rule {{line}} pass_headers format is invalid'') (Some line)) else None))"

definition validate_operation :: "translate \<Rightarrow> nat \<Rightarrow> po_operation \<Rightarrow> js_error + jstr option" where
  "validate_operation t line op =
     (let mode = mode_or_set op; meta = meta_of mode; pathValue = trim (o_path op);
          raw = trim (o_value_text op); fail = (\<lambda>key. Inr (Some (t (js key) (Some line)))) in
      if m_path meta \<and> pathValue = [] then fail ''Rule {{line}} is missing target path''
      else if missing_source meta mode (trim (o_from op)) pathValue then fail ''Rule {{line}} is missing source field''
      else if missing_target meta mode (trim (o_to op)) pathValue then fail ''Rule {{line}} is missing target field''
      else if mode \<in> set VALUE_REQUIRED_MODES \<and> raw = [] then fail ''Rule {{line}} is missing value''
      else if mode = js ''return_error'' \<and> raw = [] then fail ''Rule {{line}} is missing value''
      else if mode = js ''return_error'' \<and> lacks_message raw then fail ''Rule {{line}} return_error requires a message field''
      else if mode = js ''prune_objects'' \<and> raw = [] then fail ''Rule {{line}} prune_objects is missing conditions''
      else if mode = js ''pass_headers'' \<and> raw = [] then fail ''Rule {{line}} pass_headers is missing header names''
      else if mode = js ''pass_headers'' then check_headers t line raw
      else Inr None)"

fun validate_from :: "translate \<Rightarrow> nat \<Rightarrow> po_operation list \<Rightarrow> js_error + jstr" where
  "validate_from t line [] = Inr []"
| "validate_from t line (op # ops) =
     and_then (validate_operation t line op) (\<lambda>r.
       case r of Some message \<Rightarrow> Inr message | None \<Rightarrow> validate_from t (line + 1) ops)"

definition validateOperations :: "po_operation list \<Rightarrow> translate \<Rightarrow> js_error + jstr" where
  "validateOperations operations t = validate_from t 1 operations"

section \<open>The stored JSON\<close>

definition falsy_text :: "json option \<Rightarrow> bool" where
  "falsy_text v = (case v of None \<Rightarrow> True | Some w \<Rightarrow> \<not> jtruthy w)"

definition base_payload :: "po_operation \<Rightarrow> json jobj" where
  "base_payload operation =
     (let mode = mode_or_set operation; meta = meta_of mode; description = trim (o_description operation);
          pathValue = trim (o_path operation); toValue = trim (o_to operation) in
      set_if (m_to meta = Some True) ''to'' (JStr toValue)
       (set_if (m_to meta \<noteq> Some True \<and> toValue \<noteq> []) ''to'' (JStr toValue)
        (set_if (m_from meta) ''from'' (JStr (trim (o_from operation)))
         (set_if (m_keepOrigin meta \<and> o_keep_origin operation) ''keep_origin'' (JBool True)
          (set_if (m_value meta) ''value'' (parseLooseValue (o_value_text operation))
           (set_if (m_pathOptional meta \<and> pathValue \<noteq> []) ''path'' (JStr pathValue)
            (set_if (m_path meta) ''path'' (JStr pathValue)
             (set_if (description \<noteq> []) ''description'' (JStr description)
              [(js ''mode'', JStr mode)]))))))))"

definition alias_payload :: "mode_meta \<Rightarrow> jstr \<Rightarrow> json jobj \<Rightarrow> json jobj" where
  "alias_payload meta pathValue payload =
     (if m_pathAlias meta then
        (let payload' = set_if (falsy_text (obj_get payload (js ''from'')) \<and> pathValue \<noteq> []) ''from'' (JStr pathValue) payload
         in set_if (falsy_text (obj_get payload' (js ''to'')) \<and> pathValue \<noteq> []) ''to'' (JStr pathValue) payload')
      else payload)"

definition operation_payload :: "po_operation \<Rightarrow> json" where
  "operation_payload operation =
     (let payload = alias_payload (meta_of (mode_or_set operation)) (trim (o_path operation)) (base_payload operation);
          conditions = List.map_filter buildConditionPayload (o_conditions operation) in
      JObj (if conditions \<noteq> [] then
              obj_set (js ''logic'') (JStr (if o_logic operation = js ''AND'' then js ''AND'' else js ''OR''))
                (obj_set (js ''conditions'') (JArr conditions) payload)
            else payload))"

text \<open>What the code throws: an \<open>Error\<close> with a message of its own, or an exception of the language.\<close>

datatype po_error = Message jstr | Engine js_error

definition filled_operations :: "po_operation list \<Rightarrow> po_operation list" where
  "filled_operations ops = filter (\<lambda>x. \<not> isOperationBlank x) ops"

definition operations_json :: "po_operation list \<Rightarrow> json" where
  "operations_json ops = JObj [(js ''operations'', JArr (map operation_payload ops))]"

definition buildOperationsJson :: "po_operation list \<Rightarrow> bool \<Rightarrow> translate \<Rightarrow> po_error + jstr" where
  "buildOperationsJson sourceOperations validate t =
     (let filteredOps = filled_operations sourceOperations in
      if filteredOps = [] then Inr []
      else and_then (if validate then map_sum Engine id (validateOperations filteredOps t) else Inr []) (\<lambda>message.
        if message \<noteq> [] then Inl (Message message)
        else Inr (JSON_pretty (operations_json filteredOps))))"

end
