(* ===== verification/Param_Override_Editor.thy ===== *)
theory Param_Override_Editor
  imports Param_Override
begin

text \<open>
  The state of the parameter override dialog and its handlers
  (features/channels/components/dialogs/param-override-editor-dialog.tsx, component
  ParamOverrideEditorDialog and the editors it renders): opening, editing rules, conditions and
  drafts, dragging, switching between the visual and the text mode, templates and saving.

  A handler is a function from the state before to the state after the React updates it queues.
  Exceptions that leave a handler are \<open>Inl\<close>.  What belongs to the surroundings is an argument:
  the clock, the translation function, the text of an exception of the language, the pointer
  position and the data of a drag, and whether React ran an updater at once.
\<close>

section \<open>Templates\<close>

definition jstr_of :: "string \<Rightarrow> json" where
  "jstr_of s = JStr (js s)"

definition jobject :: "(string \<times> json) list \<Rightarrow> json" where
  "jobject ps = JObj (map (\<lambda>(k, v). (js k, v)) ps)"

definition LEGACY_TEMPLATE :: json where
  "LEGACY_TEMPLATE = jobject [(''temperature'', JNum (num_of_nat 0)), (''max_tokens'', JNum (num_of_nat 1000))]"

definition OPERATION_TEMPLATE :: json where
  "OPERATION_TEMPLATE = jobject [(''operations'', JArr [jobject
     [(''description'', jstr_of ''Set default temperature for openai/* models.''),
      (''path'', jstr_of ''temperature''),
      (''mode'', jstr_of ''set''),
      (''value'', JNum (dec_double 7 (-1))),
      (''conditions'', JArr [jobject [(''path'', jstr_of ''model''), (''mode'', jstr_of ''prefix''), (''value'', jstr_of ''openai/'')]]),
      (''logic'', jstr_of ''AND'')]])]"

definition HEADER_PASSTHROUGH_TEMPLATE :: json where
  "HEADER_PASSTHROUGH_TEMPLATE = jobject [(''operations'', JArr [jobject
     [(''description'', jstr_of ''Pass through X-Request-Id header to upstream.''),
      (''mode'', jstr_of ''pass_headers''),
      (''value'', JArr [jstr_of ''X-Request-Id'']),
      (''keep_origin'', JBool True)]])]"

definition model_condition :: "string \<Rightarrow> string \<Rightarrow> json" where
  "model_condition mode value =
     jobject [(''path'', jstr_of ''original_model''), (''mode'', jstr_of mode), (''value'', jstr_of value)]"

definition GEMINI_IMAGE_4K_TEMPLATE :: json where
  "GEMINI_IMAGE_4K_TEMPLATE = jobject [(''operations'', JArr [jobject
     [(''description'', jstr_of ''Set imageSize to 4K when model contains gemini/image and ends with 4k.''),
      (''mode'', jstr_of ''set''),
      (''path'', jstr_of ''generationConfig.imageConfig.imageSize''),
      (''value'', jstr_of ''4K''),
      (''conditions'', JArr [model_condition ''contains'' ''gemini'', model_condition ''contains'' ''image'',
        model_condition ''suffix'' ''4k'']),
      (''logic'', jstr_of ''AND'')]])]"

definition CODEX_CLI_HEADER_PASSTHROUGH_HEADERS :: "string list" where
  "CODEX_CLI_HEADER_PASSTHROUGH_HEADERS =
     [''Originator'', ''Session_id'', ''User-Agent'', ''X-Codex-Beta-Features'', ''X-Codex-Turn-Metadata'']"

definition CLAUDE_CLI_HEADER_PASSTHROUGH_HEADERS :: "string list" where
  "CLAUDE_CLI_HEADER_PASSTHROUGH_HEADERS =
     [''X-Stainless-Arch'', ''X-Stainless-Lang'', ''X-Stainless-Os'', ''X-Stainless-Package-Version'',
      ''X-Stainless-Retry-Count'', ''X-Stainless-Runtime'', ''X-Stainless-Runtime-Version'', ''X-Stainless-Timeout'',
      ''User-Agent'', ''X-App'', ''Anthropic-Beta'', ''Anthropic-Dangerous-Direct-Browser-Access'', ''Anthropic-Version'']"

definition buildPassHeadersTemplate :: "string list \<Rightarrow> json" where
  "buildPassHeadersTemplate headers = jobject [(''operations'', JArr [jobject
     [(''mode'', jstr_of ''pass_headers''), (''value'', JArr (map jstr_of headers)), (''keep_origin'', JBool True)]])]"

definition beta_tokens :: "(string \<times> string option) list" where
  "beta_tokens =
     [(''advanced-tool-use-2025-11-20'', Some ''tool-search-tool-2025-10-19''),
      (''bash_20241022'', None),
      (''bash_20250124'', None),
      (''code-execution-2025-08-25'', None),
      (''compact-2026-01-12'', Some ''compact-2026-01-12''),
      (''computer-use-2025-01-24'', Some ''computer-use-2025-01-24''),
      (''computer-use-2025-11-24'', Some ''computer-use-2025-11-24''),
      (''context-1m-2025-08-07'', Some ''context-1m-2025-08-07''),
      (''context-management-2025-06-27'', Some ''context-management-2025-06-27''),
      (''effort-2025-11-24'', None),
      (''fast-mode-2026-02-01'', None),
      (''files-api-2025-04-14'', None),
      (''fine-grained-tool-streaming-2025-05-14'', None),
      (''interleaved-thinking-2025-05-14'', Some ''interleaved-thinking-2025-05-14''),
      (''mcp-client-2025-11-20'', None),
      (''mcp-client-2025-04-04'', None),
      (''mcp-servers-2025-12-04'', None),
      (''output-128k-2025-02-19'', None),
      (''structured-output-2024-03-01'', None),
      (''prompt-caching-scope-2026-01-05'', None),
      (''skills-2025-10-02'', None),
      (''structured-outputs-2025-11-13'', None),
      (''text_editor_20241022'', None),
      (''text_editor_20250124'', None),
      (''token-efficient-tools-2025-02-19'', None),
      (''tool-search-tool-2025-10-19'', Some ''tool-search-tool-2025-10-19''),
      (''web-fetch-2025-09-10'', None),
      (''web-search-2025-03-05'', None),
      (''oauth-2025-04-20'', None)]"

definition AWS_BEDROCK_ANTHROPIC_COMPAT_TEMPLATE :: json where
  "AWS_BEDROCK_ANTHROPIC_COMPAT_TEMPLATE = jobject [(''operations'', JArr
     [jobject
       [(''description'', jstr_of ''Normalize anthropic-beta header tokens for Bedrock compatibility.''),
        (''mode'', jstr_of ''set_header''),
        (''path'', jstr_of ''anthropic-beta''),
        (''value'', jobject (map (\<lambda>(k, v). (k, case v of None \<Rightarrow> JNull | Some s \<Rightarrow> jstr_of s)) beta_tokens))],
      jobject
       [(''description'', jstr_of ''Remove all tools[*].custom.input_examples before upstream relay.''),
        (''mode'', jstr_of ''delete''),
        (''path'', jstr_of ''tools.*.custom.input_examples'')]])]"

datatype preset_kind = Operations_Kind | Legacy_Kind

definition TEMPLATE_PRESET_CONFIG :: "(string \<times> string \<times> preset_kind \<times> json) list" where
  "TEMPLATE_PRESET_CONFIG =
     [(''operations_default'', ''New Format Template'', Operations_Kind, OPERATION_TEMPLATE),
      (''legacy_default'', ''Legacy Format Template'', Legacy_Kind, LEGACY_TEMPLATE),
      (''pass_headers_auth'', ''Header Passthrough (X-Request-Id)'', Operations_Kind, HEADER_PASSTHROUGH_TEMPLATE),
      (''gemini_image_4k'', ''Gemini Image 4K'', Operations_Kind, GEMINI_IMAGE_4K_TEMPLATE),
      (''claude_cli_headers_passthrough'', ''Claude CLI Header Passthrough'', Operations_Kind,
        buildPassHeadersTemplate CLAUDE_CLI_HEADER_PASSTHROUGH_HEADERS),
      (''codex_cli_headers_passthrough'', ''Codex CLI Header Passthrough'', Operations_Kind,
        buildPassHeadersTemplate CODEX_CLI_HEADER_PASSTHROUGH_HEADERS),
      (''aws_bedrock_anthropic_beta_override'', ''AWS Bedrock Claude Compat'', Operations_Kind,
        AWS_BEDROCK_ANTHROPIC_COMPAT_TEMPLATE)]"

text \<open>\<open>TEMPLATE_PRESET_CONFIG[key] || TEMPLATE_PRESET_CONFIG.operations_default\<close>\<close>

definition preset_of :: "jstr \<Rightarrow> preset_kind \<times> json" where
  "preset_of key =
     (case map_of (map (\<lambda>(k, _, p). (js k, p)) TEMPLATE_PRESET_CONFIG) key of
        Some p \<Rightarrow> p
      | None \<Rightarrow> (Operations_Kind, OPERATION_TEMPLATE))"

section \<open>State\<close>

datatype edit_mode = Visual | Json_Text
datatype visual_mode = Operations | Legacy

record EditorState =
  editMode :: edit_mode
  visualMode :: visual_mode
  legacyValue :: jstr
  operations :: "po_operation list"
  jsonText :: jstr
  jsonError :: jstr

text \<open>
  The rest of the component's state, the counter of the module, and what the component does to
  its surroundings: the error toasts it showed and the texts it handed to \<open>onSave\<close>.
\<close>

record editor = EditorState +
  operationSearch :: jstr
  selectedOperationId :: jstr
  expandedConditions :: "bool jobj"
  draggedOperationId :: jstr
  dragOverOperationId :: jstr
  dragOverPosition :: drop_position
  templatePresetKey :: jstr
  localIdSeed :: nat
  toasts :: "jstr list"
  saved :: "jstr list"
  is_open :: bool

record po_env =
  clock :: "nat \<Rightarrow> nat"
  tr :: translate
  engine_message :: "js_error \<Rightarrow> jstr"

definition error_message :: "po_env \<Rightarrow> po_error \<Rightarrow> jstr" where
  "error_message env e = (case e of Message m \<Rightarrow> m | Engine x \<Rightarrow> engine_message env x)"

section \<open>Opening\<close>

text \<open>A whole list of stored rules, or one default rule.\<close>

definition rules_of :: "(nat \<Rightarrow> nat) \<Rightarrow> nat \<Rightarrow> json list \<Rightarrow> js_error + po_operation list \<times> nat" where
  "rules_of clk n vs =
     (if vs \<noteq> [] then map_count (normalizeOperation clk) n vs else Inr ([createDefaultOperation clk n], Suc n))"

definition visual_state :: "visual_mode \<Rightarrow> jstr \<Rightarrow> po_operation list \<Rightarrow> jstr \<Rightarrow> EditorState" where
  "visual_state vm legacy ops pretty_text =
     \<lparr>editMode = Visual, visualMode = vm, legacyValue = legacy, operations = ops, jsonText = pretty_text, jsonError = []\<rparr>"

definition text_state :: "po_operation \<Rightarrow> jstr \<Rightarrow> jstr \<Rightarrow> EditorState" where
  "text_state x content err =
     \<lparr>editMode = Json_Text, visualMode = Operations, legacyValue = [], operations = [x], jsonText = content, jsonError = err\<rparr>"

definition parseInitialState :: "(nat \<Rightarrow> nat) \<Rightarrow> nat \<Rightarrow> jstr \<Rightarrow> js_error + EditorState \<times> nat" where
  "parseInitialState clk n rawValue =
     (let trimmed_text = trim rawValue; x = createDefaultOperation clk n in
      if trimmed_text = [] then Inr (visual_state Operations [] [x] [], Suc n)
      else (case JSON_parse trimmed_text of
          None \<Rightarrow> Inr (text_state x rawValue (js ''Invalid JSON format''), Suc n)
        | Some parsed \<Rightarrow>
            (case (is_object parsed, prop_of parsed (js ''operations'')) of
               (True, Some (JArr vs)) \<Rightarrow>
                 and_then (rules_of clk n vs) (\<lambda>(ops, n'). Inr (visual_state Operations [] ops (JSON_pretty parsed), n'))
             | (True, _) \<Rightarrow> Inr (visual_state Legacy (JSON_pretty parsed) [x] (JSON_pretty parsed), Suc n)
             | (False, _) \<Rightarrow> Inr (text_state x (JSON_pretty parsed) [], Suc n))))"

definition first_id :: "po_operation list \<Rightarrow> jstr" where
  "first_id ops = (case ops of [] \<Rightarrow> [] | x # _ \<Rightarrow> o_id x)"

text \<open>The effect that runs when the dialog opens or its value changes.\<close>

definition initialize :: "po_env \<Rightarrow> jstr \<Rightarrow> editor \<Rightarrow> js_error + editor" where
  "initialize env value st =
     and_then (parseInitialState (clock env) (localIdSeed st) value) (\<lambda>(s, n).
       Inr (st\<lparr>editMode := editMode s, visualMode := visualMode s, legacyValue := legacyValue s,
         operations := operations s, jsonText := jsonText s, jsonError := jsonError s, operationSearch := [],
         selectedOperationId := first_id (operations s), expandedConditions := [], draggedOperationId := [],
         dragOverOperationId := [], dragOverPosition := Before,
         templatePresetKey := (if visualMode s = Legacy then js ''legacy_default'' else js ''operations_default''),
         localIdSeed := n, is_open := True\<rparr>))"

text \<open>The effect that keeps the selected rule in the list.\<close>

definition keepSelection :: "editor \<Rightarrow> editor" where
  "keepSelection st =
     (if operations st = [] then st\<lparr>selectedOperationId := []\<rparr>
      else if \<not> list_ex (\<lambda>x. o_id x = selectedOperationId st) (operations st)
      then st\<lparr>selectedOperationId := first_id (operations st)\<rparr>
      else st)"

definition operationCount :: "editor \<Rightarrow> nat" where
  "operationCount st = length (filter (\<lambda>x. \<not> isOperationBlank x) (operations st))"

definition selectedOperation :: "editor \<Rightarrow> po_operation option" where
  "selectedOperation st = List.find (\<lambda>x. o_id x = selectedOperationId st) (operations st)"

definition returnErrorDraft :: "editor \<Rightarrow> ReturnErrorDraft option" where
  "returnErrorDraft st =
     (case selectedOperation st of
        None \<Rightarrow> None
      | Some x \<Rightarrow> if o_mode x \<noteq> js ''return_error'' then None else Some (parseReturnErrorDraft (o_value_text x)))"

definition pruneObjectsDraft :: "po_env \<Rightarrow> editor \<Rightarrow> (PruneObjectsDraft \<times> nat) option" where
  "pruneObjectsDraft env st =
     (case selectedOperation st of
        None \<Rightarrow> None
      | Some x \<Rightarrow> if o_mode x \<noteq> js ''prune_objects'' then None
          else Some (parsePruneObjectsDraft (clock env) (localIdSeed st) (o_value_text x)))"

text \<open>The four most frequent modes, the more frequent first and ties in order of first use.\<close>

definition mode_counts :: "po_operation list \<Rightarrow> nat jobj" where
  "mode_counts ops =
     fold (\<lambda>x counts. obj_set (mode_or_set x) ((case obj_get counts (mode_or_set x) of None \<Rightarrow> 0 | Some c \<Rightarrow> c) + 1) counts) ops []"

definition topOperationModes :: "editor \<Rightarrow> (jstr \<times> nat) list" where
  "topOperationModes st = take 4 (sort_key (\<lambda>(_, c). - int c) (mode_counts (operations st)))"

section \<open>Editing rules\<close>

text \<open>\<open>Partial<ParamOverrideOperation>\<close> as the list of the fields it assigns.\<close>

datatype op_field =
    Set_description jstr | Set_path jstr | Set_mode jstr | Set_from jstr | Set_to jstr
  | Set_value_text jstr | Set_keep_origin bool | Set_logic jstr

fun apply_field :: "op_field \<Rightarrow> po_operation \<Rightarrow> po_operation" where
  "apply_field (Set_description s) x = x\<lparr>o_description := s\<rparr>"
| "apply_field (Set_path s) x = x\<lparr>o_path := s\<rparr>"
| "apply_field (Set_mode s) x = x\<lparr>o_mode := s\<rparr>"
| "apply_field (Set_from s) x = x\<lparr>o_from := s\<rparr>"
| "apply_field (Set_to s) x = x\<lparr>o_to := s\<rparr>"
| "apply_field (Set_value_text s) x = x\<lparr>o_value_text := s\<rparr>"
| "apply_field (Set_keep_origin b) x = x\<lparr>o_keep_origin := b\<rparr>"
| "apply_field (Set_logic s) x = x\<lparr>o_logic := s\<rparr>"

definition on_id :: "jstr \<Rightarrow> (po_operation \<Rightarrow> po_operation) \<Rightarrow> po_operation list \<Rightarrow> po_operation list" where
  "on_id i f ops = map (\<lambda>x. if o_id x = i then f x else x) ops"

definition updateOperation :: "jstr \<Rightarrow> op_field list \<Rightarrow> editor \<Rightarrow> editor" where
  "updateOperation operationId patch st =
     st\<lparr>operations := on_id operationId (fold apply_field patch) (operations st)\<rparr>"

definition addOperation :: "po_env \<Rightarrow> editor \<Rightarrow> editor" where
  "addOperation env st =
     (let created = createDefaultOperation (clock env) (localIdSeed st) in
      st\<lparr>operations := operations st @ [created], selectedOperationId := o_id created, localIdSeed := Suc (localIdSeed st)\<rparr>)"

text \<open>The object that duplicating hands to \<open>normalizeOperation\<close>.\<close>

definition condition_copy :: "po_condition \<Rightarrow> json" where
  "condition_copy c = jobject
     [(''path'', JStr (c_path c)), (''mode'', JStr (c_mode c)), (''value'', parseLooseValue (c_value_text c)),
      (''invert'', JBool (c_invert c)), (''pass_missing_key'', JBool (c_pass_missing_key c))]"

definition operation_copy :: "po_operation \<Rightarrow> json" where
  "operation_copy source = jobject
     [(''description'', JStr (o_description source)), (''path'', JStr (o_path source)), (''mode'', JStr (o_mode source)),
      (''value'', parseLooseValue (o_value_text source)), (''keep_origin'', JBool (o_keep_origin source)),
      (''from'', JStr (o_from source)), (''to'', JStr (o_to source)), (''logic'', JStr (o_logic source)),
      (''conditions'', JArr (map condition_copy (o_conditions source)))]"

text \<open>
  The copy is selected when React has run the updater before \<open>setOperations\<close> returns
  (\<open>eager\<close>); otherwise \<open>insertedId\<close> is still empty.
\<close>

definition duplicateOperation :: "po_env \<Rightarrow> bool \<Rightarrow> jstr \<Rightarrow> editor \<Rightarrow> js_error + editor" where
  "duplicateOperation env eager operationId st =
     (case find_index (\<lambda>x. o_id x = operationId) (operations st) of
        None \<Rightarrow> Inr st
      | Some idx \<Rightarrow>
          and_then (normalizeOperation (clock env) (localIdSeed st) (operation_copy (operations st ! idx))) (\<lambda>(cloned, n).
            Inr (st\<lparr>operations := insert_at (idx + 1) cloned (operations st), localIdSeed := n,
              selectedOperationId := (if eager \<and> o_id cloned \<noteq> [] then o_id cloned else selectedOperationId st)\<rparr>)))"

definition removeOperation :: "po_env \<Rightarrow> jstr \<Rightarrow> editor \<Rightarrow> editor" where
  "removeOperation env operationId st =
     (if length (operations st) \<le> 1
      then st\<lparr>operations := [createDefaultOperation (clock env) (localIdSeed st)], localIdSeed := Suc (localIdSeed st)\<rparr>
      else st\<lparr>operations := filter (\<lambda>x. o_id x \<noteq> operationId) (operations st)\<rparr>)"

section \<open>Editing conditions\<close>

datatype cond_field =
    Cond_path jstr | Cond_mode jstr | Cond_value_text jstr | Cond_invert bool | Cond_pass_missing_key bool

fun apply_cond :: "cond_field \<Rightarrow> po_condition \<Rightarrow> po_condition" where
  "apply_cond (Cond_path s) c = c\<lparr>c_path := s\<rparr>"
| "apply_cond (Cond_mode s) c = c\<lparr>c_mode := s\<rparr>"
| "apply_cond (Cond_value_text s) c = c\<lparr>c_value_text := s\<rparr>"
| "apply_cond (Cond_invert b) c = c\<lparr>c_invert := b\<rparr>"
| "apply_cond (Cond_pass_missing_key b) c = c\<lparr>c_pass_missing_key := b\<rparr>"

definition addCondition :: "po_env \<Rightarrow> jstr \<Rightarrow> editor \<Rightarrow> editor" where
  "addCondition env operationId st =
     (let created = createDefaultCondition (clock env) (localIdSeed st) in
      st\<lparr>operations := on_id operationId (\<lambda>x. x\<lparr>o_conditions := o_conditions x @ [created]\<rparr>) (operations st),
         expandedConditions := obj_set (c_id created) True (expandedConditions st),
         localIdSeed := Suc (localIdSeed st)\<rparr>)"

definition updateCondition :: "jstr \<Rightarrow> jstr \<Rightarrow> cond_field list \<Rightarrow> editor \<Rightarrow> editor" where
  "updateCondition operationId conditionId patch st =
     st\<lparr>operations := on_id operationId
       (\<lambda>x. x\<lparr>o_conditions := map (\<lambda>c. if c_id c = conditionId then fold apply_cond patch c else c) (o_conditions x)\<rparr>)
       (operations st)\<rparr>"

definition removeCondition :: "jstr \<Rightarrow> jstr \<Rightarrow> editor \<Rightarrow> editor" where
  "removeCondition operationId conditionId st =
     st\<lparr>operations := on_id operationId
       (\<lambda>x. x\<lparr>o_conditions := filter (\<lambda>c. c_id c \<noteq> conditionId) (o_conditions x)\<rparr>) (operations st)\<rparr>"

definition set_expanded :: "bool \<Rightarrow> editor \<Rightarrow> editor" where
  "set_expanded b st =
     (case selectedOperation st of
        None \<Rightarrow> st
      | Some x \<Rightarrow> st\<lparr>expandedConditions := fold (\<lambda>c. obj_set (c_id c) b) (o_conditions x) (expandedConditions st)\<rparr>)"

definition expandAllConditions :: "editor \<Rightarrow> editor" where
  "expandAllConditions st = set_expanded True st"

definition collapseAllConditions :: "editor \<Rightarrow> editor" where
  "collapseAllConditions st = set_expanded False st"

section \<open>Editing drafts\<close>

datatype error_field =
    Err_message jstr | Err_statusCode jsnum | Err_code jstr | Err_type jstr | Err_skipRetry bool | Err_simpleMode bool

fun apply_error_field :: "error_field \<Rightarrow> ReturnErrorDraft \<Rightarrow> ReturnErrorDraft" where
  "apply_error_field (Err_message s) d = d\<lparr>re_message := s\<rparr>"
| "apply_error_field (Err_statusCode x) d = d\<lparr>re_statusCode := x\<rparr>"
| "apply_error_field (Err_code s) d = d\<lparr>re_code := s\<rparr>"
| "apply_error_field (Err_type s) d = d\<lparr>re_type := s\<rparr>"
| "apply_error_field (Err_skipRetry b) d = d\<lparr>re_skipRetry := b\<rparr>"
| "apply_error_field (Err_simpleMode b) d = d\<lparr>re_simpleMode := b\<rparr>"

definition updateReturnErrorDraft :: "jstr \<Rightarrow> error_field list \<Rightarrow> editor \<Rightarrow> editor" where
  "updateReturnErrorDraft operationId draftPatch st =
     st\<lparr>operations := on_id operationId
       (\<lambda>x. x\<lparr>o_value_text := buildReturnErrorValueText (fold apply_error_field draftPatch (parseReturnErrorDraft (o_value_text x)))\<rparr>)
       (operations st)\<rparr>"

text \<open>What typing into the status field assigns: \<open>parseInt(text, 10) || 400\<close>.\<close>

definition typed_status :: "jstr \<Rightarrow> error_field" where
  "typed_status s = Err_statusCode (if num_truthy (parse_int10 s) then parse_int10 s else num_of_nat 400)"

datatype prune_field = Prune_simpleMode bool | Prune_typeText jstr | Prune_logic jstr | Prune_recursive bool

fun apply_prune_field :: "prune_field \<Rightarrow> PruneObjectsDraft \<Rightarrow> PruneObjectsDraft" where
  "apply_prune_field (Prune_simpleMode b) d = d\<lparr>pd_simpleMode := b\<rparr>"
| "apply_prune_field (Prune_typeText s) d = d\<lparr>pd_typeText := s\<rparr>"
| "apply_prune_field (Prune_logic s) d = d\<lparr>pd_logic := s\<rparr>"
| "apply_prune_field (Prune_recursive b) d = d\<lparr>pd_recursive := b\<rparr>"

text \<open>
  The draft is read again from the text of the rule, so its rules get new identifiers.  An
  updater may draw further identifiers.
\<close>

fun prune_update ::
  "(nat \<Rightarrow> nat) \<Rightarrow> jstr \<Rightarrow> (nat \<Rightarrow> PruneObjectsDraft \<Rightarrow> PruneObjectsDraft \<times> nat) \<Rightarrow> nat \<Rightarrow>
     po_operation list \<Rightarrow> po_operation list \<times> nat" where
  "prune_update clk i f n [] = ([], n)"
| "prune_update clk i f n (x # xs) =
     (if o_id x = i then
        (case parsePruneObjectsDraft clk n (o_value_text x) of (draft, n1) \<Rightarrow>
           (case f n1 draft of (nextDraft, n2) \<Rightarrow>
              (case prune_update clk i f n2 xs of (ys, n3) \<Rightarrow>
                 (x\<lparr>o_value_text := buildPruneObjectsValueText nextDraft\<rparr> # ys, n3))))
      else (case prune_update clk i f n xs of (ys, n1) \<Rightarrow> (x # ys, n1)))"

definition update_prune_with ::
  "po_env \<Rightarrow> jstr \<Rightarrow> (nat \<Rightarrow> PruneObjectsDraft \<Rightarrow> PruneObjectsDraft \<times> nat) \<Rightarrow> editor \<Rightarrow> editor" where
  "update_prune_with env operationId updater st =
     (case prune_update (clock env) operationId updater (localIdSeed st) (operations st) of
        (ops, n) \<Rightarrow> st\<lparr>operations := ops, localIdSeed := n\<rparr>)"

definition updatePruneObjectsDraft :: "po_env \<Rightarrow> jstr \<Rightarrow> prune_field list \<Rightarrow> editor \<Rightarrow> editor" where
  "updatePruneObjectsDraft env operationId patch st =
     update_prune_with env operationId (\<lambda>n draft. (fold apply_prune_field patch draft, n)) st"

definition addPruneRule :: "po_env \<Rightarrow> jstr \<Rightarrow> editor \<Rightarrow> editor" where
  "addPruneRule env operationId st =
     update_prune_with env operationId
       (\<lambda>n draft. (draft\<lparr>pd_simpleMode := False, pd_rules := pd_rules draft @ [normalizePruneRule (clock env) n (JObj [])]\<rparr>, Suc n)) st"

definition updatePruneRule :: "po_env \<Rightarrow> jstr \<Rightarrow> jstr \<Rightarrow> cond_field list \<Rightarrow> editor \<Rightarrow> editor" where
  "updatePruneRule env operationId ruleId patch st =
     update_prune_with env operationId
       (\<lambda>n draft. (draft\<lparr>pd_rules := map (\<lambda>r. if c_id r = ruleId then fold apply_cond patch r else r) (pd_rules draft)\<rparr>, n)) st"

definition removePruneRule :: "po_env \<Rightarrow> jstr \<Rightarrow> jstr \<Rightarrow> editor \<Rightarrow> editor" where
  "removePruneRule env operationId ruleId st =
     update_prune_with env operationId
       (\<lambda>n draft. (draft\<lparr>pd_rules := filter (\<lambda>r. c_id r \<noteq> ruleId) (pd_rules draft)\<rparr>, n)) st"

section \<open>Dragging\<close>

definition resetDragState :: "editor \<Rightarrow> editor" where
  "resetDragState st = st\<lparr>draggedOperationId := [], dragOverOperationId := [], dragOverPosition := Before\<rparr>"

definition handleDragStart :: "jstr \<Rightarrow> editor \<Rightarrow> editor" where
  "handleDragStart operationId st = st\<lparr>draggedOperationId := operationId, selectedOperationId := operationId\<rparr>"

text \<open>\<open>below\<close>: the pointer is in the lower half of the row.\<close>

definition handleDragOver :: "jstr \<Rightarrow> bool \<Rightarrow> editor \<Rightarrow> editor" where
  "handleDragOver operationId below st =
     (if draggedOperationId st = [] \<or> draggedOperationId st = operationId then st
      else st\<lparr>dragOverOperationId := operationId, dragOverPosition := (if below then After else Before)\<rparr>)"

text \<open>\<open>payload\<close> is the plain text that the drag carries.\<close>

definition handleDrop :: "jstr \<Rightarrow> jstr \<Rightarrow> editor \<Rightarrow> editor" where
  "handleDrop operationId payload st =
     (let sourceId = (if draggedOperationId st = [] then payload else draggedOperationId st);
          position = (if dragOverOperationId st = operationId then dragOverPosition st else Before)
      in resetDragState
        (if sourceId \<noteq> [] \<and> operationId \<noteq> [] \<and> sourceId \<noteq> operationId
         then st\<lparr>operations := reorderOperations (operations st) sourceId operationId position, selectedOperationId := sourceId\<rparr>
         else st))"

section \<open>Modes\<close>

definition buildVisualJson :: "po_env \<Rightarrow> editor \<Rightarrow> po_error + jstr" where
  "buildVisualJson env st =
     (if visualMode st = Legacy then
        (let trimmed_text = trim (legacyValue st) in
         if trimmed_text = [] then Inr []
         else (case JSON_parse trimmed_text of
             None \<Rightarrow> Inl (Message (tr env (js ''Parameter override must be valid JSON format'') None))
           | Some parsed \<Rightarrow>
               if \<not> is_object parsed then Inl (Message (tr env (js ''Legacy format must be a JSON object'') None))
               else Inr (JSON_pretty parsed)))
      else buildOperationsJson (operations st) True (tr env))"

definition toast_error :: "jstr \<Rightarrow> editor \<Rightarrow> editor" where
  "toast_error m st = st\<lparr>toasts := toasts st @ [m]\<rparr>"

text \<open>Without validation \<open>buildOperationsJson\<close> throws nothing (\<open>build_unchecked\<close>).\<close>

definition switchToJsonMode :: "po_env \<Rightarrow> editor \<Rightarrow> editor" where
  "switchToJsonMode env st =
     (if editMode st = Json_Text then st
      else (case buildVisualJson env st of
          Inr s \<Rightarrow> st\<lparr>jsonText := s, jsonError := [], editMode := Json_Text\<rparr>
        | Inl e \<Rightarrow>
            (let m = error_message env e in
             (toast_error m st)\<lparr>
               jsonText := (if visualMode st = Legacy then legacyValue st
                 else projr (buildOperationsJson (operations st) False (tr env))),
               jsonError := (if m = [] then tr env (js ''Parameter configuration error'') None else m),
               editMode := Json_Text\<rparr>)))"

definition switchToVisualMode :: "po_env \<Rightarrow> editor \<Rightarrow> js_error + editor" where
  "switchToVisualMode env st =
     (let trimmed_text = trim (jsonText st); fallback = createDefaultOperation (clock env) (localIdSeed st) in
      if editMode st = Visual then Inr st
      else if trimmed_text = [] then
        Inr (st\<lparr>visualMode := Operations, operations := [fallback], selectedOperationId := o_id fallback,
          legacyValue := [], jsonError := [], editMode := Visual, localIdSeed := Suc (localIdSeed st)\<rparr>)
      else (case JSON_parse trimmed_text of
          None \<Rightarrow> Inr (toast_error (tr env (js ''Parameter override must be valid JSON format'') None) st)
        | Some parsed \<Rightarrow>
            (case (is_object parsed, prop_of parsed (js ''operations'')) of
               (True, Some (JArr vs)) \<Rightarrow>
                 and_then (rules_of (clock env) (localIdSeed st) vs) (\<lambda>(nextOps, n).
                   Inr (st\<lparr>visualMode := Operations, operations := nextOps, selectedOperationId := first_id nextOps,
                     legacyValue := [], jsonError := [], editMode := Visual,
                     templatePresetKey := js ''operations_default'', localIdSeed := n\<rparr>))
             | (True, _) \<Rightarrow>
                 Inr (st\<lparr>visualMode := Legacy, legacyValue := JSON_pretty parsed, operations := [fallback],
                   selectedOperationId := o_id fallback, jsonError := [], editMode := Visual,
                   templatePresetKey := js ''legacy_default'', localIdSeed := Suc (localIdSeed st)\<rparr>)
             | (False, _) \<Rightarrow> Inr (toast_error (tr env (js ''Parameter override must be a valid JSON object'') None) st))))"

datatype fill_mode = Fill | Append

definition show_legacy :: "po_env \<Rightarrow> jstr \<Rightarrow> editor \<Rightarrow> editor" where
  "show_legacy env s st =
     st\<lparr>visualMode := Legacy, legacyValue := s,
       operations := [createDefaultOperation (clock env) (localIdSeed st)],
       jsonText := s, jsonError := [], editMode := Visual, localIdSeed := Suc (localIdSeed st)\<rparr>"

definition fill_legacy :: "po_env \<Rightarrow> json \<Rightarrow> fill_mode \<Rightarrow> editor \<Rightarrow> editor" where
  "fill_legacy env payload mode st =
     (if mode = Append \<and> visualMode st = Legacy then
        (let trimmed_text = trim (legacyValue st);
             current = (if trimmed_text = [] then Some (JObj []) else JSON_parse trimmed_text)
         in case current of
              None \<Rightarrow> toast_error (tr env (js ''Current legacy JSON is invalid, cannot append'') None) st
            | Some parsedCurrent \<Rightarrow>
                show_legacy env (JSON_pretty (JObj (merge_objects (spread payload) (spread parsedCurrent)))) st)
      else show_legacy env (JSON_pretty payload) st)"

definition payload_rules :: "json \<Rightarrow> json list" where
  "payload_rules payload = condition_items (prop_of payload (js ''operations''))"

definition fill_operations :: "po_env \<Rightarrow> json \<Rightarrow> fill_mode \<Rightarrow> editor \<Rightarrow> js_error + editor" where
  "fill_operations env payload mode st =
     (if mode = Append then
        and_then (map_count (normalizeOperation (clock env)) (localIdSeed st) (payload_rules payload)) (\<lambda>(appended, n).
          (let existing = (if visualMode st = Operations then filled_operations (operations st) else []);
               nextOps = existing @ appended
           in Inr (st\<lparr>visualMode := Operations, operations := nextOps, selectedOperationId := first_id nextOps,
                legacyValue := [], jsonError := [], editMode := Visual, jsonText := [], localIdSeed := n\<rparr>)))
      else
        and_then (rules_of (clock env) (localIdSeed st) (payload_rules payload)) (\<lambda>(finalOps, n).
          Inr (st\<lparr>visualMode := Operations, operations := finalOps, selectedOperationId := first_id finalOps,
            jsonText := JSON_pretty (JObj [(js ''operations'', JArr (payload_rules payload))]), jsonError := [],
            editMode := Visual, localIdSeed := n\<rparr>)))"

definition fillTemplate :: "po_env \<Rightarrow> fill_mode \<Rightarrow> editor \<Rightarrow> js_error + editor" where
  "fillTemplate env mode st =
     (case preset_of (templatePresetKey st) of
        (Legacy_Kind, payload) \<Rightarrow> Inr (fill_legacy env payload mode st)
      | (Operations_Kind, payload) \<Rightarrow> fill_operations env payload mode st)"

definition resetEditorState :: "po_env \<Rightarrow> editor \<Rightarrow> editor" where
  "resetEditorState env st =
     (let fallback = createDefaultOperation (clock env) (localIdSeed st) in
      st\<lparr>visualMode := Operations, legacyValue := [], operations := [fallback], selectedOperationId := o_id fallback,
        jsonText := [], jsonError := [], templatePresetKey := js ''operations_default'', editMode := Visual,
        localIdSeed := Suc (localIdSeed st)\<rparr>)"

definition handleJsonChange :: "po_env \<Rightarrow> jstr \<Rightarrow> editor \<Rightarrow> editor" where
  "handleJsonChange env nextValue st =
     st\<lparr>jsonText := nextValue,
        jsonError := (if trim nextValue = [] \<or> verifyJSON (trim nextValue) then [] else tr env (js ''JSON format error'') None)\<rparr>"

definition formatJson :: "po_env \<Rightarrow> editor \<Rightarrow> editor" where
  "formatJson env st =
     (let trimmed_text = trim (jsonText st) in
      if trimmed_text = [] then st
      else (case JSON_parse trimmed_text of
          None \<Rightarrow> toast_error (tr env (js ''Parameter override must be valid JSON format'') None) st
        | Some v \<Rightarrow> st\<lparr>jsonText := JSON_pretty v, jsonError := []\<rparr>))"

definition visualValidationError :: "po_env \<Rightarrow> editor \<Rightarrow> jstr" where
  "visualValidationError env st =
     (if editMode st \<noteq> Visual then []
      else (case buildVisualJson env st of
          Inr _ \<Rightarrow> []
        | Inl e \<Rightarrow> (let m = error_message env e in if m = [] then tr env (js ''Parameter configuration error'') None else m)))"

section \<open>Saving\<close>

definition text_result :: "po_env \<Rightarrow> jstr \<Rightarrow> po_error + jstr" where
  "text_result env s =
     (if trim s = [] then Inr []
      else (case JSON_parse (trim s) of
          None \<Rightarrow> Inl (Message (tr env (js ''Parameter override must be valid JSON format'') None))
        | Some v \<Rightarrow> Inr (JSON_pretty v)))"

definition save_result :: "po_env \<Rightarrow> editor \<Rightarrow> po_error + jstr" where
  "save_result env st = (if editMode st = Json_Text then text_result env (jsonText st) else buildVisualJson env st)"

definition handleSave :: "po_env \<Rightarrow> editor \<Rightarrow> editor" where
  "handleSave env st =
     (case save_result env st of
        Inr result \<Rightarrow> st\<lparr>saved := saved st @ [result], is_open := False\<rparr>
      | Inl e \<Rightarrow> toast_error (error_message env e) st)"

section \<open>Runs of the dialog\<close>

datatype editor_action =
    Open jstr
  | Update_Operation jstr "op_field list"
  | Format_Value jstr
  | Add_Operation
  | Duplicate_Operation bool jstr
  | Remove_Operation jstr
  | Add_Condition jstr
  | Update_Condition jstr jstr "cond_field list"
  | Remove_Condition jstr jstr
  | Expand_All
  | Collapse_All
  | Expand_Condition jstr bool
  | Update_Error jstr "error_field list"
  | Update_Prune jstr "prune_field list"
  | Add_Prune_Rule jstr
  | Update_Prune_Rule jstr jstr "cond_field list"
  | Remove_Prune_Rule jstr jstr
  | Select_Operation jstr
  | Drag_Start jstr
  | Drag_Over jstr bool
  | Drop jstr jstr
  | Drag_End
  | Type_Search jstr
  | Type_Legacy jstr
  | Type_Json jstr
  | Format_Json
  | To_Json
  | To_Visual
  | Choose_Preset jstr
  | Fill_Template fill_mode
  | Reset
  | Save

text \<open>The button that formats a value which parses as it stands.\<close>

definition format_value :: "jstr \<Rightarrow> editor \<Rightarrow> editor" where
  "format_value operationId st =
     st\<lparr>operations := on_id operationId
       (\<lambda>x. case JSON_parse (o_value_text x) of None \<Rightarrow> x | Some v \<Rightarrow> x\<lparr>o_value_text := JSON_pretty v\<rparr>) (operations st)\<rparr>"

fun editor_step :: "po_env \<Rightarrow> editor_action \<Rightarrow> editor \<Rightarrow> js_error + editor" where
  "editor_step env (Open value) st = initialize env value st"
| "editor_step env (Update_Operation i patch) st = Inr (updateOperation i patch st)"
| "editor_step env (Format_Value i) st = Inr (format_value i st)"
| "editor_step env Add_Operation st = Inr (addOperation env st)"
| "editor_step env (Duplicate_Operation eager i) st = duplicateOperation env eager i st"
| "editor_step env (Remove_Operation i) st = Inr (removeOperation env i st)"
| "editor_step env (Add_Condition i) st = Inr (addCondition env i st)"
| "editor_step env (Update_Condition i j patch) st = Inr (updateCondition i j patch st)"
| "editor_step env (Remove_Condition i j) st = Inr (removeCondition i j st)"
| "editor_step env Expand_All st = Inr (expandAllConditions st)"
| "editor_step env Collapse_All st = Inr (collapseAllConditions st)"
| "editor_step env (Expand_Condition j b) st = Inr (st\<lparr>expandedConditions := obj_set j b (expandedConditions st)\<rparr>)"
| "editor_step env (Update_Error i patch) st = Inr (updateReturnErrorDraft i patch st)"
| "editor_step env (Update_Prune i patch) st = Inr (updatePruneObjectsDraft env i patch st)"
| "editor_step env (Add_Prune_Rule i) st = Inr (addPruneRule env i st)"
| "editor_step env (Update_Prune_Rule i j patch) st = Inr (updatePruneRule env i j patch st)"
| "editor_step env (Remove_Prune_Rule i j) st = Inr (removePruneRule env i j st)"
| "editor_step env (Select_Operation i) st = Inr (st\<lparr>selectedOperationId := i\<rparr>)"
| "editor_step env (Drag_Start i) st = Inr (handleDragStart i st)"
| "editor_step env (Drag_Over i below) st = Inr (handleDragOver i below st)"
| "editor_step env (Drop i payload) st = Inr (handleDrop i payload st)"
| "editor_step env Drag_End st = Inr (resetDragState st)"
| "editor_step env (Type_Search s) st = Inr (st\<lparr>operationSearch := s\<rparr>)"
| "editor_step env (Type_Legacy s) st = Inr (st\<lparr>legacyValue := s\<rparr>)"
| "editor_step env (Type_Json s) st = Inr (handleJsonChange env s st)"
| "editor_step env Format_Json st = Inr (formatJson env st)"
| "editor_step env To_Json st = Inr (switchToJsonMode env st)"
| "editor_step env To_Visual st = switchToVisualMode env st"
| "editor_step env (Choose_Preset k) st = Inr (st\<lparr>templatePresetKey := (if k = [] then js ''operations_default'' else k)\<rparr>)"
| "editor_step env (Fill_Template m) st = fillTemplate env m st"
| "editor_step env Reset st = Inr (resetEditorState env st)"
| "editor_step env Save st = Inr (handleSave env st)"

text \<open>What the controls can send: the selects offer only the listed modes and the two logics.\<close>

fun field_ok :: "op_field \<Rightarrow> bool" where
  "field_ok (Set_mode s) = (s \<in> set OPERATION_MODE_VALUES)"
| "field_ok (Set_logic s) = (s = js ''OR'' \<or> s = js ''AND'')"
| "field_ok _ = True"

fun cond_field_ok :: "cond_field \<Rightarrow> bool" where
  "cond_field_ok (Cond_mode s) = (s \<in> set CONDITION_MODE_VALUES)"
| "cond_field_ok _ = True"

fun action_ok :: "editor_action \<Rightarrow> bool" where
  "action_ok (Update_Operation i patch) = list_all field_ok patch"
| "action_ok (Update_Condition i j patch) = list_all cond_field_ok patch"
| "action_ok (Update_Prune_Rule i j patch) = list_all cond_field_ok patch"
| "action_ok _ = True"

text \<open>The rules the list shows for a search text; lower case is that of Unicode and an argument.\<close>

definition filteredOperations :: "(jstr \<Rightarrow> jstr) \<Rightarrow> editor \<Rightarrow> po_operation list" where
  "filteredOperations toLowerCase st =
     (let keyword = toLowerCase (trim (operationSearch st)) in
      if keyword = [] then operations st
      else filter (\<lambda>op. str_includes
        (toLowerCase (join (js '' '') (filter (\<lambda>s. s \<noteq> [])
          [o_description op, o_mode op, o_path op, o_from op, o_to op, o_value_text op]))) keyword) (operations st))"

text \<open>The component as React mounts it.\<close>

definition mounted :: "po_env \<Rightarrow> nat \<Rightarrow> editor" where
  "mounted env n =
     \<lparr>editMode = Visual, visualMode = Operations, legacyValue = [], operations = [createDefaultOperation (clock env) n],
      jsonText = [], jsonError = [], operationSearch = [], selectedOperationId = [], expandedConditions = [],
      draggedOperationId = [], dragOverOperationId = [], dragOverPosition = Before,
      templatePresetKey = js ''operations_default'', localIdSeed = Suc n, toasts = [], saved = [], is_open = False\<rparr>"

inductive reachable :: "po_env \<Rightarrow> editor \<Rightarrow> bool" for env where
  mount: "reachable env (keepSelection (mounted env n))"
| act: "reachable env st \<Longrightarrow> action_ok a \<Longrightarrow> editor_step env a st = Inr st' \<Longrightarrow> reachable env (keepSelection st')"

inductive_cases reachableE: "reachable env st"

end
