(* ===== verification/Param_Override_Rules.thy ===== *)
theory Param_Override_Rules
  imports Param_Override_Editor
begin

text \<open>
  Invariants of the parameter override dialog: identifiers never repeat, every handler keeps the
  rules well formed, and dragging moves exactly one rule.
\<close>

section \<open>Identifiers\<close>

lemma nextLocalId_inj: "nextLocalId clk m = nextLocalId clk' n \<longleftrightarrow> m = n \<and> clk m = clk' n"
proof -
  have "95 \<notin> set (nat_str k)" for k by (rule nat_str_no) (simp add: is_digit_def)
  then have "nat_str (clk m) @ 95 # nat_str m = nat_str (clk' n) @ 95 # nat_str n \<longleftrightarrow>
      nat_str (clk m) = nat_str (clk' n) \<and> nat_str m = nat_str n"
    by (simp add: append_Cons_eq_iff)
  then show ?thesis using nat_str_inj by (auto simp: nextLocalId_def js_lit)
qed

lemma nextLocalId_ne [simp]: "nextLocalId clk n \<noteq> []"
  by (simp add: nextLocalId_def js_lit)

lemma inj_nextLocalId: "inj_on (nextLocalId clk) A"
  by (simp add: inj_on_def nextLocalId_inj)

text \<open>The identifiers of a list of rules and of their conditions.\<close>

definition op_ids :: "po_operation \<Rightarrow> jstr list" where
  "op_ids x = o_id x # map c_id (o_conditions x)"

definition all_ids :: "po_operation list \<Rightarrow> jstr list" where
  "all_ids ops = concat (map op_ids ops)"

definition op_wf :: "po_operation \<Rightarrow> bool" where
  "op_wf x \<longleftrightarrow> o_mode x \<in> set OPERATION_MODE_VALUES \<and> (o_logic x = js ''AND'' \<or> o_logic x = js ''OR'') \<and>
     list_all (\<lambda>c. c_mode c \<in> set CONDITION_MODE_VALUES) (o_conditions x)"

definition ids_ok :: "(nat \<Rightarrow> nat) \<Rightarrow> nat \<Rightarrow> po_operation list \<Rightarrow> bool" where
  "ids_ok clk n ops \<longleftrightarrow> distinct (all_ids ops) \<and> set (all_ids ops) \<subseteq> nextLocalId clk ` {..<n}"

definition rules_wf :: "(nat \<Rightarrow> nat) \<Rightarrow> nat \<Rightarrow> po_operation list \<Rightarrow> bool" where
  "rules_wf clk n ops \<longleftrightarrow> list_all op_wf ops \<and> ids_ok clk n ops"

lemma rules_wf_mono: "rules_wf clk n ops \<Longrightarrow> n \<le> m \<Longrightarrow> rules_wf clk m ops"
  by (auto simp: rules_wf_def ids_ok_def)

lemma rules_wf_mset: "mset xs = mset ys \<Longrightarrow> rules_wf clk n xs \<longleftrightarrow> rules_wf clk n ys"
proof -
  assume m: "mset xs = mset ys"
  have "mset (all_ids zs) = \<Sum>\<^sub># (image_mset (\<lambda>x. mset (op_ids x)) (mset zs))" for zs
    by (induction zs) (simp_all add: all_ids_def)
  then have "mset (all_ids xs) = mset (all_ids ys)" by (simp add: m)
  then have "distinct (all_ids xs) = distinct (all_ids ys)" "set (all_ids xs) = set (all_ids ys)"
    by (auto dest: mset_eq_imp_distinct_iff mset_eq_setD)
  moreover have "set xs = set ys" using m by (rule mset_eq_setD)
  ultimately show ?thesis by (simp add: rules_wf_def ids_ok_def list_all_iff)
qed

text \<open>New rules draw their identifiers from the counter.\<close>

definition issued_ids :: "(nat \<Rightarrow> nat) \<Rightarrow> nat \<Rightarrow> nat \<Rightarrow> jstr list" where
  "issued_ids clk n m = map (nextLocalId clk) [n..<m]"

lemma issued_ids_Cons: "n < m \<Longrightarrow> issued_ids clk n m = nextLocalId clk n # issued_ids clk (Suc n) m"
  by (simp add: issued_ids_def upt_conv_Cons)

lemma issued_ids_self [simp]: "issued_ids clk n n = []"
  by (simp add: issued_ids_def)

lemma issued_ids_append: "n \<le> k \<Longrightarrow> k \<le> m \<Longrightarrow> issued_ids clk n k @ issued_ids clk k m = issued_ids clk n m"
  by (metis issued_ids_def le_Suc_ex map_append upt_add_eq_append)

lemma rules_wf_append_issued:
  assumes "rules_wf clk n xs" "list_all op_wf ys" "all_ids ys = issued_ids clk n m" "n \<le> m"
  shows "rules_wf clk m (xs @ ys)"
proof -
  have d: "distinct (issued_ids clk n m)" by (simp add: issued_ids_def distinct_map inj_nextLocalId)
  have "set (all_ids xs) \<inter> set (issued_ids clk n m) = {}"
    using assms(1) by (fastforce simp: rules_wf_def ids_ok_def issued_ids_def nextLocalId_inj)
  moreover have "set (all_ids xs) \<subseteq> nextLocalId clk ` {..<m}"
    using assms(1,4) by (fastforce simp: rules_wf_def ids_ok_def)
  moreover have "set (issued_ids clk n m) \<subseteq> nextLocalId clk ` {..<m}" by (auto simp: issued_ids_def)
  ultimately show ?thesis
    using assms(1,2) d by (auto simp: rules_wf_def ids_ok_def all_ids_def assms(3) [unfolded all_ids_def])
qed

lemma condition_of_mode: "c_mode (condition_of i v) \<in> set CONDITION_MODE_VALUES"
  by (simp add: condition_of_def mode_field_def CONDITION_MODE_VALUES_def CONDITION_MODE_OPTIONS_def
      split: option.split json.split)

lemma condition_of_id [simp]: "c_id (condition_of i v) = i"
  by (simp add: condition_of_def)

lemma map_count_conditions:
  "map_count (normalizeCondition_po clk) n vs = Inr (cs, m) \<Longrightarrow>
     m = n + length vs \<and> map c_id cs = issued_ids clk n m \<and> list_all (\<lambda>c. c_mode c \<in> set CONDITION_MODE_VALUES) cs"
proof (induction vs arbitrary: n cs)
  case (Cons v vs)
  have v: "normalizeCondition_po clk n v = Inr (condition_of (nextLocalId clk n) v, Suc n)"
    using Cons.prems by (cases "v = JNull") (simp_all add: normalizeCondition_po_def)
  with Cons.prems obtain cs' where r: "map_count (normalizeCondition_po clk) (Suc n) vs = Inr (cs', m)"
    and cs: "cs = condition_of (nextLocalId clk n) v # cs'"
    by (cases "map_count (normalizeCondition_po clk) (Suc n) vs") auto
  then show ?case using Cons.IH [OF r] by (auto simp: condition_of_mode issued_ids_Cons)
qed simp

lemma operation_of_wf:
  "list_all (\<lambda>c. c_mode c \<in> set CONDITION_MODE_VALUES) cs \<Longrightarrow> op_wf (operation_of i l v cs)"
  by (simp add: op_wf_def operation_of_def mode_field_def OPERATION_MODE_VALUES_def OPERATION_MODE_OPTIONS_def
      split: option.split json.split)

lemma operation_of_ids: "op_ids (operation_of i l v cs) = i # map c_id cs"
  by (simp add: op_ids_def operation_of_def)

lemma normalizeOperation_wf:
  assumes "normalizeOperation clk n v = Inr (x, m)"
  shows "op_wf x \<and> op_ids x = issued_ids clk n m \<and> n < m"
proof -
  obtain l where l: "to_String (jor (prop_of v (js ''logic'')) (JStr (js ''OR''))) = Inr l"
    using assms by (cases "to_String (jor (prop_of v (js ''logic'')) (JStr (js ''OR'')))")
      (auto simp: normalizeOperation_def split: if_splits)
  let ?r = "map_count (normalizeCondition_po clk) (Suc n) (condition_items (prop_of v (js ''conditions'')))"
  obtain cs where r: "?r = Inr (cs, m)" and x: "x = operation_of (nextLocalId clk n) l v cs"
    using assms l by (cases ?r) (auto simp: normalizeOperation_def split: if_splits)
  from map_count_conditions [OF r] show ?thesis
    by (auto simp: x operation_of_wf operation_of_ids issued_ids_Cons)
qed

lemma map_count_operations:
  "map_count (normalizeOperation clk) n vs = Inr (xs, m) \<Longrightarrow>
     length xs = length vs \<and> list_all op_wf xs \<and> all_ids xs = issued_ids clk n m \<and> n \<le> m"
proof (induction vs arbitrary: n xs)
  case (Cons v vs)
  from Cons.prems obtain x k where x: "normalizeOperation clk n v = Inr (x, k)"
    by (cases "normalizeOperation clk n v") auto
  with Cons.prems obtain xs' where r: "map_count (normalizeOperation clk) k vs = Inr (xs', m)" and xs: "xs = x # xs'"
    by (cases "map_count (normalizeOperation clk) k vs") auto
  show ?case
    using Cons.IH [OF r] normalizeOperation_wf [OF x] by (auto simp: xs all_ids_def issued_ids_append)
qed (simp add: all_ids_def)

lemma createDefaultOperation_eq:
  "normalizeOperation clk n (JObj [(js ''mode'', JStr (js ''set''))]) = Inr (createDefaultOperation clk n, Suc n)"
  by (simp add: createDefaultOperation_def normalizeOperation_def prop_of_def obj_get_def condition_items_def
      to_String_def jor_def)

lemma createDefault_wf:
  "op_wf (createDefaultOperation clk n)" "all_ids [createDefaultOperation clk n] = issued_ids clk n (Suc n)"
  "o_id (createDefaultOperation clk n) = nextLocalId clk n"
  using normalizeOperation_wf [OF createDefaultOperation_eq, of clk n]
  by (simp_all add: all_ids_def op_ids_def issued_ids_Cons)

lemma rules_wf_Nil: "rules_wf clk n []"
  by (simp add: rules_wf_def ids_ok_def all_ids_def)

lemma default_rules_wf: "rules_wf clk (Suc n) [createDefaultOperation clk n]"
  using rules_wf_append_issued [OF rules_wf_Nil, of "[createDefaultOperation clk n]" clk n "Suc n"] createDefault_wf
  by simp

section \<open>Every reachable state is well formed\<close>

subsection \<open>Lists of rules\<close>

lemma rules_wf_filter: "rules_wf clk n ops \<Longrightarrow> rules_wf clk n (filter P ops)"
proof -
  have s: "set (all_ids (filter P ops)) \<subseteq> set (all_ids ops)" by (auto simp: all_ids_def)
  have "distinct (all_ids ops) \<Longrightarrow> distinct (all_ids (filter P ops))"
    by (induction ops) (auto simp: all_ids_def)
  then show "rules_wf clk n ops \<Longrightarrow> rules_wf clk n (filter P ops)"
    using s by (auto simp: rules_wf_def ids_ok_def list_all_iff)
qed

lemma rules_wf_ids: "rules_wf clk n ops \<Longrightarrow> distinct (map o_id ops)"
proof -
  have "distinct (all_ids ops) \<Longrightarrow> distinct (map o_id ops) \<and> set (map o_id ops) \<subseteq> set (all_ids ops)"
    by (induction ops) (auto simp: all_ids_def op_ids_def)
  then show "rules_wf clk n ops \<Longrightarrow> distinct (map o_id ops)" by (simp add: rules_wf_def ids_ok_def)
qed

lemma replace_rule:
  assumes w: "rules_wf clk n (a @ x # b)" and y: "op_wf y" "distinct (op_ids y)"
    and s: "set (op_ids y) \<subseteq> set (op_ids x) \<union> nextLocalId clk ` {n..<m}" and nm: "n \<le> m"
  shows "rules_wf clk m (a @ y # b)"
proof -
  have all: "all_ids (a @ z # b) = all_ids a @ op_ids z @ all_ids b" for z by (simp add: all_ids_def)
  let ?O = "nextLocalId clk ` {..<n}" and ?N = "nextLocalId clk ` {n..<m}"
  have old: "?O \<inter> ?N = {}" by (auto simp: nextLocalId_inj)
  have sub: "?O \<union> ?N \<subseteq> nextLocalId clk ` {..<m}" using nm by auto
  have d: "distinct (all_ids a)" "distinct (all_ids b)" "set (all_ids a) \<inter> set (op_ids x) = {}"
      "set (all_ids a) \<inter> set (all_ids b) = {}" "set (op_ids x) \<inter> set (all_ids b) = {}"
    using w by (auto simp: rules_wf_def ids_ok_def all)
  have i: "set (all_ids a) \<subseteq> ?O" "set (op_ids x) \<subseteq> ?O" "set (all_ids b) \<subseteq> ?O"
    using w by (auto simp: rules_wf_def ids_ok_def all)
  have "set (all_ids a) \<inter> set (op_ids y) = {}" "set (op_ids y) \<inter> set (all_ids b) = {}"
    using s d(3,5) i old by blast+
  then have "distinct (all_ids (a @ y # b))" using d y(2) by (auto simp: all)
  moreover have "set (all_ids (a @ y # b)) \<subseteq> nextLocalId clk ` {..<m}"
    unfolding all set_append using s i sub by blast
  ultimately show ?thesis using w y(1) by (simp add: rules_wf_def ids_ok_def)
qed

lemma on_id_split:
  "distinct (map o_id ops) \<Longrightarrow>
     on_id i f ops = ops \<or> (\<exists>a x b. ops = a @ x # b \<and> o_id x = i \<and> on_id i f ops = a @ f x # b)"
proof (induction ops)
  case (Cons x ops)
  show ?case
  proof (cases "o_id x = i")
    case True
    then have "on_id i f ops = ops" using Cons.prems by (auto simp: on_id_def image_iff intro!: map_idI)
    then have "on_id i f (x # ops) = [] @ f x # ops" using True by (simp add: on_id_def)
    then show ?thesis using True by blast
  next
    case False
    then have "on_id i f (x # ops) = x # on_id i f ops" by (simp add: on_id_def)
    moreover have "on_id i f ops = ops \<or> (\<exists>a z b. ops = a @ z # b \<and> o_id z = i \<and> on_id i f ops = a @ f z # b)"
      using Cons by simp
    ultimately show ?thesis by (metis append_Cons)
  qed
qed (simp add: on_id_def)

lemma on_id_wf:
  assumes w: "rules_wf clk n ops" and nm: "n \<le> m"
    and f: "\<And>x. op_wf x \<Longrightarrow> distinct (op_ids x) \<Longrightarrow> set (op_ids x) \<subseteq> nextLocalId clk ` {..<n} \<Longrightarrow>
      op_wf (f x) \<and> distinct (op_ids (f x)) \<and> set (op_ids (f x)) \<subseteq> set (op_ids x) \<union> nextLocalId clk ` {n..<m}"
  shows "rules_wf clk m (on_id i f ops)"
proof -
  from on_id_split [OF rules_wf_ids [OF w], of i f] show ?thesis
  proof
    assume "on_id i f ops = ops"
    then show ?thesis using w nm rules_wf_mono by simp
  next
    assume "\<exists>a x b. ops = a @ x # b \<and> o_id x = i \<and> on_id i f ops = a @ f x # b"
    then obtain a x b where s: "ops = a @ x # b" "on_id i f ops = a @ f x # b" by blast
    have "op_wf x" "distinct (op_ids x)" "set (op_ids x) \<subseteq> nextLocalId clk ` {..<n}"
      using w s(1) by (auto simp: rules_wf_def ids_ok_def all_ids_def)
    with f have "op_wf (f x)" "distinct (op_ids (f x))" "set (op_ids (f x)) \<subseteq> set (op_ids x) \<union> nextLocalId clk ` {n..<m}"
      by auto
    then show ?thesis using replace_rule w s nm by metis
  qed
qed

lemma on_id_same:
  assumes "rules_wf clk n ops" "\<And>x. op_wf x \<Longrightarrow> op_wf (f x) \<and> op_ids (f x) = op_ids x"
  shows "rules_wf clk n (on_id i f ops)"
  using on_id_wf [OF assms(1) order_refl, of f i] assms(2) by simp

lemma find_index_Some: "find_index P xs = Some i \<Longrightarrow> i < length xs \<and> P (xs ! i)"
  by (induction xs arbitrary: i) (auto split: if_splits)

lemma mset_insert_at: "mset (insert_at i x xs) = add_mset x (mset xs)"
proof -
  have "mset (take i xs) + mset (drop i xs) = mset xs" by (metis append_take_drop_id mset_append)
  then show ?thesis by (simp add: insert_at_def)
qed

lemma mset_remove_at: "i < length xs \<Longrightarrow> add_mset (xs ! i) (mset (remove_at i xs)) = mset xs"
proof -
  assume "i < length xs"
  then have "xs = take i xs @ xs ! i # drop (Suc i) xs" by (rule id_take_nth_drop)
  then have "mset xs = mset (take i xs @ xs ! i # drop (Suc i) xs)" by simp
  then show ?thesis by (simp add: remove_at_def)
qed

lemma mset_reorder: "mset (reorderOperations ops s d p) = mset ops"
  using find_index_Some [of "\<lambda>x. o_id x = s" ops]
  by (auto simp: reorderOperations_def Let_def mset_insert_at mset_remove_at split: option.split)

lemma insert_copy_wf:
  assumes "rules_wf clk n ops" "normalizeOperation clk n v = Inr (x, m)"
  shows "rules_wf clk m (insert_at i x ops)"
proof -
  have "rules_wf clk m (ops @ [x])"
    using normalizeOperation_wf [OF assms(2)] by (intro rules_wf_append_issued [OF assms(1)]) (auto simp: all_ids_def)
  then show ?thesis using rules_wf_mset [of "insert_at i x ops" "ops @ [x]"] by (simp add: mset_insert_at)
qed

lemma rules_of_wf:
  "rules_of clk n vs = Inr (xs, m) \<Longrightarrow> rules_wf clk m xs \<and> xs \<noteq> []"
  using map_count_operations [of clk n vs xs m] rules_wf_append_issued [OF rules_wf_Nil, of xs clk n m] default_rules_wf [of clk n]
  by (auto simp: rules_of_def split: if_splits)

lemma prune_update_wf:
  assumes f: "\<And>k d. k \<le> snd (f k d)" and "\<And>k s. k \<le> snd (parsePruneObjectsDraft clk k s)"
  shows "prune_update clk i f n ops = (ys, m) \<Longrightarrow>
    n \<le> m \<and> list_all2 (\<lambda>x y. op_ids y = op_ids x \<and> op_wf y = op_wf x) ops ys"
proof (induction ops arbitrary: n ys)
  case (Cons x ops)
  obtain d n1 where d: "parsePruneObjectsDraft clk n (o_value_text x) = (d, n1)" by (metis surj_pair)
  obtain e n2 where e: "f n1 d = (e, n2)" by (metis surj_pair)
  have "n \<le> n1" "n1 \<le> n2" using assms(2) [of n "o_value_text x"] f [of n1 d] d e by simp_all
  then show ?case using Cons d e
    by (fastforce simp: op_ids_def op_wf_def split: prod.splits if_splits)
qed simp

lemma rules_wf_frame:
  assumes "list_all2 (\<lambda>x y. op_ids y = op_ids x \<and> op_wf y = op_wf x) ops ys" "rules_wf clk n ops"
  shows "rules_wf clk n ys"
proof -
  have "all_ids ys = all_ids ops \<and> list_all op_wf ys = list_all op_wf ops"
    using assms(1) by (induction) (auto simp: all_ids_def)
  then show ?thesis using assms(2) by (simp add: rules_wf_def ids_ok_def)
qed

subsection \<open>Handlers\<close>

definition state_ok :: "po_env \<Rightarrow> editor \<Rightarrow> bool" where
  "state_ok env st \<longleftrightarrow> operations st \<noteq> [] \<and> rules_wf (clock env) (localIdSeed st) (operations st)"

lemma state_ok_keep: "state_ok env (keepSelection st) = state_ok env st"
  by (simp add: state_ok_def keepSelection_def)

lemma state_ok_toast [simp]: "state_ok env (toast_error m st) = state_ok env st"
  by (simp add: state_ok_def toast_error_def)

lemma on_id_ne [simp]: "on_id i f ops = [] \<longleftrightarrow> ops = []"
  by (simp add: on_id_def)

lemma state_ok_on_id:
  assumes "state_ok env st" "\<And>x. op_wf x \<Longrightarrow> op_wf (f x) \<and> op_ids (f x) = op_ids x"
  shows "state_ok env (st\<lparr>operations := on_id i f (operations st)\<rparr>)"
  using assms on_id_same [of "clock env" "localIdSeed st" "operations st" f i] by (simp add: state_ok_def)

lemma field_wf: "field_ok u \<Longrightarrow> op_wf x \<Longrightarrow> op_wf (apply_field u x) \<and> op_ids (apply_field u x) = op_ids x"
  by (cases u) (auto simp: op_wf_def op_ids_def)

lemma fields_wf:
  "list_all field_ok us \<Longrightarrow> op_wf x \<Longrightarrow> op_wf (fold apply_field us x) \<and> op_ids (fold apply_field us x) = op_ids x"
  by (induction us arbitrary: x) (auto simp: field_wf)

lemma cond_field_wf:
  "cond_field_ok u \<Longrightarrow> c_mode c \<in> set CONDITION_MODE_VALUES \<Longrightarrow>
     c_mode (apply_cond u c) \<in> set CONDITION_MODE_VALUES \<and> c_id (apply_cond u c) = c_id c"
  by (cases u) auto

lemma cond_fields_wf:
  "list_all cond_field_ok us \<Longrightarrow> c_mode c \<in> set CONDITION_MODE_VALUES \<Longrightarrow>
     c_mode (fold apply_cond us c) \<in> set CONDITION_MODE_VALUES \<and> c_id (fold apply_cond us c) = c_id c"
  by (induction us arbitrary: c) (auto simp: cond_field_wf)

lemma updateCondition_ok:
  assumes "state_ok env st" "list_all cond_field_ok patch"
  shows "state_ok env (updateCondition i j patch st)"
  unfolding updateCondition_def
proof (rule state_ok_on_id [OF assms(1)])
  fix x assume x: "op_wf x"
  let ?f = "\<lambda>c. if c_id c = j then fold apply_cond patch c else c"
  have c: "c_mode (?f c) \<in> set CONDITION_MODE_VALUES \<and> c_id (?f c) = c_id c" if "c \<in> set (o_conditions x)" for c
    using x that cond_fields_wf [OF assms(2), of c] by (auto simp: op_wf_def list_all_iff)
  have "list_all (\<lambda>c. c_mode c \<in> set CONDITION_MODE_VALUES) (map ?f (o_conditions x))"
      "map c_id (map ?f (o_conditions x)) = map c_id (o_conditions x)"
    unfolding list_all_iff list.set_map list.map_comp using c by (blast, intro map_cong) (simp_all only: o_apply)
  then show "op_wf (x\<lparr>o_conditions := map ?f (o_conditions x)\<rparr>) \<and>
      op_ids (x\<lparr>o_conditions := map ?f (o_conditions x)\<rparr>) = op_ids x"
    using x by (simp add: op_wf_def op_ids_def del: list.map_comp map_map)
qed

lemma addCondition_ok:
  assumes "state_ok env st"
  shows "state_ok env (addCondition env i st)"
proof -
  let ?n = "localIdSeed st" and ?clk = "clock env"
  let ?f = "\<lambda>x. x\<lparr>o_conditions := o_conditions x @ [condition_of (nextLocalId ?clk ?n) (JObj [])]\<rparr>"
  have c: "createDefaultCondition ?clk ?n = condition_of (nextLocalId ?clk ?n) (JObj [])"
    by (simp add: createDefaultCondition_def normalizeCondition_po_def)
  have "rules_wf ?clk (Suc ?n) (on_id i ?f (operations st))"
  proof (rule on_id_wf)
    show "rules_wf ?clk ?n (operations st)" using assms by (simp add: state_ok_def)
    show "?n \<le> Suc ?n" by simp
    fix x assume x: "op_wf x" "distinct (op_ids x)" "set (op_ids x) \<subseteq> nextLocalId ?clk ` {..<?n}"
    have "nextLocalId ?clk ?n \<notin> set (op_ids x)" using x(3) by (auto simp: nextLocalId_inj)
    then show "op_wf (?f x) \<and> distinct (op_ids (?f x)) \<and> set (op_ids (?f x)) \<subseteq> set (op_ids x) \<union> nextLocalId ?clk ` {?n..<Suc ?n}"
      using x(1,2) by (auto simp: op_wf_def op_ids_def condition_of_mode)
  qed
  then show ?thesis using assms by (simp add: addCondition_def Let_def c state_ok_def)
qed

lemma removeCondition_ok:
  assumes "state_ok env st"
  shows "state_ok env (removeCondition i j st)"
proof -
  let ?f = "\<lambda>x. x\<lparr>o_conditions := filter (\<lambda>c. c_id c \<noteq> j) (o_conditions x)\<rparr>"
  have "rules_wf (clock env) (localIdSeed st) (on_id i ?f (operations st))"
  proof (rule on_id_wf [OF _ order_refl])
    show "rules_wf (clock env) (localIdSeed st) (operations st)" using assms by (simp add: state_ok_def)
    fix x assume "op_wf x" "distinct (op_ids x)"
    then show "op_wf (?f x) \<and> distinct (op_ids (?f x)) \<and>
        set (op_ids (?f x)) \<subseteq> set (op_ids x) \<union> nextLocalId (clock env) ` {localIdSeed st..<localIdSeed st}"
      by (auto simp: op_wf_def op_ids_def list_all_iff distinct_map_filter)
  qed
  then show ?thesis using assms by (simp add: removeCondition_def state_ok_def)
qed

lemma prune_seed: "n \<le> snd (parsePruneObjectsDraft clk n s)"
  by (simp add: parsePruneObjectsDraft_def Let_def split: option.split json.split)

lemma update_prune_ok:
  assumes "state_ok env st" "\<And>k d. k \<le> snd (f k d)"
  shows "state_ok env (update_prune_with env i f st)"
proof -
  obtain ys m where r: "prune_update (clock env) i f (localIdSeed st) (operations st) = (ys, m)" by (metis surj_pair)
  from prune_update_wf [OF assms(2) prune_seed r] have nm: "localIdSeed st \<le> m"
    and fr: "list_all2 (\<lambda>x y. op_ids y = op_ids x \<and> op_wf y = op_wf x) (operations st) ys" by auto
  have "rules_wf (clock env) m ys"
    using rules_wf_frame [OF fr] rules_wf_mono [OF _ nm] assms(1) by (simp add: state_ok_def)
  moreover have "ys \<noteq> []" using fr assms(1) by (auto simp: state_ok_def)
  ultimately show ?thesis by (simp add: update_prune_with_def r state_ok_def)
qed

lemma removeOperation_ok:
  assumes "state_ok env st"
  shows "state_ok env (removeOperation env i st)"
proof (cases "length (operations st) \<le> 1")
  case True
  then show ?thesis by (simp add: removeOperation_def state_ok_def default_rules_wf)
next
  case False
  then obtain x y zs where o: "operations st = x # y # zs" by (cases "operations st"; cases "tl (operations st)") auto
  have "rules_wf (clock env) (localIdSeed st) (operations st)" using assms by (simp add: state_ok_def)
  then have "o_id x \<noteq> o_id y" using rules_wf_ids by (fastforce simp: o)
  then have "filter (\<lambda>x. o_id x \<noteq> i) (operations st) \<noteq> []" by (auto simp: o)
  then show ?thesis
    using False assms rules_wf_filter by (simp add: removeOperation_def state_ok_def)
qed

lemma parseInitialState_ok:
  assumes "parseInitialState clk n s = Inr (es, m)"
  shows "operations es \<noteq> [] \<and> rules_wf clk m (operations es)"
  using assms default_rules_wf rules_of_wf
  by (fastforce simp: parseInitialState_def Let_def visual_state_def text_state_def and_then_Inr
      split: if_splits option.splits json.splits bool.splits prod.splits)

lemma initialize_ok: "initialize env value st = Inr st' \<Longrightarrow> state_ok env st'"
  using parseInitialState_ok by (fastforce simp: initialize_def and_then_Inr state_ok_def)

lemma duplicate_ok:
  "state_ok env st \<Longrightarrow> duplicateOperation env eager i st = Inr st' \<Longrightarrow> state_ok env st'"
  using insert_copy_wf
  by (fastforce simp: duplicateOperation_def and_then_Inr state_ok_def insert_at_def split: option.splits)

lemma drop_ok: "state_ok env st \<Longrightarrow> state_ok env (handleDrop i payload st)"
proof -
  have "reorderOperations ops s d p = [] \<longleftrightarrow> ops = []" for ops s d p
    using mset_reorder [of ops s d p] by (metis mset_zero_iff)
  then show "state_ok env st \<Longrightarrow> state_ok env (handleDrop i payload st)"
    using rules_wf_mset [OF mset_reorder] by (simp add: handleDrop_def Let_def resetDragState_def state_ok_def)
qed

lemma toVisual_ok:
  "state_ok env st \<Longrightarrow> switchToVisualMode env st = Inr st' \<Longrightarrow> state_ok env st'"
  using rules_of_wf default_rules_wf
  by (fastforce simp: switchToVisualMode_def Let_def and_then_Inr state_ok_def toast_error_def
      split: if_splits option.splits json.splits bool.splits prod.splits)

lemma preset_rules_ne: "preset_of key = (Operations_Kind, payload) \<Longrightarrow> payload_rules payload \<noteq> []"
proof -
  have "payload_rules OPERATION_TEMPLATE \<noteq> []" "payload_rules HEADER_PASSTHROUGH_TEMPLATE \<noteq> []"
    "payload_rules GEMINI_IMAGE_4K_TEMPLATE \<noteq> []" "payload_rules AWS_BEDROCK_ANTHROPIC_COMPAT_TEMPLATE \<noteq> []"
    "payload_rules (buildPassHeadersTemplate hs) \<noteq> []" for hs
    by (simp_all add: payload_rules_def condition_items_def prop_of_def obj_get_def jobject_def OPERATION_TEMPLATE_def
        HEADER_PASSTHROUGH_TEMPLATE_def GEMINI_IMAGE_4K_TEMPLATE_def AWS_BEDROCK_ANTHROPIC_COMPAT_TEMPLATE_def
        buildPassHeadersTemplate_def)
  then show "preset_of key = (Operations_Kind, payload) \<Longrightarrow> payload_rules payload \<noteq> []"
    by (auto simp: preset_of_def TEMPLATE_PRESET_CONFIG_def split: if_splits)
qed

lemma fill_operations_ok:
  assumes "state_ok env st" "payload_rules payload \<noteq> []" "fill_operations env payload mode st = Inr st'"
  shows "state_ok env st'"
proof (cases mode)
  case Fill
  then show ?thesis
    using assms(3) rules_of_wf by (fastforce simp: fill_operations_def and_then_Inr state_ok_def)
next
  case Append
  then obtain ys m where r: "map_count (normalizeOperation (clock env)) (localIdSeed st) (payload_rules payload) = Inr (ys, m)"
    using assms(3) by (auto simp: fill_operations_def and_then_Inr)
  let ?ex = "if visualMode st = Operations then filled_operations (operations st) else []"
  have "rules_wf (clock env) (localIdSeed st) ?ex"
    using assms(1) by (simp add: state_ok_def filled_operations_def rules_wf_filter rules_wf_Nil)
  then have "rules_wf (clock env) m (?ex @ ys)"
    using map_count_operations [OF r] by (intro rules_wf_append_issued) auto
  moreover have "ys \<noteq> []" using map_count_operations [OF r] assms(2) by auto
  ultimately show ?thesis
    using assms(3) Append r by (auto simp: fill_operations_def state_ok_def Let_def)
qed

lemma fillTemplate_ok: "state_ok env st \<Longrightarrow> fillTemplate env mode st = Inr st' \<Longrightarrow> state_ok env st'"
proof -
  assume st: "state_ok env st" and f: "fillTemplate env mode st = Inr st'"
  obtain k p where kp: "preset_of (templatePresetKey st) = (k, p)" by (metis surj_pair)
  have l: "state_ok env (show_legacy env s st)" for s by (simp add: show_legacy_def state_ok_def default_rules_wf)
  show ?thesis
  proof (cases k)
    case Operations_Kind
    then have "fill_operations env p mode st = Inr st'" "payload_rules p \<noteq> []"
      using f kp preset_rules_ne by (auto simp: fillTemplate_def)
    then show ?thesis using fill_operations_ok [OF st] by blast
  next
    case Legacy_Kind
    then show ?thesis
      using f kp st l by (auto simp: fillTemplate_def fill_legacy_def Let_def split: if_splits option.splits)
  qed
qed

lemma format_value_ok: "state_ok env st \<Longrightarrow> state_ok env (format_value i st)"
  unfolding format_value_def by (rule state_ok_on_id) (auto simp: op_wf_def op_ids_def split: option.split)

lemma updateReturnError_ok: "state_ok env st \<Longrightarrow> state_ok env (updateReturnErrorDraft i patch st)"
  unfolding updateReturnErrorDraft_def by (rule state_ok_on_id) (auto simp: op_wf_def op_ids_def)

lemma updateOperation_ok: "state_ok env st \<Longrightarrow> list_all field_ok patch \<Longrightarrow> state_ok env (updateOperation i patch st)"
  unfolding updateOperation_def by (rule state_ok_on_id) (auto simp: fields_wf)

lemma addOperation_ok: "state_ok env st \<Longrightarrow> state_ok env (addOperation env st)"
  using rules_wf_append_issued [of "clock env" "localIdSeed st" "operations st"
      "[createDefaultOperation (clock env) (localIdSeed st)]" "Suc (localIdSeed st)"] createDefault_wf
  by (simp add: addOperation_def Let_def state_ok_def)

lemma prune_handlers_ok:
  assumes "state_ok env st"
  shows "state_ok env (updatePruneObjectsDraft env i fs st)" "state_ok env (addPruneRule env i st)"
    "state_ok env (updatePruneRule env i j cs st)" "state_ok env (removePruneRule env i j st)"
  unfolding updatePruneObjectsDraft_def addPruneRule_def updatePruneRule_def removePruneRule_def
  by (rule update_prune_ok [OF assms]; simp)+

lemma same_rules_ok:
  "state_ok env (switchToJsonMode env' st) = state_ok env st" "state_ok env (handleSave env' st) = state_ok env st"
  "state_ok env (formatJson env' st) = state_ok env st" "state_ok env (handleJsonChange env' s st) = state_ok env st"
  "state_ok env (set_expanded b st) = state_ok env st" "state_ok env (handleDragOver i below st) = state_ok env st"
  "state_ok env (handleDragStart i st) = state_ok env st" "state_ok env (resetDragState st) = state_ok env st"
  "state_ok env (st\<lparr>expandedConditions := e\<rparr>) = state_ok env st" "state_ok env (st\<lparr>selectedOperationId := i\<rparr>) = state_ok env st"
  "state_ok env (st\<lparr>operationSearch := s\<rparr>) = state_ok env st" "state_ok env (st\<lparr>legacyValue := s\<rparr>) = state_ok env st"
  "state_ok env (st\<lparr>templatePresetKey := s\<rparr>) = state_ok env st"
  by (simp_all add: state_ok_def switchToJsonMode_def handleSave_def formatJson_def handleJsonChange_def set_expanded_def
      handleDragOver_def handleDragStart_def resetDragState_def toast_error_def Let_def split: sum.split option.split)

lemma reset_ok: "state_ok env (resetEditorState env st)"
  by (simp add: resetEditorState_def Let_def state_ok_def default_rules_wf)

lemmas handlers_ok = updateOperation_ok format_value_ok addOperation_ok removeOperation_ok addCondition_ok updateCondition_ok
  removeCondition_ok updateReturnError_ok prune_handlers_ok drop_ok reset_ok same_rules_ok

lemma editor_step_ok:
  assumes "state_ok env st" "action_ok a" "editor_step env a st = Inr st'"
  shows "state_ok env st'"
  using assms initialize_ok [of env _ st st'] duplicate_ok [OF assms(1), of _ _ st'] toVisual_ok [OF assms(1), of st']
    fillTemplate_ok [OF assms(1), of _ st']
  by (cases a) (auto simp: handlers_ok expandAllConditions_def collapseAllConditions_def)

lemma mounted_ok: "state_ok env (mounted env n)"
  by (simp add: mounted_def state_ok_def default_rules_wf)

lemma reachable_ok: "reachable env st \<Longrightarrow> state_ok env st"
proof (induction rule: reachable.induct)
  case (mount n)
  then show ?case by (simp only: state_ok_keep mounted_ok)
next
  case (act st a st')
  then show ?case using editor_step_ok by (simp only: state_ok_keep)
qed

lemma keepSelection_selects: "state_ok env st \<Longrightarrow> selectedOperation (keepSelection st) \<noteq> None"
  by (cases "operations st")
    (auto simp: state_ok_def keepSelection_def first_id_def list_ex_iff selectedOperation_def find_None_iff)

lemma reachable_selected: "reachable env st \<Longrightarrow> selectedOperation st \<noteq> None"
proof (induction rule: reachable.induct)
  case (mount n)
  then show ?case by (rule keepSelection_selects [OF mounted_ok])
next
  case (act st a st')
  then show ?case using keepSelection_selects editor_step_ok reachable_ok by blast
qed

text \<open>C11: In every reachable state of the dialog there is at least one rule, every mode is one the selects offer, every logic
  is AND or OR, the identifiers of rules and conditions are pairwise distinct, the counter will issue none of them again, and
  the selected rule is in the list.\<close>

theorem editor_well_typed:
  assumes "reachable env st"
  shows "operations st \<noteq> [] \<and> distinct (all_ids (operations st)) \<and>
     (\<forall>x \<in> set (operations st). o_mode x \<in> set OPERATION_MODE_VALUES \<and> (o_logic x = js ''AND'' \<or> o_logic x = js ''OR'') \<and>
        (\<forall>c \<in> set (o_conditions x). c_mode c \<in> set CONDITION_MODE_VALUES)) \<and>
     (\<forall>n \<ge> localIdSeed st. nextLocalId (clock env) n \<notin> set (all_ids (operations st))) \<and>
     selectedOperation st \<noteq> None"
proof -
  have ok: "operations st \<noteq> []" "list_all op_wf (operations st)" "distinct (all_ids (operations st))"
    "set (all_ids (operations st)) \<subseteq> nextLocalId (clock env) ` {..<localIdSeed st}"
    using reachable_ok [OF assms] by (simp_all add: state_ok_def rules_wf_def ids_ok_def)
  have "nextLocalId (clock env) n \<notin> set (all_ids (operations st))" if "localIdSeed st \<le> n" for n
    using ok(4) that by (fastforce simp: nextLocalId_inj)
  then show ?thesis using ok(1-3) reachable_selected [OF assms] by (auto simp: op_wf_def list_all_iff)
qed

definition sample_env :: po_env where
  "sample_env = \<lparr>clock = (\<lambda>_. 7), tr = (\<lambda>k _. k @ js ''!''), engine_message = (\<lambda>_. js ''error'')\<rparr>"

definition sample_state :: editor where
  "sample_state = keepSelection (addOperation sample_env (keepSelection (mounted sample_env 0)))"

theorem editor_well_typed_witness:
  "reachable sample_env sample_state \<and> distinct (all_ids (operations sample_state)) \<and> length (operations sample_state) = 2 \<and>
     nextLocalId (clock sample_env) 2 \<notin> set (all_ids (operations sample_state))"
proof -
  have "reachable sample_env (keepSelection (mounted sample_env 0))" by (rule mount)
  then have r: "reachable sample_env sample_state"
    unfolding sample_state_def by (rule act [where a = Add_Operation]) simp_all
  have "localIdSeed sample_state = 2" "length (operations sample_state) = 2" by code_simp+
  then show ?thesis using editor_well_typed [OF r] r by simp
qed

section \<open>Dragging\<close>

lemma find_index_middle:
  "distinct (map o_id (a @ x # b)) \<Longrightarrow> find_index (\<lambda>y. o_id y = o_id x) (a @ x # b) = Some (length a)"
  by (induction a) auto

lemma reorder_middle:
  assumes d: "distinct (map o_id (a @ s # b))" and m: "a @ b = c @ u # e" and ne: "o_id s \<noteq> []" "o_id u \<noteq> []"
  shows "reorderOperations (a @ s # b) (o_id s) (o_id u) p = (if p = After then c @ u # s # e else c @ s # u # e)"
proof -
  have "u \<in> set (a @ b)" by (simp add: m)
  then have "o_id s \<noteq> o_id u" using d by auto
  moreover have "distinct (map o_id (c @ u # e))" using d by (simp flip: m)
  then have "find_index (\<lambda>y. o_id y = o_id u) (a @ b) = Some (length c)" unfolding m by (rule find_index_middle)
  moreover have "remove_at (length a) (a @ s # b) = a @ b" by (simp add: remove_at_def)
  ultimately show ?thesis
    using ne by (simp add: reorderOperations_def find_index_middle [OF d] m insert_at_def)
qed

lemma rules_id_ne: "rules_wf clk n ops \<Longrightarrow> x \<in> set ops \<Longrightarrow> o_id x \<noteq> []"
proof -
  assume "rules_wf clk n ops" "x \<in> set ops"
  then have "o_id x \<in> nextLocalId clk ` {..<n}" by (auto simp: rules_wf_def ids_ok_def all_ids_def op_ids_def)
  then show ?thesis by (metis imageE nextLocalId_ne)
qed

text \<open>C32: Dragging a rule over another one and dropping it there puts it right before that rule, or right after it when the
  pointer was in the lower half of the row, keeps the order of all other rules, selects the moved rule, and ends the drag.\<close>

theorem drag_moves_rule:
  assumes "reachable env st" and "operations st = a @ s # b" and "a @ b = c @ u # e"
    and "st' = handleDrop (o_id u) payload (handleDragOver (o_id u) below (handleDragStart (o_id s) st))"
  shows "operations st' = (if below then c @ u # s # e else c @ s # u # e) \<and> selectedOperation st' = Some s \<and>
     draggedOperationId st' = [] \<and> dragOverOperationId st' = []"
proof -
  have w: "rules_wf (clock env) (localIdSeed st) (a @ s # b)"
    using reachable_ok [OF assms(1)] assms(2) by (simp add: state_ok_def)
  have d: "distinct (map o_id (a @ s # b))" by (rule rules_wf_ids [OF w])
  have u: "u \<in> set (a @ b)" by (simp add: assms(3))
  then have ne: "o_id s \<noteq> []" "o_id u \<noteq> []" "o_id s \<noteq> o_id u"
    using rules_id_ne [OF w] d by auto
  have r: "operations st' = reorderOperations (a @ s # b) (o_id s) (o_id u) (if below then After else Before)"
      "selectedOperationId st' = o_id s"
    using ne by (simp_all add: assms(2,4) handleDrop_def handleDragOver_def handleDragStart_def resetDragState_def Let_def)
  then have ops: "operations st' = (if below then c @ u # s # e else c @ s # u # e)"
    using reorder_middle [OF d assms(3) ne(1,2)] by simp
  have drag: "draggedOperationId st' = [] \<and> dragOverOperationId st' = []"
    by (simp add: assms(4) handleDrop_def resetDragState_def Let_def)
  have "mset (operations st') = mset (a @ s # b)" using r(1) by (simp only: mset_reorder)
  then have "distinct (map o_id (operations st'))" "s \<in> set (operations st')"
    using d by (metis mset_eq_imp_distinct_iff mset_map) (metis \<open>mset (operations st') = mset (a @ s # b)\<close> in_set_conv_decomp mset_eq_setD)
  then obtain x y where xy: "operations st' = x @ s # y" "distinct (map o_id (x @ s # y))" by (metis in_set_conv_decomp)
  have "List.find (\<lambda>z. o_id z = o_id s) (x @ s # y) = Some s"
    using xy(2) by (induction x) auto
  then show ?thesis using ops drag by (simp add: selectedOperation_def r(2) xy(1))
qed

theorem drag_moves_rule_witness:
  "let x = createDefaultOperation (clock sample_env) 0; y = createDefaultOperation (clock sample_env) 1 in
     operations (handleDrop (o_id x) [] (handleDragOver (o_id x) False (handleDragStart (o_id y) sample_state))) = [y, x]"
proof -
  let ?x = "createDefaultOperation (clock sample_env) 0" and ?y = "createDefaultOperation (clock sample_env) 1"
  have "reachable sample_env (keepSelection (mounted sample_env 0))" by (rule mount)
  then have r: "reachable sample_env sample_state"
    unfolding sample_state_def by (rule act [where a = Add_Operation]) simp_all
  have "operations sample_state = [?x] @ ?y # []" by code_simp
  from drag_moves_rule [OF r this, of "[]" ?x "[]", OF _ refl, of "[]" False] show ?thesis by (simp add: Let_def)
qed

end
