(* ===== verification/Param_Override_Text.thy ===== *)
theory Param_Override_Text
  imports Param_Override_Rules
begin

text \<open>
  What the parameter override editor writes and reads back: loose values, stored rules, custom
  errors, prune options and synchronised fields.
\<close>

section \<open>Loose values\<close>

lemma p_val_str: "p_val n s = Some (JStr w, r) \<Longrightarrow> length w < length s"
proof (cases n)
  case (Suc k)
  assume p: "p_val n s = Some (JStr w, r)"
  have no_num: "p_num z \<noteq> Some (JStr w, r)" for z
  proof
    have "p_num_int neg q \<noteq> Some (JStr w, r)" for neg q
      by (cases q; cases "scan_frac (snd q)"; cases "scan_exp (snd (scan_frac (snd q)))") auto
    then show "p_num z = Some (JStr w, r) \<Longrightarrow> False" by (simp add: p_num_def split: if_splits)
  qed
  from p Suc obtain xs where "skip_ws s = 34 # xs" "p_str xs = Some (w, r)"
    using no_num by (auto split: list.splits if_splits)
  then show ?thesis using p_str_lengths [of xs w r] skip_ws_Cons [of s 34 xs] by simp
qed simp

lemma JSON_parse_str: "JSON_parse s = Some (JStr w) \<Longrightarrow> length w < length s"
  unfolding JSON_parse_def whole_def
  by (auto simp del: p_val.simps split: option.splits prod.splits if_splits dest: p_val_str)

lemma JSON_parse_Nil [simp]: "JSON_parse [] = None"
  by (simp add: JSON_parse_def whole_def skip_ws_def)

lemma trim_trimmed: "trim s = s \<longleftrightarrow> trimmed s"
  by (metis trim_id trimmed_trim)

lemma loose_string: "parseLooseValue s = JStr s \<longleftrightarrow> trimmed s \<and> JSON_parse s = None"
proof (cases "JSON_parse (trim s)")
  case None
  then show ?thesis by (auto simp: parseLooseValue_def Let_def trim_trimmed [symmetric])
next
  case (Some w)
  then have "w \<noteq> JStr s" using JSON_parse_str [of "trim s" s] length_trim [of s] by auto
  moreover have "trim s \<noteq> []" using Some by auto
  ultimately show ?thesis using Some trim_id by (auto simp: parseLooseValue_def Let_def)
qed

lemma loose_printed: "json_wf v \<Longrightarrow> parseLooseValue (JSON_stringify v) = v"
  using compact.print_ne [of v] by (simp add: parseLooseValue_def Let_def compact.trim_print compact.parse_print)

text \<open>C33: A stored value shown as text and read back is the same value, except for strings that carry white space around
  them or whose text is itself JSON: the string "5" comes back as the number 5 and "true" as a boolean.\<close>

theorem value_text_stable:
  assumes "json_wf v"
  shows "parseLooseValue (toValueText (Some v)) = v \<longleftrightarrow>
     (\<forall>s. v = JStr s \<longrightarrow> trimmed s \<and> JSON_parse s = None)"
  using assms loose_printed [of v] by (cases v) (simp_all add: loose_string del: JSON_stringify.simps)

theorem value_text_stable_witness:
  "parseLooseValue (toValueText (Some (JStr (js ''4K'')))) = JStr (js ''4K'') \<and>
   parseLooseValue (toValueText (Some (JStr (js ''5'')))) \<noteq> JStr (js ''5'')"
proof -
  have w: "json_wf (JStr (js ''4K''))" "json_wf (JStr (js ''5''))" by (simp_all add: str_ok_def js_lit)
  have "trimmed (js ''4K'')" "JSON_parse (js ''4K'') = None" "JSON_parse (js ''5'') \<noteq> None" by code_simp+
  then show ?thesis using value_text_stable [OF w(1)] value_text_stable [OF w(2)] by simp
qed

section \<open>Stored rules\<close>

lemma obj_get_set_if: "obj_get (set_if b k v ob) k' = (if k' = js k \<and> b then Some v else obj_get ob k')"
  by (simp add: set_if_def obj_get_set)

lemma obj_get_set_at: "obj_get (obj_set k v ob) k' = (if k' = k then Some v else obj_get ob k')"
  by (simp add: obj_get_set)

lemma obj_get_Cons: "obj_get ((k, v) # ob) k' = (if k' = k then Some v else obj_get ob k')"
  by (simp add: obj_get_def)

lemma obj_get_Nil: "obj_get [] k = None"
  by (simp add: obj_get_def)

lemmas obj_gets = obj_get_set_if obj_get_set_at obj_get_Cons obj_get_Nil

text \<open>Modes with an alias for their path name both ends, and no path.\<close>

lemma mode_meta_cases:
  "meta_of mode \<in> set (map snd MODE_META)"
proof (cases "mode_lookup mode")
  case None
  then show ?thesis by (simp add: meta_of_def MODE_META_def)
next
  case (Some m)
  then have "m \<in> snd ` set (map (\<lambda>(k, m). (js k, m)) MODE_META)"
    unfolding mode_lookup_def using map_of_SomeD by force
  then show ?thesis using Some by (auto simp: meta_of_def image_image case_prod_unfold)
qed

lemma meta_alias: "m_pathAlias (meta_of mode) \<Longrightarrow>
  m_from (meta_of mode) \<and> m_to (meta_of mode) = Some True \<and> \<not> m_path (meta_of mode) \<and> \<not> m_pathOptional (meta_of mode)"
proof -
  have "list_all (\<lambda>m. m_pathAlias m \<longrightarrow> m_from m \<and> m_to m = Some True \<and> \<not> m_path m \<and> \<not> m_pathOptional m) (map snd MODE_META)"
    by (simp add: MODE_META_def no_meta_def)
  then show "m_pathAlias (meta_of mode) \<Longrightarrow>
      m_from (meta_of mode) \<and> m_to (meta_of mode) = Some True \<and> \<not> m_path (meta_of mode) \<and> \<not> m_pathOptional (meta_of mode)"
    using mode_meta_cases [of mode] unfolding list_all_iff by blast
qed

text \<open>The rule that reading its stored form gives back, apart from identifiers.\<close>

definition alias_end :: "po_operation \<Rightarrow> jstr \<Rightarrow> jstr" where
  "alias_end x s = (if trim s = [] \<and> m_pathAlias (meta_of (o_mode x)) then trim (o_path x) else trim s)"

definition reread :: "jstr \<Rightarrow> po_operation \<Rightarrow> po_condition list \<Rightarrow> po_operation" where
  "reread i x cs =
     (let meta = meta_of (o_mode x) in
      \<lparr>o_id = i, o_description = trim (o_description x),
       o_path = (if m_path meta \<or> m_pathOptional meta then trim (o_path x) else []),
       o_mode = o_mode x,
       o_from = (if m_from meta then alias_end x (o_from x) else []),
       o_to = alias_end x (o_to x),
       o_value_text = (if m_value meta then toValueText (Some (parseLooseValue (o_value_text x))) else []),
       o_keep_origin = (m_keepOrigin meta \<and> o_keep_origin x),
       o_logic = (if cs = [] then js ''OR'' else o_logic x),
       o_conditions = cs\<rparr>)"

lemma mode_or_set_wf: "op_wf x \<Longrightarrow> mode_or_set x = o_mode x"
  by (auto simp: op_wf_def mode_or_set_def OPERATION_MODE_VALUES_def OPERATION_MODE_OPTIONS_def js_def)

definition payload_of :: "po_operation \<Rightarrow> json jobj" where
  "payload_of x = alias_payload (meta_of (mode_or_set x)) (trim (o_path x)) (base_payload x)"

lemma base_gets:
  assumes "op_wf x"
  shows "obj_get (base_payload x) (js ''mode'') = Some (JStr (o_mode x))"
    and "obj_get (base_payload x) (js ''description'') = (if trim (o_description x) = [] then None else Some (JStr (trim (o_description x))))"
    and "obj_get (base_payload x) (js ''path'') =
       (if m_path (meta_of (o_mode x)) \<or> m_pathOptional (meta_of (o_mode x)) \<and> trim (o_path x) \<noteq> [] then Some (JStr (trim (o_path x))) else None)"
    and "obj_get (base_payload x) (js ''value'') = (if m_value (meta_of (o_mode x)) then Some (parseLooseValue (o_value_text x)) else None)"
    and "obj_get (base_payload x) (js ''keep_origin'') = (if m_keepOrigin (meta_of (o_mode x)) \<and> o_keep_origin x then Some (JBool True) else None)"
    and "obj_get (base_payload x) (js ''from'') = (if m_from (meta_of (o_mode x)) then Some (JStr (trim (o_from x))) else None)"
    and "obj_get (base_payload x) (js ''to'') =
       (if m_to (meta_of (o_mode x)) = Some True \<or> trim (o_to x) \<noteq> [] then Some (JStr (trim (o_to x))) else None)"
    and "obj_get (base_payload x) (js ''logic'') = None" "obj_get (base_payload x) (js ''conditions'') = None"
  by (simp_all add: base_payload_def Let_def obj_gets mode_or_set_wf [OF assms])

lemma alias_other: "k \<noteq> js ''from'' \<Longrightarrow> k \<noteq> js ''to'' \<Longrightarrow> obj_get (alias_payload meta p ob) k = obj_get ob k"
  by (simp add: alias_payload_def Let_def obj_gets)

lemma payload_gets:
  assumes "op_wf x"
  shows "obj_get (payload_of x) (js ''from'') = (if m_from (meta_of (o_mode x)) then Some (JStr (alias_end x (o_from x))) else None)"
    and "obj_get (payload_of x) (js ''to'') =
       (if m_to (meta_of (o_mode x)) = Some True \<or> trim (o_to x) \<noteq> [] then Some (JStr (alias_end x (o_to x))) else None)"
    and "k \<noteq> js ''from'' \<Longrightarrow> k \<noteq> js ''to'' \<Longrightarrow> obj_get (payload_of x) k = obj_get (base_payload x) k"
  unfolding payload_of_def mode_or_set_wf [OF assms]
  using meta_alias [of "o_mode x"] base_gets(6,7) [OF assms]
  by (cases "m_pathAlias (meta_of (o_mode x))";
      simp add: alias_other; simp add: alias_payload_def Let_def obj_gets falsy_text_def alias_end_def)+

text \<open>Conditions: written only with a path, and read with new identifiers.\<close>

definition reread_condition :: "jstr \<Rightarrow> po_condition \<Rightarrow> po_condition" where
  "reread_condition i c =
     \<lparr>c_id = i, c_path = trim (c_path c), c_mode = c_mode c,
      c_value_text = toValueText (Some (parseLooseValue (c_value_text c))),
      c_invert = c_invert c, c_pass_missing_key = c_pass_missing_key c\<rparr>"

lemma condition_payload_reread:
  assumes "c_mode c \<in> set CONDITION_MODE_VALUES" "buildConditionPayload c = Some v"
  shows "condition_of i v = reread_condition i c" "v \<noteq> JNull"
proof -
  have m: "c_mode c \<noteq> []" using assms(1) by (auto simp: CONDITION_MODE_VALUES_def CONDITION_MODE_OPTIONS_def js_def)
  then show "condition_of i v = reread_condition i c" "v \<noteq> JNull"
    using assms by (auto simp: buildConditionPayload_def Let_def condition_of_def reread_condition_def str_field_def
        mode_field_def true_field_def prop_of_def obj_gets split: if_splits)
qed

lemma condition_payload_again:
  assumes "c_mode c \<in> set CONDITION_MODE_VALUES" "buildConditionPayload c = Some v"
    and "parseLooseValue (toValueText (Some (parseLooseValue (c_value_text c)))) = parseLooseValue (c_value_text c)"
  shows "buildConditionPayload (reread_condition i c) = Some v"
  using assms by (auto simp: buildConditionPayload_def Let_def reread_condition_def split: if_splits)

lemma conditions_reread:
  assumes "list_all (\<lambda>c. c_mode c \<in> set CONDITION_MODE_VALUES) cs"
    and "list_all (\<lambda>c. parseLooseValue (toValueText (Some (parseLooseValue (c_value_text c)))) = parseLooseValue (c_value_text c)) cs"
  shows "\<exists>cs'. map_count (normalizeCondition_po clk) n (List.map_filter buildConditionPayload cs) = Inr (cs', n + length cs') \<and>
     List.map_filter buildConditionPayload cs' = List.map_filter buildConditionPayload cs \<and>
     length cs' = length (List.map_filter buildConditionPayload cs)"
  using assms
proof (induction cs arbitrary: n)
  case (Cons c cs)
  show ?case
  proof (cases "buildConditionPayload c")
    case None
    then show ?thesis using Cons by (simp add: List.map_filter_simps)
  next
    case (Some v)
    let ?c = "reread_condition (nextLocalId clk n) c"
    from Cons obtain cs' where cs': "map_count (normalizeCondition_po clk) (Suc n) (List.map_filter buildConditionPayload cs) = Inr (cs', Suc n + length cs')"
      "List.map_filter buildConditionPayload cs' = List.map_filter buildConditionPayload cs"
      "length cs' = length (List.map_filter buildConditionPayload cs)"
      by fastforce
    have "normalizeCondition_po clk n v = Inr (?c, Suc n)"
      using condition_payload_reread [OF _ Some] Cons.prems by (simp add: normalizeCondition_po_def)
    moreover have "buildConditionPayload ?c = Some v"
      using condition_payload_again [OF _ Some] Cons.prems by simp
    ultimately show ?thesis
      using cs' Some by (intro exI [of _ "?c # cs'"]) (simp add: List.map_filter_simps)
  qed
qed (simp add: List.map_filter_simps)

text \<open>Assignments to different keys, the first of which is present, commute.\<close>

lemma replace_key_twice: "replace_key k v (replace_key k w ob) = replace_key k v ob"
  by (induction ob rule: replace_key.induct) auto

lemma replace_key_commute: "k \<noteq> k' \<Longrightarrow> replace_key k v (replace_key k' w ob) = replace_key k' w (replace_key k v ob)"
  by (induction ob) auto

lemma replace_key_append: "k \<in> set (map fst ob) \<Longrightarrow> replace_key k v (ob @ xs) = replace_key k v ob @ xs"
  by (induction ob) (force)+

lemma replace_key_last: "k \<notin> set (map fst ob) \<Longrightarrow> replace_key k v (ob @ [(k, w)]) = ob @ [(k, v)]"
  by (induction ob) auto

lemma keys_obj_set: "index_key k = None \<Longrightarrow> set (map fst (obj_set k v ob)) = insert k (set (map fst ob))"
  by (auto simp: obj_set_def fst_replace_key simp del: set_map)

lemma obj_set_again: "index_key k = None \<Longrightarrow> obj_set k v (obj_set k w ob) = obj_set k v ob"
  using keys_obj_set [of k w ob]
  by (simp add: obj_set_def replace_key_twice fst_replace_key replace_key_last del: set_map)

lemma obj_set_commute:
  assumes "index_key k = None" "index_key k' = None" "k \<noteq> k'" "k \<in> set (map fst ob)"
  shows "obj_set k v (obj_set k' w ob) = obj_set k' w (obj_set k v ob)"
  using assms keys_obj_set [of k' w ob] keys_obj_set [of k v ob]
  by (simp add: obj_set_def replace_key_commute fst_replace_key replace_key_append del: set_map)

lemma from_to_keys: "index_key (js ''from'') = None" "index_key (js ''to'') = None"
  by code_simp+

lemma alias_ends:
  "obj_set (js ''from'') p (obj_set (js ''to'') q (obj_set (js ''from'') f ob)) = obj_set (js ''to'') q (obj_set (js ''from'') p ob)"
  "obj_set (js ''to'') p (obj_set (js ''to'') q ob) = obj_set (js ''to'') p ob"
  using keys_obj_set [OF from_to_keys(1), of f ob]
  by (simp_all add: obj_set_commute obj_set_again from_to_keys del: set_map)

lemma reread_simps:
  "o_mode (reread i x cs) = o_mode x" "o_conditions (reread i x cs) = cs" "trim (o_description (reread i x cs)) = trim (o_description x)"
  "o_id (reread i x cs) = i"
  "m_path (meta_of (o_mode x)) \<or> m_pathOptional (meta_of (o_mode x)) \<Longrightarrow> o_path (reread i x cs) = trim (o_path x)"
  "\<not> m_path (meta_of (o_mode x)) \<and> \<not> m_pathOptional (meta_of (o_mode x)) \<Longrightarrow> o_path (reread i x cs) = []"
  "m_from (meta_of (o_mode x)) \<Longrightarrow> o_from (reread i x cs) = alias_end x (o_from x)" "o_to (reread i x cs) = alias_end x (o_to x)"
  "m_value (meta_of (o_mode x)) \<Longrightarrow> o_value_text (reread i x cs) = toValueText (Some (parseLooseValue (o_value_text x)))"
  "o_keep_origin (reread i x cs) = (m_keepOrigin (meta_of (o_mode x)) \<and> o_keep_origin x)"
  "o_logic (reread i x cs) = (if cs = [] then js ''OR'' else o_logic x)"
  by (simp_all add: reread_def Let_def)

lemma set_if_cong: "(b \<Longrightarrow> v = v') \<Longrightarrow> set_if b k v ob = set_if b k v' ob"
  by (simp add: set_if_def)

lemma set_if_simps: "set_if True k v ob = obj_set (js k) v ob" "set_if False k v ob = ob"
  by (simp_all add: set_if_def)

lemma alias_two:
  assumes "m_pathAlias meta"
  shows "alias_payload meta p (obj_set (js ''to'') (JStr q) (obj_set (js ''from'') (JStr f) ob)) =
     obj_set (js ''to'') (JStr (if q = [] then p else q)) (obj_set (js ''from'') (JStr (if f = [] then p else f)) ob)"
proof -
  let ?ob = "obj_set (js ''to'') (JStr q) (obj_set (js ''from'') (JStr f) ob)"
  have g: "falsy_text (obj_get ?ob (js ''from'')) \<longleftrightarrow> f = []" by (simp add: falsy_text_def obj_gets)
  have f: "set_if (f = [] \<and> p \<noteq> []) ''from'' (JStr p) ?ob =
      obj_set (js ''to'') (JStr q) (obj_set (js ''from'') (JStr (if f = [] then p else f)) ob)"
    by (cases "f = [] \<and> p \<noteq> []") (auto simp: set_if_simps alias_ends)
  have h: "falsy_text (obj_get (obj_set (js ''to'') (JStr q) ob') (js ''to'')) \<longleftrightarrow> q = []" for ob'
    by (simp add: falsy_text_def obj_gets)
  have "set_if (q = [] \<and> p \<noteq> []) ''to'' (JStr p) (obj_set (js ''to'') (JStr q) ob') =
      obj_set (js ''to'') (JStr (if q = [] then p else q)) ob'" for ob'
    by (cases "q = [] \<and> p \<noteq> []") (auto simp: set_if_simps alias_ends)
  then show ?thesis using assms by (simp only: alias_payload_def Let_def g f h if_True)
qed

definition common_payload :: "mode_meta \<Rightarrow> po_operation \<Rightarrow> json jobj" where
  "common_payload meta z =
     set_if (m_keepOrigin meta \<and> o_keep_origin z) ''keep_origin'' (JBool True)
      (set_if (m_value meta) ''value'' (parseLooseValue (o_value_text z))
       (set_if (trim (o_description z) \<noteq> []) ''description'' (JStr (trim (o_description z))) [(js ''mode'', JStr (mode_or_set z))]))"

lemma payload_alias:
  assumes "m_pathAlias (meta_of (mode_or_set z))"
  shows "payload_of z =
     obj_set (js ''to'') (JStr (if trim (o_to z) = [] then trim (o_path z) else trim (o_to z)))
      (obj_set (js ''from'') (JStr (if trim (o_from z) = [] then trim (o_path z) else trim (o_from z)))
        (common_payload (meta_of (mode_or_set z)) z))"
proof -
  have "base_payload z = obj_set (js ''to'') (JStr (trim (o_to z))) (obj_set (js ''from'') (JStr (trim (o_from z)))
      (common_payload (meta_of (mode_or_set z)) z))"
    using meta_alias [OF assms] by (simp add: base_payload_def Let_def set_if_simps common_payload_def)
  then show ?thesis by (simp only: payload_of_def alias_two [OF assms])
qed

lemma payload_again:
  assumes x: "op_wf x"
    and st: "m_value (meta_of (o_mode x)) \<Longrightarrow>
      parseLooseValue (toValueText (Some (parseLooseValue (o_value_text x)))) = parseLooseValue (o_value_text x)"
  shows "payload_of (reread i x cs) = payload_of x"
proof -
  let ?m = "meta_of (o_mode x)" and ?y = "reread i x cs"
  have y: "mode_or_set ?y = o_mode x" "mode_or_set x = o_mode x"
    using mode_or_set_wf [OF x] by (auto simp: mode_or_set_def reread_simps split: if_splits)
  have v: "set_if (m_value ?m) ''value'' (parseLooseValue (o_value_text ?y)) ob = set_if (m_value ?m) ''value'' (parseLooseValue (o_value_text x)) ob" for ob
    using st by (intro set_if_cong) (simp add: reread_simps)
  show ?thesis
  proof (cases "m_pathAlias ?m")
    case True
    note m = meta_alias [OF True]
    have "common_payload ?m ?y = common_payload ?m x" by (simp add: common_payload_def v y reread_simps)
    then show ?thesis
      using True m payload_alias [of x] payload_alias [of ?y] by (simp add: y reread_simps alias_end_def)
  next
    case False
    have f: "set_if (m_from ?m) ''from'' (JStr (trim (o_from ?y))) ob = set_if (m_from ?m) ''from'' (JStr (trim (o_from x))) ob" for ob
      using False by (intro set_if_cong) (simp add: reread_simps alias_end_def)
    have p: "set_if (m_pathOptional ?m \<and> trim (o_path ?y) \<noteq> []) ''path'' (JStr (trim (o_path ?y))) (set_if (m_path ?m) ''path'' (JStr (trim (o_path ?y))) ob) =
        set_if (m_pathOptional ?m \<and> trim (o_path x) \<noteq> []) ''path'' (JStr (trim (o_path x))) (set_if (m_path ?m) ''path'' (JStr (trim (o_path x))) ob)" for ob
      by (cases "m_path ?m \<or> m_pathOptional ?m") (auto simp: reread_simps set_if_def)
    have to: "trim (alias_end x (o_to x)) = trim (o_to x)" using False by (simp add: alias_end_def)
    have "base_payload ?y = base_payload x"
      by (simp add: base_payload_def Let_def y v f p to reread_simps)
    then show ?thesis using False by (simp add: payload_of_def y alias_payload_def)
  qed
qed

lemma operation_payload_eq:
  "operation_payload x =
     JObj (let conditions = List.map_filter buildConditionPayload (o_conditions x) in
       if conditions \<noteq> [] then
         obj_set (js ''logic'') (JStr (if o_logic x = js ''AND'' then js ''AND'' else js ''OR''))
           (obj_set (js ''conditions'') (JArr conditions) (payload_of x))
       else payload_of x)"
  by (simp add: operation_payload_def payload_of_def Let_def)

lemma operation_of_fields:
  assumes x: "op_wf x"
    and q: "\<And>k. k \<noteq> js ''logic'' \<Longrightarrow> k \<noteq> js ''conditions'' \<Longrightarrow> obj_get Q k = obj_get (payload_of x) k"
    and l: "(if ascii_upper l = js ''AND'' then js ''AND'' else js ''OR'') = (if cs = [] then js ''OR'' else o_logic x)"
  shows "operation_of i l (JObj Q) cs = reread i x cs"
proof -
  have other: "obj_get Q k = obj_get (base_payload x) k"
    if "k \<noteq> js ''from''" "k \<noteq> js ''to''" "k \<noteq> js ''logic''" "k \<noteq> js ''conditions''" for k
    using q [OF that(3,4)] payload_gets(3) [OF x that(1,2)] by simp
  have ends: "obj_get Q (js ''from'') = obj_get (payload_of x) (js ''from'')" "obj_get Q (js ''to'') = obj_get (payload_of x) (js ''to'')"
    using q by simp_all
  have "str_field (JObj Q) ''description'' = trim (o_description x)" by (simp add: str_field_def prop_of_def other base_gets [OF x])
  moreover have "str_field (JObj Q) ''path'' = (if m_path (meta_of (o_mode x)) \<or> m_pathOptional (meta_of (o_mode x)) then trim (o_path x) else [])"
    by (simp add: str_field_def prop_of_def other base_gets [OF x])
  moreover have "mode_field OPERATION_MODE_VALUES ''set'' (JObj Q) = o_mode x"
    using x by (simp add: mode_field_def prop_of_def other base_gets [OF x] op_wf_def)
  moreover have "str_field (JObj Q) ''from'' = (if m_from (meta_of (o_mode x)) then alias_end x (o_from x) else [])"
    by (simp add: str_field_def prop_of_def ends payload_gets(1) [OF x])
  moreover have "str_field (JObj Q) ''to'' = alias_end x (o_to x)"
    using meta_alias [of "o_mode x"] by (auto simp: str_field_def prop_of_def ends payload_gets(2) [OF x] alias_end_def)
  moreover have "toValueText (prop_of (JObj Q) (js ''value'')) =
      (if m_value (meta_of (o_mode x)) then toValueText (Some (parseLooseValue (o_value_text x))) else [])"
    by (simp add: prop_of_def other base_gets [OF x])
  moreover have "true_field (JObj Q) ''keep_origin'' = (m_keepOrigin (meta_of (o_mode x)) \<and> o_keep_origin x)"
    by (simp add: true_field_def prop_of_def other base_gets [OF x])
  ultimately show ?thesis using l by (simp only: operation_of_def reread_def Let_def)
qed

lemma stored_logic:
  assumes "op_wf x" "List.map_filter buildConditionPayload (o_conditions x) \<noteq> []"
  shows "prop_of (operation_payload x) (js ''logic'') = Some (JStr (o_logic x))"
  using assms by (auto simp: operation_payload_eq Let_def prop_of_def obj_gets op_wf_def)

lemma logic_read:
  assumes x: "op_wf x" and cs: "length cs = length (List.map_filter buildConditionPayload (o_conditions x))"
  shows "\<exists>l. to_String (jor (prop_of (operation_payload x) (js ''logic'')) (JStr (js ''OR''))) = Inr l \<and>
     (if ascii_upper l = js ''AND'' then js ''AND'' else js ''OR'') = (if cs = [] then js ''OR'' else o_logic x)"
proof (cases "List.map_filter buildConditionPayload (o_conditions x) = []")
  case True
  have "ascii_upper (js ''OR'') = js ''OR''" by code_simp
  moreover have "prop_of (operation_payload x) (js ''logic'') = None"
    using True payload_gets(3) [OF x, of "js ''logic''"] base_gets(8) [OF x] by (simp add: operation_payload_eq prop_of_def)
  ultimately show ?thesis using True cs by (simp add: jor_def to_String_def)
next
  case False
  have up: "ascii_upper (js ''AND'') = js ''AND''" "ascii_upper (js ''OR'') = js ''OR''" by code_simp+
  have ne: "js ''AND'' \<noteq> []" "js ''OR'' \<noteq> []" by (simp_all add: js_def)
  then show ?thesis
    using stored_logic [OF x False] x cs False up by (auto simp: op_wf_def jor_def to_String_def)
qed

definition stable_text :: "jstr \<Rightarrow> bool" where
  "stable_text s \<longleftrightarrow> parseLooseValue (toValueText (Some (parseLooseValue s))) = parseLooseValue s"

definition stable_rule :: "po_operation \<Rightarrow> bool" where
  "stable_rule x \<longleftrightarrow> stable_text (o_value_text x) \<and> list_all (\<lambda>c. stable_text (c_value_text c)) (o_conditions x)"

lemma normalize_payload:
  assumes x: "op_wf x" and st: "stable_rule x"
  shows "\<exists>cs m. normalizeOperation clk n (operation_payload x) = Inr (reread (nextLocalId clk n) x cs, m) \<and>
     operation_payload (reread (nextLocalId clk n) x cs) = operation_payload x"
proof -
  let ?cs = "List.map_filter buildConditionPayload (o_conditions x)" and ?i = "nextLocalId clk n"
  have "list_all (\<lambda>c. c_mode c \<in> set CONDITION_MODE_VALUES) (o_conditions x)"
    "list_all (\<lambda>c. parseLooseValue (toValueText (Some (parseLooseValue (c_value_text c)))) = parseLooseValue (c_value_text c)) (o_conditions x)"
    using x st by (simp_all add: op_wf_def stable_rule_def stable_text_def)
  from conditions_reread [OF this, of clk "Suc n"] obtain cs where cs: "map_count (normalizeCondition_po clk) (Suc n) ?cs = Inr (cs, Suc n + length cs)"
    "List.map_filter buildConditionPayload cs = ?cs" "length cs = length ?cs" by blast
  have items: "condition_items (prop_of (operation_payload x) (js ''conditions'')) = ?cs"
    using payload_gets(3) [OF x, of "js ''conditions''"] base_gets(9) [OF x]
    by (auto simp: operation_payload_eq Let_def prop_of_def obj_gets condition_items_def)
  obtain l where l: "to_String (jor (prop_of (operation_payload x) (js ''logic'')) (JStr (js ''OR''))) = Inr l"
    "(if ascii_upper l = js ''AND'' then js ''AND'' else js ''OR'') = (if cs = [] then js ''OR'' else o_logic x)" using logic_read [OF x cs(3)] by blast
  obtain Q where Q: "operation_payload x = JObj Q"
    "\<And>k. k \<noteq> js ''logic'' \<Longrightarrow> k \<noteq> js ''conditions'' \<Longrightarrow> obj_get Q k = obj_get (payload_of x) k"
    by (simp add: operation_payload_eq Let_def obj_gets)
  have "normalizeOperation clk n (operation_payload x) = Inr (reread ?i x cs, Suc n + length cs)"
    using l(1) cs(1) items operation_of_fields [OF x Q(2) l(2), of ?i] Q(1) by (simp add: normalizeOperation_def)
  moreover have "operation_payload (reread ?i x cs) = operation_payload x"
    using payload_again [OF x, of ?i cs] st cs(2,3)
    by (auto simp: operation_payload_eq reread_simps Let_def stable_rule_def stable_text_def)
  ultimately show ?thesis by blast
qed

subsection \<open>What validation guarantees\<close>

lemma validate_from_all:
  "(\<And>k l. t k l \<noteq> []) \<Longrightarrow> validate_from t n ops = Inr [] \<Longrightarrow> x \<in> set ops \<Longrightarrow> \<exists>l. validate_operation t l x = Inr None"
proof (induction ops arbitrary: n)
  case (Cons y ops)
  then obtain r where r: "validate_operation t n y = Inr r" by (cases "validate_operation t n y") auto
  have "r = None"
  proof (rule ccontr)
    assume "r \<noteq> None"
    then obtain m where "r = Some m" by auto
    then have "validate_operation t n y = Inr (Some [])" using r Cons.prems(2) by simp
    then show False using Cons.prems(1)
      by (auto simp: validate_operation_def check_headers_def Let_def and_then_Inr split: if_splits)
  qed
  then show ?case using Cons r by auto
qed simp

lemma validated:
  assumes "validate_operation t l x = Inr None" "op_wf x"
  shows "m_path (meta_of (o_mode x)) \<Longrightarrow> trim (o_path x) \<noteq> []"
    and "o_mode x \<in> set FROM_REQUIRED_MODES \<Longrightarrow> alias_end x (o_from x) \<noteq> []"
    and "o_mode x \<in> set TO_REQUIRED_MODES \<Longrightarrow> alias_end x (o_to x) \<noteq> []"
    and "o_mode x \<in> set VALUE_REQUIRED_MODES \<Longrightarrow> trim (o_value_text x) \<noteq> []"
    and "o_mode x = js ''pass_headers'' \<Longrightarrow> \<exists>hs. parsePassHeaderNames (parseLooseValue (trim (o_value_text x))) = Inr hs \<and> hs \<noteq> []"
  using assms(1) unfolding validate_operation_def mode_or_set_wf [OF assms(2)] Let_def
  by (auto simp: missing_source_def missing_target_def alias_end_def check_headers_def and_then_Inr split: if_splits)

lemma required_meta:
  "mode \<in> set FROM_REQUIRED_MODES \<Longrightarrow> m_from (meta_of mode)" "mode \<in> set TO_REQUIRED_MODES \<Longrightarrow> m_to (meta_of mode) = Some True"
  "mode \<in> set VALUE_REQUIRED_MODES \<Longrightarrow> m_value (meta_of mode)"
proof -
  have "list_all (\<lambda>m. m_from (meta_of m)) FROM_REQUIRED_MODES" "list_all (\<lambda>m. m_to (meta_of m) = Some True) TO_REQUIRED_MODES"
    "list_all (\<lambda>m. m_value (meta_of m)) VALUE_REQUIRED_MODES"
    by code_simp+
  then show "mode \<in> set FROM_REQUIRED_MODES \<Longrightarrow> m_from (meta_of mode)" "mode \<in> set TO_REQUIRED_MODES \<Longrightarrow> m_to (meta_of mode) = Some True"
    "mode \<in> set VALUE_REQUIRED_MODES \<Longrightarrow> m_value (meta_of mode)"
    by (simp_all add: list_all_iff)
qed

text \<open>A stored rule has everything its mode needs.\<close>

definition filled_text :: "json \<Rightarrow> string \<Rightarrow> bool" where
  "filled_text p k \<longleftrightarrow> (case prop_of p (js k) of Some (JStr s) \<Rightarrow> s \<noteq> [] \<and> trimmed s | _ \<Rightarrow> False)"

definition complete_rule :: "json \<Rightarrow> bool" where
  "complete_rule p \<longleftrightarrow>
     (case prop_of p (js ''mode'') of
        Some (JStr mode) \<Rightarrow>
          mode \<in> set OPERATION_MODE_VALUES \<and>
          (m_path (meta_of mode) \<longrightarrow> filled_text p ''path'') \<and>
          (mode \<in> set FROM_REQUIRED_MODES \<longrightarrow> filled_text p ''from'') \<and>
          (mode \<in> set TO_REQUIRED_MODES \<longrightarrow> filled_text p ''to'') \<and>
          (m_value (meta_of mode) \<longrightarrow> prop_of p (js ''value'') \<noteq> None) \<and>
          (mode = js ''pass_headers'' \<longrightarrow>
             (case prop_of p (js ''value'') of Some v \<Rightarrow> \<exists>h hs. parsePassHeaderNames v = Inr (h # hs) | None \<Rightarrow> False))
      | _ \<Rightarrow> False)"

lemma operation_payload_gets:
  assumes "k \<noteq> js ''logic''" "k \<noteq> js ''conditions''"
  shows "prop_of (operation_payload x) k = obj_get (payload_of x) k"
  using assms by (simp add: operation_payload_eq Let_def prop_of_def obj_gets)

lemma loose_trim: "parseLooseValue (trim s) = parseLooseValue s"
  by (simp add: parseLooseValue_def)

lemma validated_complete:
  assumes v: "validate_operation t l x = Inr None" and x: "op_wf x"
  shows "complete_rule (operation_payload x)"
proof -
  have g: "prop_of (operation_payload x) (js ''mode'') = Some (JStr (o_mode x))"
    "prop_of (operation_payload x) (js ''path'') =
       (if m_path (meta_of (o_mode x)) \<or> m_pathOptional (meta_of (o_mode x)) \<and> trim (o_path x) \<noteq> [] then Some (JStr (trim (o_path x))) else None)"
    "prop_of (operation_payload x) (js ''value'') = (if m_value (meta_of (o_mode x)) then Some (parseLooseValue (o_value_text x)) else None)"
    by (simp_all add: operation_payload_gets payload_gets(3) [OF x] base_gets [OF x])
  have e: "prop_of (operation_payload x) (js ''from'') = (if m_from (meta_of (o_mode x)) then Some (JStr (alias_end x (o_from x))) else None)"
    "prop_of (operation_payload x) (js ''to'') =
       (if m_to (meta_of (o_mode x)) = Some True \<or> trim (o_to x) \<noteq> [] then Some (JStr (alias_end x (o_to x))) else None)"
    by (simp_all add: operation_payload_gets payload_gets(1,2) [OF x])
  have tr: "trimmed (alias_end x s)" for s by (simp add: alias_end_def)
  have ph: "\<exists>h hs. parsePassHeaderNames (parseLooseValue (o_value_text x)) = Inr (h # hs)" if "o_mode x = js ''pass_headers''"
    using validated(5) [OF v x that] by (auto simp: loose_trim neq_Nil_conv)
  have pv: "m_value (meta_of (js ''pass_headers''))" by code_simp
  show ?thesis
    using validated(1-4) [OF v x] required_meta [of "o_mode x"] x ph pv
    by (auto simp: complete_rule_def g e filled_text_def tr op_wf_def)
qed

lemma saved_rules:
  assumes r: "reachable env st" and m: "editMode st = Visual" "visualMode st = Operations"
    and t: "\<And>k l. tr env k l \<noteq> []" and s: "save_result env st = Inr s" "s \<noteq> []"
  shows "s = JSON_pretty (operations_json (filled_operations (operations st)))"
    and "filled_operations (operations st) \<noteq> []"
    and "x \<in> set (filled_operations (operations st)) \<Longrightarrow> op_wf x \<and> (\<exists>l. validate_operation (tr env) l x = Inr None)"
proof -
  let ?ops = "filled_operations (operations st)"
  have b: "buildOperationsJson (operations st) True (tr env) = Inr s"
    using s m by (simp add: save_result_def buildVisualJson_def)
  then show "s = JSON_pretty (operations_json ?ops)" "?ops \<noteq> []"
    using s(2) by (auto simp: buildOperationsJson_def Let_def and_then_Inr split: if_splits)
  have v: "validate_from (tr env) 1 ?ops = Inr []"
    using b s(2) by (cases "validateOperations ?ops (tr env)")
      (auto simp: buildOperationsJson_def validateOperations_def Let_def split: if_splits)
  show "x \<in> set ?ops \<Longrightarrow> op_wf x \<and> (\<exists>l. validate_operation (tr env) l x = Inr None)"
    using validate_from_all [OF t v] reachable_ok [OF r]
    by (auto simp: state_ok_def rules_wf_def list_all_iff filled_operations_def)
qed


definition sample_rule_state :: editor where
  "sample_rule_state = keepSelection (updateOperation (nextLocalId (clock sample_env) 0)
     [Set_path (js ''user''), Set_value_text (js ''abc'')] (keepSelection (mounted sample_env 0)))"

definition sample_saved :: jstr where
  "sample_saved = projr (save_result sample_env sample_rule_state)"

lemma sample_facts:
  "reachable sample_env sample_rule_state" "editMode sample_rule_state = Visual" "visualMode sample_rule_state = Operations"
  "save_result sample_env sample_rule_state = Inr sample_saved" "sample_saved \<noteq> []"
  "json_wf (operations_json (filled_operations (operations sample_rule_state)))" "list_all stable_rule (operations sample_rule_state)"
proof -
  have "reachable sample_env (keepSelection (mounted sample_env 0))" by (rule mount)
  then show "reachable sample_env sample_rule_state"
    unfolding sample_rule_state_def
    by (rule act [where a = "Update_Operation (nextLocalId (clock sample_env) 0) [Set_path (js ''user''), Set_value_text (js ''abc'')]"]) simp_all
  show "editMode sample_rule_state = Visual" "visualMode sample_rule_state = Operations"
    "save_result sample_env sample_rule_state = Inr sample_saved" "sample_saved \<noteq> []"
    "json_wf (operations_json (filled_operations (operations sample_rule_state)))" "list_all stable_rule (operations sample_rule_state)"
    by code_simp+
qed



lemma reread_not_blank:
  assumes "validate_operation t l x = Inr None" "op_wf x"
  shows "\<not> isOperationBlank (reread i x cs)"
proof -
  have "m_path (meta_of (js ''set''))" by code_simp
  then show ?thesis
    using validated(1) [OF assms] by (auto simp: isOperationBlank_def reread_simps)
qed

lemma map_count_reread:
  "(\<And>x. x \<in> set xs \<Longrightarrow> op_wf x \<and> stable_rule x \<and> (\<exists>l. validate_operation t l x = Inr None)) \<Longrightarrow>
   \<exists>ys m. map_count (normalizeOperation clk) n (map operation_payload xs) = Inr (ys, m) \<and>
     map operation_payload ys = map operation_payload xs \<and> filled_operations ys = ys"
proof (induction xs arbitrary: n)
  case (Cons x xs)
  obtain cs k where y: "normalizeOperation clk n (operation_payload x) = Inr (reread (nextLocalId clk n) x cs, k)"
    "operation_payload (reread (nextLocalId clk n) x cs) = operation_payload x"
    using normalize_payload [of x clk n] Cons.prems by auto
  obtain ys m where ys: "map_count (normalizeOperation clk) k (map operation_payload xs) = Inr (ys, m)"
    "map operation_payload ys = map operation_payload xs" "filled_operations ys = ys"
    using Cons.IH [of k] Cons.prems by auto
  have "\<not> isOperationBlank (reread (nextLocalId clk n) x cs)"
    using Cons.prems reread_not_blank by (meson list.set_intros(1))
  then show ?case
    using y ys by (intro exI [of _ "reread (nextLocalId clk n) x cs # ys"] exI [of _ m]) (simp add: filled_operations_def)
qed (simp add: filled_operations_def)



section \<open>Texts that cannot be opened\<close>

definition bad_rule :: "json \<Rightarrow> bool" where
  "bad_rule v \<longleftrightarrow> v = JNull \<or> str_throws (jor (prop_of v (js ''logic'')) (JStr (js ''OR''))) \<or>
     JNull \<in> set (condition_items (prop_of v (js ''conditions'')))"

lemma map_count_Inl:
  assumes "\<And>n x e'. f n x = Inl e' \<Longrightarrow> e' = e" "\<And>n x. f n x = Inl e \<longleftrightarrow> bad x"
  shows "map_count f n xs = Inl e \<longleftrightarrow> list_ex bad xs"
proof (induction xs arbitrary: n)
  case (Cons x xs)
  show ?case
  proof (cases "f n x")
    case (Inl a)
    then show ?thesis using assms(1) [OF Inl] assms(2) [of n x] by simp
  next
    case (Inr r)
    obtain y k where r: "r = (y, k)" by (cases r)
    have "\<not> bad x" using Inr assms(2) [of n x] by auto
    moreover have "and_then (map_count f k xs) (\<lambda>(ys, n2). Inr (y # ys, n2)) = Inl e \<longleftrightarrow> map_count f k xs = Inl e"
      by (cases "map_count f k xs") auto
    ultimately show ?thesis using Cons [of k] Inr r by simp
  qed
qed simp

lemma conditions_throw:
  "map_count (normalizeCondition_po clk) n vs = Inl TypeError \<longleftrightarrow> JNull \<in> set vs"
proof -
  have "map_count (normalizeCondition_po clk) n vs = Inl TypeError \<longleftrightarrow> list_ex (\<lambda>v. v = JNull) vs"
    by (rule map_count_Inl) (auto simp: normalizeCondition_po_def split: if_splits)
  then show ?thesis by (auto simp: list_ex_iff)
qed

lemma map_count_error:
  "(\<And>n x e'. f n x = Inl e' \<Longrightarrow> e' = e) \<Longrightarrow> map_count f n xs = Inl e' \<Longrightarrow> e' = e"
proof (induction xs arbitrary: n)
  case (Cons x xs)
  show ?case
  proof (cases "f n x")
    case (Inl a)
    then show ?thesis using Cons.prems by auto
  next
    case (Inr r)
    then show ?thesis
      using Cons by (cases r; cases "map_count f (snd r) xs") auto
  qed
qed simp

lemma normalizeOperation_throws:
  "normalizeOperation clk n v = Inl TypeError \<longleftrightarrow> bad_rule v" "normalizeOperation clk n v = Inl e \<Longrightarrow> e = TypeError"
proof -
  let ?s = "to_String (jor (prop_of v (js ''logic'')) (JStr (js ''OR'')))"
  let ?c = "map_count (normalizeCondition_po clk) (Suc n) (condition_items (prop_of v (js ''conditions'')))"
  have e: "?c = Inl e \<Longrightarrow> e = TypeError" for e
    by (rule map_count_error [of "normalizeCondition_po clk"]) (auto simp: normalizeCondition_po_def split: if_splits)
  show "normalizeOperation clk n v = Inl e \<Longrightarrow> e = TypeError"
    using e by (cases ?c) (auto simp: normalizeOperation_def to_String_def split: if_splits)
  show "normalizeOperation clk n v = Inl TypeError \<longleftrightarrow> bad_rule v"
    using conditions_throw [of clk "Suc n" "condition_items (prop_of v (js ''conditions''))"] e
    by (cases ?c) (auto simp: normalizeOperation_def bad_rule_def to_String_def split: if_splits)
qed

lemma and_then_total: "(\<And>x. \<exists>y. f x = Inr y) \<Longrightarrow> and_then q f = Inl e \<longleftrightarrow> q = Inl e"
  by (cases q) (simp_all, metis Inl_Inr_False)

text \<open>Opening the dialog throws a TypeError exactly when the stored text is an object whose list of rules contains null, a
  rule with null among its conditions, or a rule whose logic has no text form; every other text can be opened.\<close>

lemma opening_throws_iff:
  "initialize env s st = Inl TypeError \<longleftrightarrow>
     (\<exists>ob vs. JSON_parse (trim s) = Some (JObj ob) \<and> obj_get ob (js ''operations'') = Some (JArr vs) \<and> list_ex bad_rule vs)"
proof -
  have r: "rules_of clk n vs = Inl TypeError \<longleftrightarrow> list_ex bad_rule vs" for clk n vs
  proof -
    have "map_count (normalizeOperation clk) n vs = Inl TypeError \<longleftrightarrow> list_ex bad_rule vs"
      by (rule map_count_Inl) (fact normalizeOperation_throws)+
    then show ?thesis by (auto simp: rules_of_def)
  qed
  have i: "initialize env s st = Inl TypeError \<longleftrightarrow> parseInitialState (clock env) (localIdSeed st) s = Inl TypeError"
    unfolding initialize_def by (rule and_then_total) auto
  show ?thesis
  proof (cases "JSON_parse (trim s)")
    case None
    then show ?thesis by (simp add: i parseInitialState_def Let_def)
  next
    case (Some v)
    then have ne: "trim s \<noteq> []" by auto
    show ?thesis
    proof (cases "\<exists>ob vs. v = JObj ob \<and> obj_get ob (js ''operations'') = Some (JArr vs)")
      case True
      then obtain ob vs where v: "v = JObj ob" "obj_get ob (js ''operations'') = Some (JArr vs)" by blast
      then have "parseInitialState (clock env) (localIdSeed st) s =
          and_then (rules_of (clock env) (localIdSeed st) vs) (\<lambda>(ops, n'). Inr (visual_state Operations [] ops (JSON_pretty v), n'))"
        using Some ne by (simp add: parseInitialState_def is_object_def prop_of_def)
      moreover have "\<dots> = Inl TypeError \<longleftrightarrow> rules_of (clock env) (localIdSeed st) vs = Inl TypeError"
        by (rule and_then_total) auto
      ultimately show ?thesis using i r v Some by simp
    next
      case False
      then show ?thesis
        using Some ne i by (cases v) (auto simp: parseInitialState_def Let_def is_object_def prop_of_def split: option.split json.split)
    qed
  qed
qed

end
