(* ===== verification/Param_Override_Drafts.thy ===== *)
theory Param_Override_Drafts
  imports Param_Override_Text
begin

text \<open>
  The special editors of the parameter override dialog: synchronised fields, custom errors and
  object pruning keep their data only in a text, which is read and written on every edit; and
  the copy that duplicating a rule makes.
\<close>

section \<open>Synchronised fields\<close>

lemma index_of_first: "p \<notin> set a \<Longrightarrow> index_of (a @ p # b) [p] = Some (length a)"
  by (induction a) auto

lemma sync_read:
  assumes "ty = js ''header'' \<or> ty = js ''json''" "trimmed key" "key \<noteq> []"
  shows "parseSyncTargetSpec (ty @ 58 # key) = (ty, key)"
proof -
  have ty: "58 \<notin> set ty" "trimmed ty" "ascii_lower ty = ty" "ty \<noteq> []" "\<not> is_ws (hd ty)"
    using assms(1) by (elim disjE; simp; code_simp)+
  then have "trim (ty @ 58 # key) = ty @ 58 # key"
    using assms(2,3) by (intro trim_id) (auto simp: trimmed_def)
  moreover have "index_of (ty @ 58 # key) (js '':'') = Some (length ty)"
    using index_of_first [OF ty(1)] by (simp add: js_lit)
  ultimately show ?thesis
    using assms ty(2-4) by (auto simp: parseSyncTargetSpec_def Let_def trim_id)
qed

text \<open>A target built from a type and a key is read back as this type and the trimmed key; without a key it is read back
  as a body field, so the header type chosen before typing the key is lost.\<close>

lemma sync_target_roundtrip:
  "parseSyncTargetSpec (buildSyncTargetSpec type key) =
     (if trim key = [] then (js ''json'', []) else (if type = js ''header'' then js ''header'' else js ''json'', trim key))"
proof (cases "trim key = []")
  case True
  then show ?thesis by (simp add: buildSyncTargetSpec_def parseSyncTargetSpec_def)
next
  case False
  have c: "js '':'' @ s = 58 # s" for s by (simp add: js_lit)
  show ?thesis
    using False sync_read [of "js ''header''" "trim key"] sync_read [of "js ''json''" "trim key"]
    by (simp add: buildSyncTargetSpec_def Let_def c)
qed

section \<open>Custom errors\<close>

lemma status_400: "status_or_400 (num_of_nat 400) = num_of_nat 400"
  by code_simp

lemma status_again: "status_or_400 (status_or_400 x) = status_or_400 x"
  using status_400 by (auto simp: status_or_400_def)

lemma error_payload_gets:
  "obj_get (error_payload d) (js ''message'') = Some (JStr (trim (re_message d)))"
  "obj_get (error_payload d) (js ''status_code'') = Some (JNum (status_or_400 (re_statusCode d)))"
  "obj_get (error_payload d) (js ''code'') = (if trim (re_code d) = [] then None else Some (JStr (trim (re_code d))))"
  "obj_get (error_payload d) (js ''type'') = (if trim (re_type d) = [] then None else Some (JStr (trim (re_type d))))"
  "obj_get (error_payload d) (js ''skip_retry'') = (if re_skipRetry d then None else Some (JBool False))"
  "obj_get (error_payload d) (js ''msg'') = None"
  by (simp_all add: error_payload_def Let_def obj_gets)

definition tidy_error :: "ReturnErrorDraft \<Rightarrow> ReturnErrorDraft" where
  "tidy_error d = d\<lparr>re_message := trim (re_message d), re_statusCode := status_or_400 (re_statusCode d),
     re_code := trim (re_code d), re_type := trim (re_type d)\<rparr>"

lemma error_draft_of_payload:
  assumes "\<not> re_simpleMode d"
  shows "error_draft_of (error_payload d) = Inr (tidy_error d)"
proof -
  have "jor (Some (JStr s)) (JStr []) = JStr s" for s by (simp add: jor_def)
  moreover have "to_String (JStr s) = Inr s" for s by (simp add: to_String_def)
  ultimately show ?thesis
    using assms
    by (cases d) (simp add: error_draft_of_def status_raw_def error_payload_gets tidy_error_def status_again jor_def)
qed

text \<open>C34: An edited custom error is shown as it was edited, with the white space around its texts removed and a status outside
  100 to 599 replaced by 400; a plain message stays a plain message unless its text is a JSON object.\<close>

theorem error_draft_roundtrip:
  assumes "re_simpleMode d \<or> json_wf (JObj (error_payload d))"
    and "re_simpleMode d \<Longrightarrow> \<forall>ob. JSON_parse (trim (re_message d)) \<noteq> Some (JObj ob)"
  shows "parseReturnErrorDraft (buildReturnErrorValueText d) =
     (if re_simpleMode d then error_defaults\<lparr>re_message := trim (re_message d)\<rparr> else tidy_error d)"
proof (cases "re_simpleMode d")
  case True
  then show ?thesis
    using assms(2) by (auto simp: parseReturnErrorDraft_def buildReturnErrorValueText_def Let_def error_defaults_def
        split: option.split json.split)
next
  case False
  then have wf: "json_wf (JObj (error_payload d))" using assms(1) by simp
  then show ?thesis
    using False compact.parse_trim_print [OF wf] compact.print_ne [OF wf] compact.trim_print [OF wf]
    by (simp add: parseReturnErrorDraft_def buildReturnErrorValueText_def Let_def error_draft_of_payload
        del: JSON_stringify.simps)
qed

definition sample_error :: ReturnErrorDraft where
  "sample_error = \<lparr>re_message = js '' no access '', re_statusCode = num_of_nat 40, re_code = js ''denied'', re_type = [],
     re_skipRetry = False, re_simpleMode = False\<rparr>"

theorem error_draft_roundtrip_witness:
  "parseReturnErrorDraft (buildReturnErrorValueText sample_error) =
     sample_error\<lparr>re_message := js ''no access'', re_statusCode := num_of_nat 400\<rparr>"
proof -
  have "json_wf (JObj (error_payload sample_error))" "\<not> re_simpleMode sample_error"
    "tidy_error sample_error = sample_error\<lparr>re_message := js ''no access'', re_statusCode := num_of_nat 400\<rparr>"
    by code_simp+
  then show ?thesis using error_draft_roundtrip [of sample_error] by simp
qed

section \<open>Object pruning\<close>

lemma numbered_rule_ids:
  "r \<in> set (numbered_rules clk n items) \<Longrightarrow> \<exists>k \<ge> n. c_id r = nextLocalId clk k"
  by (auto simp: numbered_rules_def normalizePruneRule_def set_zip) (metis le_add1)

lemma prune_draft_rules:
  "prune_draft_of parsed rules = Inr d \<Longrightarrow> pd_rules d = rules"
  by (auto simp: prune_draft_of_def and_then_Inr)

lemma parsed_rule_ids:
  "r \<in> set (pd_rules (fst (parsePruneObjectsDraft clk n s))) \<Longrightarrow> \<exists>k \<ge> n. c_id r = nextLocalId clk k"
  using numbered_rule_ids
  by (auto simp: parsePruneObjectsDraft_def Let_def or_raw_def prune_defaults_def map_sum_def
      split: option.splits json.splits if_splits sum.splits dest: prune_draft_rules)

lemma prune_update_cong:
  assumes "\<And>k s. m \<le> k \<Longrightarrow> f (snd (parsePruneObjectsDraft clk k s)) (fst (parsePruneObjectsDraft clk k s)) =
      g (snd (parsePruneObjectsDraft clk k s)) (fst (parsePruneObjectsDraft clk k s))"
    and "\<And>k d. k \<le> snd (g k d)"
  shows "m \<le> n \<Longrightarrow> prune_update clk i f n ops = prune_update clk i g n ops"
proof (induction ops arbitrary: n)
  case (Cons x ops)
  obtain d n1 where d: "parsePruneObjectsDraft clk n (o_value_text x) = (d, n1)" by (metis surj_pair)
  then have f: "f n1 d = g n1 d" using assms(1) [OF Cons.prems, of "o_value_text x"] by simp
  obtain e n2 where e: "g n1 d = (e, n2)" by (metis surj_pair)
  have "m \<le> n2" using prune_seed [of n clk "o_value_text x"] assms(2) [of n1 d] d e Cons.prems by simp
  then show ?case using Cons d e f by simp
qed simp

text \<open>The text of a draft does not depend on the identifiers of its rules.\<close>

definition anonymous :: "PruneObjectsDraft \<Rightarrow> PruneObjectsDraft" where
  "anonymous d = d\<lparr>pd_rules := map (\<lambda>r. r\<lparr>c_id := []\<rparr>) (pd_rules d)\<rparr>"

lemma rule_payload_anonymous: "rule_payload (r\<lparr>c_id := i\<rparr>) = rule_payload r"
  by (simp add: rule_payload_def)

lemma prune_conditions_anonymous: "prune_conditions (map (\<lambda>r. r\<lparr>c_id := []\<rparr>) rules) = prune_conditions rules"
  by (induction rules) (simp_all add: prune_conditions_def rule_payload_anonymous)

lemma build_anonymous: "buildPruneObjectsValueText (anonymous d) = buildPruneObjectsValueText d"
  by (simp add: buildPruneObjectsValueText_def prune_payload_def anonymous_def prune_conditions_anonymous)

lemma or_raw_anonymous:
  "map_sum id anonymous r = map_sum id anonymous r' \<Longrightarrow> anonymous (or_raw raw r) = anonymous (or_raw raw r')"
  by (cases r; cases r') (simp_all add: or_raw_def)

lemma parse_anonymous:
  "anonymous (fst (parsePruneObjectsDraft clk n s)) = anonymous (fst (parsePruneObjectsDraft clk n' s))"
proof -
  have nth: "map (\<lambda>r. r\<lparr>c_id := []\<rparr>) (numbered_rules clk n items) = map (condition_of []) items" for n items
    by (auto simp: numbered_rules_def normalizePruneRule_def condition_of_def intro: nth_equalityI)
  have "map_sum id anonymous (prune_draft_of parsed (numbered_rules clk n items)) = map_sum id anonymous (prune_draft_of parsed (numbered_rules clk n' items))" for parsed items
    by (cases "prune_type_text parsed"; cases "to_String (jor (obj_get parsed (js ''logic'')) (JStr (js ''AND'')))")
      (simp_all add: prune_draft_of_def anonymous_def nth)
  then have "anonymous (or_raw raw (prune_draft_of parsed (numbered_rules clk n items))) = anonymous (or_raw raw (prune_draft_of parsed (numbered_rules clk n' items)))" for raw parsed items
    by (rule or_raw_anonymous)
  then show ?thesis by (simp add: parsePruneObjectsDraft_def Let_def split: option.split json.split)
qed

lemma added_rule_dropped:
  "map o_value_text (operations (addPruneRule env i st)) =
     map o_value_text (operations (updatePruneObjectsDraft env i [Prune_simpleMode False] st))"
proof -
  let ?f = "\<lambda>n d. (d\<lparr>pd_simpleMode := False, pd_rules := pd_rules d @ [normalizePruneRule (clock env) n (JObj [])]\<rparr>, Suc n)"
  let ?g = "\<lambda>n d. (fold apply_prune_field [Prune_simpleMode False] d, n)"
  have "prune_conditions (rules @ [normalizePruneRule clk n (JObj [])]) = prune_conditions rules" for rules clk n
    by (simp add: prune_conditions_def normalizePruneRule_def condition_of_def str_field_def prop_of_def obj_gets)
  then have b: "buildPruneObjectsValueText (fst (?f n d)) = buildPruneObjectsValueText (fst (?g n' d))" for n n' d
    by (simp add: buildPruneObjectsValueText_def prune_payload_def)
  have a: "buildPruneObjectsValueText (fst (?g n d)) = buildPruneObjectsValueText (fst (?g n' d'))" if "anonymous d = anonymous d'" for n n' d d'
  proof -
    have "anonymous (fst (?g n d)) = anonymous (fst (?g n' d'))" using that by (cases d; cases d') (simp add: anonymous_def)
    then show ?thesis by (metis build_anonymous)
  qed
  have ab: "buildPruneObjectsValueText (fst (?f k (fst (parsePruneObjectsDraft (clock env) n s)))) =
      buildPruneObjectsValueText (fst (?g k' (fst (parsePruneObjectsDraft (clock env) n' s))))" for k k' n n' s
    by (rule trans [OF b a [OF parse_anonymous]])
  have "map o_value_text (fst (prune_update (clock env) i ?f n ops)) = map o_value_text (fst (prune_update (clock env) i ?g n' ops))" for n n' ops
  proof (induction ops arbitrary: n n')
    case (Cons x ops)
    then show ?case using ab by (simp add: case_prod_unfold)
  qed simp
  then show ?thesis
    by (simp add: addPruneRule_def updatePruneObjectsDraft_def update_prune_with_def case_prod_unfold)
qed


definition sample_prune_state :: editor where
  "sample_prune_state = (keepSelection (updateOperation (nextLocalId (clock sample_env) 0)
     [Set_mode (js ''prune_objects''),
      Set_value_text (js ''{\"conditions\":[{\"path\":\"type\",\"mode\":\"full\",\"value\":\"a\"}]}'')]
     (keepSelection (mounted sample_env 0))))\<lparr>localIdSeed := 2\<rparr>"


lemma prune_update_texts:
  "list_all2 (\<lambda>x y. o_id y = o_id x \<and> (o_id x = i \<longrightarrow>
       (\<exists>k k'. o_value_text y = buildPruneObjectsValueText (fst (f k' (fst (parsePruneObjectsDraft clk k (o_value_text x))))))))
     ops (fst (prune_update clk i f n ops))"
proof (induction ops arbitrary: n)
  case (Cons x ops)
  show ?case
  proof (cases "o_id x = i")
    case True
    let ?p = "parsePruneObjectsDraft clk n (o_value_text x)"
    have "o_value_text (hd (fst (prune_update clk i f n (x # ops)))) = buildPruneObjectsValueText (fst (f (snd ?p) (fst ?p)))"
      using True by (simp add: case_prod_unfold)
    then show ?thesis using Cons True by (auto simp: case_prod_unfold)
  next
    case False
    then show ?thesis using Cons by (simp add: case_prod_unfold)
  qed
qed simp

lemma list_all2_member: "list_all2 P xs ys \<Longrightarrow> x \<in> set xs \<Longrightarrow> \<exists>y \<in> set ys. P x y"
  by (induction rule: list_all2_induct) auto

lemma type_key: "index_key (js ''type'') = None"
  by code_simp

lemma type_str: "str_ok (js ''type'')"
  by code_simp

lemma upper_and: "ascii_upper (js ''AND'') = js ''AND''"
  by code_simp

lemma only_type_payload:
  assumes "trim ty \<noteq> []" "pd_logic d = js ''AND''" "pd_recursive d" "pd_rules d = []" "pd_typeText d = ty" "\<not> pd_simpleMode d"
  shows "buildPruneObjectsValueText d = JSON_stringify (JObj [(js ''type'', JStr (trim ty))])"
proof -
  have "ascii_upper (js ''AND'') = js ''AND''" "js ''AND'' \<noteq> []" by code_simp+
  then have "prune_payload d = [(js ''type'', JStr (trim ty))]"
    using assms by (simp add: prune_payload_def Let_def set_if_def prune_conditions_def obj_set_def from_to_keys type_key)
  then show ?thesis
    using assms by (simp add: buildPruneObjectsValueText_def Let_def obj_gets)
qed

text \<open>While a plain type is filled in, asking for the advanced mode leaves the prune editor in the simple mode: the draft
  is written as an object with only a type, which is read as a simple one.\<close>

lemma prune_advanced_unreachable:
  assumes x: "x \<in> set (operations st)"
    and ty: "trim (o_value_text x) \<noteq> []" "JSON_parse (trim (o_value_text x)) = None" "str_ok (o_value_text x)"
  shows "\<exists>y \<in> set (operations (updatePruneObjectsDraft env (o_id x) [Prune_simpleMode False] st)). o_id y = o_id x \<and>
     fst (parsePruneObjectsDraft (clock env) n (o_value_text y)) = prune_defaults\<lparr>pd_typeText := trim (o_value_text x)\<rparr>"
proof -
  let ?f = "\<lambda>(n :: nat) draft. (fold apply_prune_field [Prune_simpleMode False] draft, n)"
  let ?ob = "[(js ''type'', JStr (trim (o_value_text x)))]"
  from list_all2_member [OF prune_update_texts [of "o_id x" ?f "clock env" "operations st" "localIdSeed st"] x]
  obtain y where y: "y \<in> set (fst (prune_update (clock env) (o_id x) ?f (localIdSeed st) (operations st)))" "o_id y = o_id x"
    and "\<exists>k k'. o_value_text y = buildPruneObjectsValueText (fst (?f k' (fst (parsePruneObjectsDraft (clock env) k (o_value_text x)))))"
    by blast
  then obtain k where yt: "o_value_text y = buildPruneObjectsValueText ((fst (parsePruneObjectsDraft (clock env) k (o_value_text x)))\<lparr>pd_simpleMode := False\<rparr>)"
    by auto
  have "fst (parsePruneObjectsDraft (clock env) k (o_value_text x)) = prune_defaults\<lparr>pd_typeText := trim (o_value_text x)\<rparr>"
    using ty by (simp add: parsePruneObjectsDraft_def)
  then have s: "o_value_text y = JSON_stringify (JObj ?ob)"
    unfolding yt using ty(1) only_type_payload [of "trim (o_value_text x)"] by (simp add: prune_defaults_def del: JSON_stringify.simps)
  have wf: "json_wf (JObj ?ob)"
    using ty(3) set_trim [of "o_value_text x"] type_str
    by (auto simp: obj_wf_def obj_set_def type_key str_ok_def list_all_iff)
  have "fst (parsePruneObjectsDraft (clock env) n (o_value_text y)) = prune_defaults\<lparr>pd_typeText := trim (o_value_text x)\<rparr>"
    using compact.parse_trim_print [OF wf] compact.print_ne [OF wf] compact.trim_print [OF wf]
    unfolding s parsePruneObjectsDraft_def
    by (simp add: Let_def rule_items_def obj_gets numbered_rules_def prune_draft_of_def prune_type_text_def to_String_def jor_def
        or_raw_def prune_defaults_def upper_and del: JSON_stringify.simps)
  then show ?thesis
    using y(1,2) by (auto simp: updatePruneObjectsDraft_def update_prune_with_def case_prod_unfold)
qed

section \<open>Copies\<close>

lemma condition_copy_of:
  assumes "c_mode c \<in> set CONDITION_MODE_VALUES"
  shows "condition_of i (condition_copy c) = c\<lparr>c_id := i, c_value_text := toValueText (Some (parseLooseValue (c_value_text c)))\<rparr>"
    and "condition_copy c \<noteq> JNull"
  using assms by (simp_all add: condition_copy_def condition_of_def jobject_def str_field_def mode_field_def true_field_def
      prop_of_def obj_gets)

lemma copy_conditions:
  assumes "list_all (\<lambda>c. c_mode c \<in> set CONDITION_MODE_VALUES) cs" "list_all (\<lambda>c. stable_text (c_value_text c)) cs"
  shows "\<exists>cs'. map_count (normalizeCondition_po clk) n (map condition_copy cs) = Inr (cs', n + length cs) \<and>
     List.map_filter buildConditionPayload cs' = List.map_filter buildConditionPayload cs"
  using assms
proof (induction cs arbitrary: n)
  case (Cons c cs)
  let ?c = "c\<lparr>c_id := nextLocalId clk n, c_value_text := toValueText (Some (parseLooseValue (c_value_text c)))\<rparr>"
  have m: "c_mode c \<in> set CONDITION_MODE_VALUES" using Cons.prems by simp
  obtain cs' where cs': "map_count (normalizeCondition_po clk) (Suc n) (map condition_copy cs) = Inr (cs', Suc n + length cs)"
    "List.map_filter buildConditionPayload cs' = List.map_filter buildConditionPayload cs"
    using Cons.IH [of "Suc n"] Cons.prems by auto
  have "normalizeCondition_po clk n (condition_copy c) = Inr (?c, Suc n)"
    by (simp add: normalizeCondition_po_def condition_copy_of [OF m])
  moreover have "buildConditionPayload ?c = buildConditionPayload c"
    using Cons.prems by (simp add: buildConditionPayload_def Let_def stable_text_def)
  ultimately show ?case
    using cs' by (intro exI [of _ "?c # cs'"]) (simp add: List.map_filter_simps split: option.split)
qed (simp add: List.map_filter_simps)

lemma copy_payload:
  assumes x: "op_wf x" and st: "stable_rule x"
  shows "\<exists>y m. normalizeOperation clk n (operation_copy x) = Inr (y, m) \<and> operation_payload y = operation_payload x"
proof -
  let ?g = "prop_of (operation_copy x)"
  have up: "ascii_upper (js ''AND'') = js ''AND''" "ascii_upper (js ''OR'') = js ''OR''" "js ''AND'' \<noteq> []" "js ''OR'' \<noteq> []" by code_simp+
  have g: "?g (js ''description'') = Some (JStr (o_description x))" "?g (js ''path'') = Some (JStr (o_path x))"
    "?g (js ''mode'') = Some (JStr (o_mode x))" "?g (js ''value'') = Some (parseLooseValue (o_value_text x))"
    "?g (js ''keep_origin'') = Some (JBool (o_keep_origin x))" "?g (js ''from'') = Some (JStr (o_from x))"
    "?g (js ''to'') = Some (JStr (o_to x))" "?g (js ''logic'') = Some (JStr (o_logic x))"
    "?g (js ''conditions'') = Some (JArr (map condition_copy (o_conditions x)))"
    by (simp_all add: operation_copy_def jobject_def prop_of_def obj_gets)
  obtain cs where cs: "map_count (normalizeCondition_po clk) (Suc n) (map condition_copy (o_conditions x)) = Inr (cs, Suc n + length (o_conditions x))"
    "List.map_filter buildConditionPayload cs = List.map_filter buildConditionPayload (o_conditions x)"
    using copy_conditions [of "o_conditions x" clk "Suc n"] x st by (auto simp: op_wf_def stable_rule_def)
  let ?y = "x\<lparr>o_id := nextLocalId clk n, o_value_text := toValueText (Some (parseLooseValue (o_value_text x))), o_conditions := cs\<rparr>"
  have "operation_of (nextLocalId clk n) (o_logic x) (operation_copy x) cs = ?y"
    using x up by (auto simp: operation_of_def str_field_def mode_field_def true_field_def g op_wf_def)
  moreover have "operation_copy x \<noteq> JNull" by (simp add: operation_copy_def jobject_def)
  moreover have "to_String (jor (?g (js ''logic'')) (JStr (js ''OR''))) = Inr (o_logic x)"
    using x up by (auto simp: g jor_def to_String_def op_wf_def)
  ultimately have "normalizeOperation clk n (operation_copy x) = Inr (?y, Suc n + length (o_conditions x))"
    using cs(1) by (simp add: normalizeOperation_def g condition_items_def)
  moreover have "operation_payload ?y = operation_payload x"
    using st cs(2) by (simp add: operation_payload_def base_payload_def Let_def mode_or_set_def stable_rule_def stable_text_def)
  ultimately show ?thesis by blast
qed

text \<open>Duplicating a rule puts a copy right after it that is stored exactly like the original, provided the loose reading
  keeps its values; a quoted text such as "5" is copied without its quotes and stored as a number.\<close>

lemma duplicate_stores_the_same:
  assumes "reachable env st" and "operations st = a @ x # b" and "stable_rule x"
  shows "\<exists>st' y. duplicateOperation env eager (o_id x) st = Inr st' \<and> operations st' = a @ x # y # b \<and>
     operation_payload y = operation_payload x \<and> (eager \<longrightarrow> selectedOperationId st' = o_id y)"
proof -
  have w: "rules_wf (clock env) (localIdSeed st) (a @ x # b)"
    using reachable_ok [OF assms(1)] assms(2) by (simp add: state_ok_def)
  have "find_index (\<lambda>y. o_id y = o_id x) (operations st) = Some (length a)"
    unfolding assms(2) by (rule find_index_middle [OF rules_wf_ids [OF w]])
  moreover have "op_wf x" using w by (simp add: rules_wf_def)
  then obtain y m where y: "normalizeOperation (clock env) (localIdSeed st) (operation_copy x) = Inr (y, m)"
    "operation_payload y = operation_payload x"
    using copy_payload assms(3) by blast
  moreover have "o_id y \<noteq> []"
    using normalizeOperation_wf [OF y(1)] issued_ids_Cons nextLocalId_ne
    by (metis list.inject op_ids_def)
  ultimately show ?thesis
    using assms(2) by (simp add: duplicateOperation_def insert_at_def)
qed

end
