(* ===== verification/Go_Values.thy ===== *)
theory Go_Values
  imports Js_Values "HOL-Library.List_Lexorder"
begin

text \<open>
  The part of the Go language and its standard library that the server code uses on request
  bodies and settings: strings, \<open>fmt.Sprintf("%v", ...)\<close>, errors, and \<open>encoding/json\<close> as it is
  called through common/json.go.

  A Go string is the list of its code points.  The strings of the server come from decoded JSON
  and from HTTP headers and are valid UTF-8, on which the functions of package \<open>strings\<close> work by
  code points and the byte order is the order of the code points.  Decoded JSON is the type
  \<open>json\<close> of the other components: \<open>nil\<close>, \<open>bool\<close>, \<open>float64\<close>, \<open>string\<close>, \<open>[]interface{}\<close> and
  \<open>map[string]interface{}\<close> are its six constructors.
\<close>

section \<open>Strings\<close>

type_synonym gstr = "nat list"

text \<open>A string of the browser as the server receives it: an unpaired surrogate becomes U+FFFD.\<close>

definition rune :: "nat \<Rightarrow> nat" where
  "rune c = (if hi_surr c \<or> lo_surr c then 0xFFFD else c)"

fun runes :: "jstr \<Rightarrow> gstr" where
  "runes [] = []"
| "runes [c] = [rune c]"
| "runes (c # d # cs) =
     (if hi_surr c \<and> lo_surr d then (0x10000 + (c - 0xD800) * 0x400 + (d - 0xDC00)) # runes cs
      else rune c # runes (d # cs))"

text \<open>\<open>unicode.IsSpace\<close> and \<open>strings.TrimSpace\<close>.\<close>

definition go_space :: "nat \<Rightarrow> bool" where
  "go_space c \<longleftrightarrow>
     9 \<le> c \<and> c \<le> 13 \<or> c = 32 \<or> c = 0x85 \<or> c = 0xA0 \<or> c = 0x1680 \<or> 0x2000 \<le> c \<and> c \<le> 0x200A \<or>
     c = 0x2028 \<or> c = 0x2029 \<or> c = 0x202F \<or> c = 0x205F \<or> c = 0x3000"

definition TrimSpace :: "gstr \<Rightarrow> gstr" where
  "TrimSpace s = rev (dropWhile go_space (rev (dropWhile go_space s)))"

definition TrimPrefix :: "gstr \<Rightarrow> gstr \<Rightarrow> gstr" where
  "TrimPrefix s p = (if starts_with s p then drop (length p) s else s)"

definition TrimSuffix :: "gstr \<Rightarrow> gstr \<Rightarrow> gstr" where
  "TrimSuffix s p = (if ends_with s p then take (length s - length p) s else s)"

text \<open>\<open>strings.Replace(s, p, q, 1)\<close>, and \<open>strings.ReplaceAll(s, p, q)\<close> for a \<open>p\<close> that is not empty.\<close>

definition replace_first :: "gstr \<Rightarrow> gstr \<Rightarrow> gstr \<Rightarrow> gstr" where
  "replace_first s p q =
     (case index_of s p of None \<Rightarrow> s | Some i \<Rightarrow> take i s @ q @ drop (i + length p) s)"

fun ReplaceAll :: "gstr \<Rightarrow> gstr \<Rightarrow> gstr \<Rightarrow> gstr" where
  "ReplaceAll s [] q = s"
| "ReplaceAll s (c # cs) q = join q (split_str c cs s)"

text \<open>\<open>strings.Split(s, p)[0]\<close> for a \<open>p\<close> that is not empty.\<close>

definition split_head :: "gstr \<Rightarrow> gstr \<Rightarrow> gstr" where
  "split_head s p = (case index_of s p of None \<Rightarrow> s | Some i \<Rightarrow> take i s)"

interpretation gtrim: trimming go_space TrimSpace
  by unfold_locales (rule TrimSpace_def)

declare gtrim.strip_Nil [simp] and gtrim.strip_strip [simp]

section \<open>Printing with the verb v\<close>

text \<open>
  A \<open>float64\<close> is printed with its shortest digits, in the form with an exponent of at least two
  digits when the decimal exponent is below -4 or at least 6 (verb g).
\<close>

definition two_digits :: "nat \<Rightarrow> gstr" where
  "two_digits n = (if n < 10 then 48 # nat_str n else nat_str n)"

definition g_layout :: "nat \<times> int \<Rightarrow> gstr" where
  "g_layout r =
     (let ds = nat_str (fst r); n = snd r; ex = n - 1 in
      if ex < - 4 \<or> 6 \<le> ex then
        (if length ds = 1 then ds else take 1 ds @ js ''.'' @ drop 1 ds) @ js ''e'' @
        (if ex < 0 then js ''-'' @ two_digits (nat (- ex)) else js ''+'' @ two_digits (nat ex))
      else layout ds n)"

definition g_positive :: "int \<Rightarrow> int \<Rightarrow> gstr" where
  "g_positive m e =
     (let f = frac m e in
      g_layout (short_digits (Fin m e) (fst f) (snd f) (floor_log10 (fst f) (snd f) + 1) [1..<18]))"

fun float_str :: "jsnum \<Rightarrow> gstr" where
  "float_str NaN = js ''NaN''"
| "float_str (Infty neg) = (if neg then js ''-Inf'' else js ''+Inf'')"
| "float_str (Fin m e) =
     (if m = 0 then js ''0'' else if m < 0 then js ''-'' @ g_positive (- m) e else g_positive m e)"

fun Sprint :: "json \<Rightarrow> gstr" where
  "Sprint JNull = js ''<nil>''"
| "Sprint (JBool b) = (if b then js ''true'' else js ''false'')"
| "Sprint (JNum x) = float_str x"
| "Sprint (JStr s) = s"
| "Sprint (JArr vs) = js ''['' @ join (js '' '') (map Sprint vs) @ js '']''"
| "Sprint (JObj ob) =
     js ''map['' @ join (js '' '') (map (\<lambda>(k, s). k @ js '':'' @ s) (sort_key fst (map (\<lambda>(k, v). (k, Sprint v)) ob))) @ js '']''"

section \<open>encoding/json\<close>

text \<open>
  \<open>json.Unmarshal\<close> into an \<open>interface{}\<close>.  The grammar is the one of \<open>JSON.parse\<close>; a text nested
  deeper than 10000 is refused.  A number outside the range of \<open>float64\<close> is an error, but the
  rest is decoded and the number stays \<open>nil\<close>, which a caller that ignores the error sees.
\<close>

fun json_runes :: "json \<Rightarrow> json" where
  "json_runes (JStr s) = JStr (runes s)"
| "json_runes (JArr vs) = JArr (map json_runes vs)"
| "json_runes (JObj ob) =
     JObj (fold (\<lambda>(k, v). obj_set k v) (map (\<lambda>(k, v). (runes k, json_runes v)) ob) [])"
| "json_runes v = v"

fun json_depth :: "json \<Rightarrow> nat" where
  "json_depth (JArr vs) = Suc (fold max (map json_depth vs) 0)"
| "json_depth (JObj ob) = Suc (fold max (map (\<lambda>(_, v). json_depth v) ob) 0)"
| "json_depth _ = 0"

fun out_of_range :: "json \<Rightarrow> bool" where
  "out_of_range (JNum x) = (\<not> num_isFinite x)"
| "out_of_range (JArr vs) = list_ex out_of_range vs"
| "out_of_range (JObj ob) = list_ex (\<lambda>(_, v). out_of_range v) ob"
| "out_of_range _ = False"

fun drop_out_of_range :: "json \<Rightarrow> json" where
  "drop_out_of_range (JNum x) = (if num_isFinite x then JNum x else JNull)"
| "drop_out_of_range (JArr vs) = JArr (map drop_out_of_range vs)"
| "drop_out_of_range (JObj ob) = JObj (map (\<lambda>(k, v). (k, drop_out_of_range v)) ob)"
| "drop_out_of_range v = v"

text \<open>The decoded value, and whether an error is returned beside it; \<open>None\<close> is a syntax error.\<close>

definition decode :: "gstr \<Rightarrow> (json \<times> bool) option" where
  "decode s =
     (case JSON_parse s of
        None \<Rightarrow> None
      | Some v \<Rightarrow> if 10000 < json_depth v then None
                  else Some (drop_out_of_range (json_runes v), out_of_range v))"

text \<open>\<open>json.Marshal\<close>: keys sorted, the characters of HTML escaped; a number that is not finite is an error.\<close>

definition go_quote_char :: "nat \<Rightarrow> gstr" where
  "go_quote_char c =
     (if c = 34 then [92, 34] else if c = 92 then [92, 92]
      else if c = 8 then [92, 98] else if c = 9 then [92, 116]
      else if c = 10 then [92, 110] else if c = 12 then [92, 102]
      else if c = 13 then [92, 114]
      else if c < 32 \<or> c = 60 \<or> c = 62 \<or> c = 38 \<or> c = 0x2028 \<or> c = 0x2029 then unicode_escape c
      else [c])"

definition go_quote :: "gstr \<Rightarrow> gstr" where
  "go_quote s = js ''\"'' @ concat (map go_quote_char s) @ js ''\"''"

fun marshal_text :: "json \<Rightarrow> gstr" where
  "marshal_text JNull = js ''null''"
| "marshal_text (JBool b) = (if b then js ''true'' else js ''false'')"
| "marshal_text (JNum x) = num_str x"
| "marshal_text (JStr s) = go_quote s"
| "marshal_text (JArr vs) = js ''['' @ join (js '','') (map marshal_text vs) @ js '']''"
| "marshal_text (JObj ob) =
     js ''{'' @ join (js '','') (map (\<lambda>(k, s). go_quote k @ js '':'' @ s)
       (sort_key fst (map (\<lambda>(k, v). (k, marshal_text v)) ob))) @ js ''}''"

section \<open>Errors\<close>

text \<open>
  An error made by \<open>fmt.Errorf\<close> is its format and arguments; with the verb v the inner error is
  only printed, with the verb w it is wrapped and stays visible to \<open>errors.Is\<close> and \<open>errors.As\<close>.
  Errors of \<open>encoding/json\<close> and of other libraries carry no text of their own here.  A panic is a
  value of this type as well: like an error it ends every caller.  The type parameter is the
  application's own error type.
\<close>

datatype 'a go_error =
    Errorf string "gstr list"
  | Errorv string "gstr list" "'a go_error"
  | Errorw string "gstr list" "'a go_error"
  | Sentinel string
  | AppError 'a
  | JsonError
  | LibraryError gstr
  | Panic

fun errors_Is :: "'a go_error \<Rightarrow> string \<Rightarrow> bool" where
  "errors_Is (Sentinel m) t = (m = t)"
| "errors_Is (Errorw f as e) t = errors_Is e t"
| "errors_Is _ t = False"

fun errors_As :: "'a go_error \<Rightarrow> 'a option" where
  "errors_As (AppError x) = Some x"
| "errors_As (Errorw f as e) = errors_As e"
| "errors_As _ = None"

definition Unmarshal :: "gstr \<Rightarrow> 'a go_error + json" where
  "Unmarshal s = (case decode s of None \<Rightarrow> Inl JsonError | Some (v, bad) \<Rightarrow> if bad then Inl JsonError else Inr v)"

definition Marshal :: "json \<Rightarrow> 'a go_error + gstr" where
  "Marshal v = (if out_of_range v then Inl JsonError else Inr (marshal_text v))"

text \<open>
  \<open>json.Unmarshal\<close> into a \<open>map[string]interface{}\<close>: \<open>null\<close> makes the map \<open>nil\<close> (\<open>Inr None\<close>), any
  other value that is no object is an error.
\<close>

definition Unmarshal_map :: "gstr \<Rightarrow> 'a go_error + json jobj option" where
  "Unmarshal_map s =
     and_then (Unmarshal s) (\<lambda>v.
       case v of JNull \<Rightarrow> Inr None | JObj ob \<Rightarrow> Inr (Some ob) | _ \<Rightarrow> Inl JsonError)"

section \<open>Loops\<close>

text \<open>A loop over a slice that ends with the first error.\<close>

fun each :: "('a \<Rightarrow> 's \<Rightarrow> 'e + 's) \<Rightarrow> 'a list \<Rightarrow> 's \<Rightarrow> 'e + 's" where
  "each f [] s = Inr s"
| "each f (x # xs) s = and_then (f x s) (each f xs)"

fun collect :: "('a \<Rightarrow> 'e + 'b) \<Rightarrow> 'a list \<Rightarrow> 'e + 'b list" where
  "collect f [] = Inr []"
| "collect f (x # xs) = and_then (f x) (\<lambda>y. and_then (collect f xs) (\<lambda>ys. Inr (y # ys)))"

lemma collect_cong [fundef_cong]:
  "xs = ys \<Longrightarrow> (\<And>x. x \<in> set ys \<Longrightarrow> f x = g x) \<Longrightarrow> collect f xs = collect g ys"
  by (induction ys arbitrary: xs) auto

lemma each_append: "each f (xs @ ys) s = and_then (each f xs s) (each f ys)"
proof (induction xs arbitrary: s)
  case (Cons x xs)
  then show ?case by (cases "f x s") auto
qed simp

lemma each_inv:
  "(\<And>x s s'. x \<in> set xs \<Longrightarrow> I s \<Longrightarrow> f x s = Inr s' \<Longrightarrow> I s') \<Longrightarrow> I s \<Longrightarrow> each f xs s = Inr s' \<Longrightarrow> I s'"
proof (induction xs arbitrary: s)
  case (Cons x xs)
  then obtain t where t: "f x s = Inr t" "each f xs t = Inr s'" by (cases "f x s") auto
  have "I t" using Cons.prems(1,2) t(1) by auto
  then show ?case using Cons.IH [OF _ _ t(2)] Cons.prems(1) by auto
qed auto

lemma collect_map: "(\<And>x. x \<in> set xs \<Longrightarrow> f x = Inr (g x)) \<Longrightarrow> collect f xs = Inr (map g xs)"
  by (induction xs) auto

section \<open>Lemmas\<close>

lemma runes_plain: "list_all (\<lambda>c. \<not> hi_surr c \<and> \<not> lo_surr c) s \<Longrightarrow> runes s = s"
  by (induction s rule: runes.induct) (auto simp: rune_def)

lemma length_runes: "length (runes s) \<le> length s"
  by (induction s rule: runes.induct) auto

text \<open>Decoding never makes a value heavier than its text, which bounds repeated decoding.\<close>

fun jweight :: "json \<Rightarrow> nat" where
  "jweight (JStr s) = length s + 1"
| "jweight (JArr vs) = Suc (sum_list (map jweight vs))"
| "jweight (JObj ob) = Suc (sum_list (map (\<lambda>(_, v). jweight v) ob))"
| "jweight _ = 1"

abbreviation oweight :: "json jobj \<Rightarrow> nat" where
  "oweight ob \<equiv> sum_list (map (\<lambda>(_, v). jweight v) ob)"

lemma oweight_replace: "oweight (replace_key k v ob) \<le> jweight v + oweight ob"
  by (induction ob) (auto split: prod.split)

lemma oweight_insert: "oweight (insert_index n k v ob) = jweight v + oweight ob"
  by (induction ob) (auto split: prod.split)

lemma oweight_set: "oweight (obj_set k v ob) \<le> jweight v + oweight ob"
  using oweight_replace [of k v ob] oweight_insert [of _ k v ob] by (auto simp: obj_set_def split: option.splits)

lemma p_num_weight: "p_num s = Some (v, r) \<Longrightarrow> jweight v = 1"
proof -
  have e: "p_num_exp neg ip fp x = Some (v, r) \<Longrightarrow> jweight v = 1" for neg ip fp x
    by (cases x) auto
  have f: "p_num_frac neg ip pt x = Some (v, r) \<Longrightarrow> jweight v = 1" for neg ip pt x
    using e by (cases x) (auto split: if_splits)
  have i: "p_num_int neg x = Some (v, r) \<Longrightarrow> jweight v = 1" for neg x
    using f by (cases x) (auto split: if_splits)
  show "p_num s = Some (v, r) \<Longrightarrow> jweight v = 1"
    using i by (auto simp: p_num_def split: if_splits)
qed

lemma p_weight:
  "p_val n s = Some (v, r) \<Longrightarrow> jweight v + length r \<le> length s"
  "p_elems n s = Some (vs, r) \<Longrightarrow> sum_list (map jweight vs) + length r < length s"
  "p_membs n ob s = Some (ob', r) \<Longrightarrow> oweight ob' + length r < oweight ob + length s"
proof (induction n s and n s and n ob s arbitrary: v r and vs r and ob' r rule: p_val_p_elems_p_membs.induct)
  case (2 n s)
  obtain x xs where x: "skip_ws s = x # xs" using "2.prems" by (auto split: list.splits)
  have len: "length xs < length s" using skip_ws_Cons [OF x] .
  have ws: "length (skip_ws xs) \<le> length xs" by (rule length_skip_ws)
  have st: "starts_with u (js w) \<Longrightarrow> length w \<le> length u" for u w
    by (auto simp: starts_with_iff js_def)
  consider (str) "x = 34" | (ob) "x = 123" | (arr) "x = 91" | (rest) "x \<noteq> 34" "x \<noteq> 123" "x \<noteq> 91" by blast
  then show ?case
  proof cases
    case str then show ?thesis using "2.prems" x len by (auto dest!: p_str_lengths)
  next
    case ob
    show ?thesis
    proof (cases "starts_with (skip_ws xs) [125]")
      case True
      then show ?thesis using "2.prems" x len ws ob by auto
    next
      case False
      then obtain ob' where "p_membs n [] xs = Some (ob', r)" "v = JObj ob'" using "2.prems" x ob by auto
      then show ?thesis using "2.IH"(1) [OF x _ ob False] ob len by fastforce
    qed
  next
    case arr
    show ?thesis
    proof (cases "starts_with (skip_ws xs) [93]")
      case True
      then show ?thesis using "2.prems" x len ws arr by auto
    next
      case False
      then obtain vs where "p_elems n xs = Some (vs, r)" "v = JArr vs" using "2.prems" x arr by auto
      then show ?thesis using "2.IH"(2) [OF x _ _ arr False] arr len by fastforce
    qed
  next
    case rest
    then show ?thesis
      using "2.prems" x len p_num_weight [of "x # xs" v r] p_num_shorter [of "x # xs" v r] st [of "x # xs"]
      by (fastforce split: if_splits)
  qed
next
  case (4 n s)
  then obtain v q y ys where q: "p_val n s = Some (v, q)" "skip_ws q = y # ys" by (auto split: option.splits list.splits)
  have "jweight v + length q \<le> length s" using "4.IH"(1) q(1) .
  then show ?case using "4.prems" q "4.IH"(2) [OF q(1) _ q(2)] skip_ws_Cons [OF q(2)] by (fastforce split: if_splits)
next
  case (6 n ob s)
  obtain qs k q cs v q' y ys where h: "skip_ws s = 34 # qs" "p_str qs = Some (k, q)" "skip_ws q = 58 # cs"
      "p_val n cs = Some (v, q')" "skip_ws q' = y # ys"
    using "6.prems" by (auto split: option.splits list.splits if_splits)
  have v: "jweight v + length q' \<le> length cs" using "6.IH"(1) [OF h(1) _ h(2) _ h(3) _ h(4)] h by auto
  have l: "length qs < length s" "length q < length qs" "length cs < length q" "length ys < length q'"
    using skip_ws_Cons [OF h(1)] p_str_shorter [OF h(2)] skip_ws_Cons [OF h(3)] skip_ws_Cons [OF h(5)] by auto
  have "oweight ob' + length r < oweight (obj_set k v ob) + length ys \<or> ob' = obj_set k v ob \<and> r = ys"
    using "6.prems" h "6.IH"(2) [OF h(1) _ h(2) _ h(3) _ h(4) _ h(5)] by (auto split: if_splits)
  then show ?case using v l oweight_set [of k v ob] by auto
qed auto

lemma JSON_parse_weight: "JSON_parse s = Some v \<Longrightarrow> jweight v \<le> length s"
  unfolding JSON_parse_def whole_def using p_weight(1) [of "2 * length s + 1" s v]
  by (auto simp del: p_val.simps split: option.splits if_splits)

lemma oweight_fold: "oweight (fold (\<lambda>(k, v). obj_set k v) xs acc) \<le> oweight xs + oweight acc"
proof (induction xs arbitrary: acc)
  case (Cons x xs)
  obtain k v where x: "x = (k, v)" by (cases x)
  show ?case using Cons [of "obj_set k v acc"] oweight_set [of k v acc] by (simp add: x)
qed simp

lemma jweight_runes: "jweight (json_runes v) \<le> jweight v"
proof (induction v)
  case (JStr s)
  then show ?case using length_runes by simp
next
  case (JArr vs)
  then have "sum_list (map (\<lambda>v. jweight (json_runes v)) vs) \<le> sum_list (map jweight vs)" by (intro sum_list_mono) auto
  then show ?case by (simp add: o_def)
next
  case (JObj ob)
  let ?xs = "map (\<lambda>(k, v). (runes k, json_runes v)) ob"
  have "oweight ?xs = sum_list (map (\<lambda>x. jweight (json_runes (snd x))) ob)" by (simp add: o_def case_prod_beta)
  also have "\<dots> \<le> oweight ob"
    unfolding case_prod_beta using JObj by (intro sum_list_mono) (auto simp: prod_set_simps)
  finally show ?case using oweight_fold [of ?xs "[]"] by simp
qed auto

lemma jweight_drop: "jweight (drop_out_of_range v) = jweight v"
proof (induction v)
  case (JArr vs)
  then have "map (\<lambda>v. jweight (drop_out_of_range v)) vs = map jweight vs" by auto
  then show ?case unfolding drop_out_of_range.simps jweight.simps map_map o_def by (rule arg_cong)
next
  case (JObj ob)
  then have "map (\<lambda>x. jweight (drop_out_of_range (snd x))) ob = map (\<lambda>x. jweight (snd x)) ob"
    by (auto simp: prod_set_simps)
  then have "oweight (map (\<lambda>(k, v). (k, drop_out_of_range v)) ob) = oweight ob"
    unfolding map_map o_def case_prod_beta fst_conv snd_conv by (rule arg_cong)
  then show ?case by (simp only: drop_out_of_range.simps jweight.simps)
qed auto

lemma Unmarshal_weight:
  assumes "Unmarshal s = Inr v"
  shows "jweight v \<le> length s"
proof -
  obtain w where "JSON_parse s = Some w" "v = drop_out_of_range (json_runes w)"
    using assms by (auto simp: Unmarshal_def decode_def split: option.splits if_splits)
  then show ?thesis
    using order_trans [OF jweight_runes JSON_parse_weight] by (simp add: jweight_drop)
qed

end
