(* ===== verification/Override_Parse.thy ===== *)
theory Override_Parse
  imports Go_Values
begin

text \<open>
  The reading side of the server's parameter override (relay/common/override.go): the rules and
  their conditions as decoded JSON, and the values of the rules that carry structured options
  (custom errors, passed headers, header rewrites, synchronised fields, object pruning).

  The libraries gjson and sjson, the case tables of package \<open>unicode\<close>, package \<open>regexp\<close> and the
  order in which a \<open>range\<close> loop visits a map are fields of the environment \<open>go_env\<close>; the
  generic helpers of samber/lo (\<open>Uniq\<close>, \<open>FilterMap\<close>, \<open>EveryBy\<close>, \<open>SomeBy\<close>, \<open>Contains\<close>) are
  read as the list functions of those names.
\<close>

section \<open>The environment\<close>

datatype gjson_type = GNull | GFalse | GNumber | GString | GTrue | GJSON

text \<open>A \<open>gjson.Result\<close> with what its methods return.\<close>

record gjson_result =
  gr_Exists :: bool
  gr_Type :: gjson_type
  gr_Raw :: gstr
  gr_Num :: jsnum
  gr_String :: gstr
  gr_Value :: json
  gr_IsArray :: bool
  gr_Array :: "json list"

record ParamOverrideReturnError =
  er_Message :: gstr
  er_StatusCode :: int
  er_Code :: gstr
  er_Type :: gstr
  er_SkipRetry :: bool

type_synonym ov_error = "ParamOverrideReturnError go_error"

record go_env =
  ge_lower :: "nat \<Rightarrow> nat"
  ge_upper :: "nat \<Rightarrow> nat"
  ge_fold :: "nat \<Rightarrow> nat \<Rightarrow> bool"
  ge_range :: "json jobj \<Rightarrow> json jobj"
  ge_regexp :: "gstr \<Rightarrow> (gstr \<Rightarrow> gstr \<Rightarrow> gstr) option"
  ge_DebugEnabled :: bool
  ge_gjson_Get :: "gstr \<Rightarrow> gstr \<Rightarrow> gjson_result"
  ge_gjson_Parse :: "gstr \<Rightarrow> gjson_result"
  ge_type_name :: "gjson_type \<Rightarrow> gstr"
  ge_sjson_Set :: "gstr \<Rightarrow> gstr \<Rightarrow> json \<Rightarrow> ov_error + gstr"
  ge_sjson_SetRaw :: "gstr \<Rightarrow> gstr \<Rightarrow> gstr \<Rightarrow> ov_error + gstr"
  ge_sjson_Delete :: "gstr \<Rightarrow> gstr \<Rightarrow> ov_error + gstr"

definition ToLower :: "go_env \<Rightarrow> gstr \<Rightarrow> gstr" where
  "ToLower E s = map (ge_lower E) s"

definition ToUpper :: "go_env \<Rightarrow> gstr \<Rightarrow> gstr" where
  "ToUpper E s = map (ge_upper E) s"

definition EqualFold :: "go_env \<Rightarrow> gstr \<Rightarrow> gstr \<Rightarrow> bool" where
  "EqualFold E s t = list_all2 (ge_fold E) s t"

section \<open>Rules\<close>

record ConditionOperation =
  co_Path :: gstr
  co_Mode :: gstr
  co_Value :: json
  co_Invert :: bool
  co_PassMissingKey :: bool

record ParamOperation =
  pa_Path :: gstr
  pa_Mode :: gstr
  pa_Value :: json
  pa_KeepOrigin :: bool
  pa_From :: gstr
  pa_To :: gstr
  pa_Conditions :: "ConditionOperation list"
  pa_Logic :: gstr

text \<open>\<open>m[k].(string)\<close> and \<open>m[k].(bool)\<close>: \<open>None\<close> when the key is missing or of another type.\<close>

definition str_at :: "json jobj \<Rightarrow> string \<Rightarrow> gstr option" where
  "str_at ob k = (case obj_get ob (js k) of Some (JStr s) \<Rightarrow> Some s | _ \<Rightarrow> None)"

definition bool_at :: "json jobj \<Rightarrow> string \<Rightarrow> bool option" where
  "bool_at ob k = (case obj_get ob (js k) of Some (JBool b) \<Rightarrow> Some b | _ \<Rightarrow> None)"

definition or_zero_value :: "'a \<Rightarrow> 'a option \<Rightarrow> 'a" where
  "or_zero_value d x = (case x of Some y \<Rightarrow> y | None \<Rightarrow> d)"

definition full_condition :: "gstr \<Rightarrow> json \<Rightarrow> ConditionOperation" where
  "full_condition path v =
     \<lparr>co_Path = path, co_Mode = js ''full'', co_Value = v, co_Invert = False, co_PassMissingKey = False\<rparr>"

definition entry_condition :: "gstr \<times> json \<Rightarrow> ConditionOperation option" where
  "entry_condition item =
     (let path = TrimSpace (fst item) in if path = [] then None else Some (full_condition path (snd item)))"

definition parse_condition :: "json \<Rightarrow> ov_error + ConditionOperation" where
  "parse_condition item =
     (case item of
        JObj itemMap \<Rightarrow>
          (let path = or_zero_value [] (str_at itemMap ''path''); mode = or_zero_value [] (str_at itemMap ''mode'') in
           if TrimSpace path = [] \<or> TrimSpace mode = [] then Inl (Errorf ''condition path/mode is required'' [])
           else Inr \<lparr>co_Path = path, co_Mode = mode,
             co_Value = or_zero_value JNull (obj_get itemMap (js ''value'')),
             co_Invert = or_zero_value False (bool_at itemMap ''invert''),
             co_PassMissingKey = or_zero_value False (bool_at itemMap ''pass_missing_key'')\<rparr>)
      | _ \<Rightarrow> Inl (Errorf ''condition must be object'' []))"

definition parseConditionOperations :: "go_env \<Rightarrow> json \<Rightarrow> ov_error + ConditionOperation list" where
  "parseConditionOperations E raw =
     (case raw of
        JObj typed \<Rightarrow>
          (let conditions = List.map_filter entry_condition (ge_range E typed) in
           if conditions = [] then Inl (Errorf ''conditions object must contain at least one key'' [])
           else Inr conditions)
      | JArr items \<Rightarrow> collect parse_condition items
      | _ \<Rightarrow> Inl (Errorf ''conditions must be an array or object'' []))"

definition parsed_conditions :: "go_env \<Rightarrow> json jobj \<Rightarrow> ConditionOperation list option" where
  "parsed_conditions E opMap =
     (case obj_get opMap (js ''conditions'') of
        None \<Rightarrow> Some []
      | Some v \<Rightarrow> (case parseConditionOperations E v of Inr cs \<Rightarrow> Some cs | Inl _ \<Rightarrow> None))"

text \<open>One rule; \<open>None\<close> is the early return with \<open>false\<close>.\<close>

definition parse_operation :: "go_env \<Rightarrow> json \<Rightarrow> ParamOperation option" where
  "parse_operation E v =
     (case v of
        JObj opMap \<Rightarrow>
          (case (str_at opMap ''mode'', parsed_conditions E opMap) of
             (Some mode, Some conditions) \<Rightarrow>
               Some \<lparr>pa_Path = or_zero_value [] (str_at opMap ''path''),
                 pa_Mode = mode,
                 pa_Value = or_zero_value JNull (obj_get opMap (js ''value'')),
                 pa_KeepOrigin = or_zero_value False (bool_at opMap ''keep_origin''),
                 pa_From = or_zero_value [] (str_at opMap ''from''),
                 pa_To = or_zero_value [] (str_at opMap ''to''),
                 pa_Conditions = conditions,
                 pa_Logic = or_zero_value (js ''OR'') (str_at opMap ''logic'')\<rparr>
           | _ \<Rightarrow> None)
      | _ \<Rightarrow> None)"

definition tryParseOperations :: "go_env \<Rightarrow> json jobj \<Rightarrow> ParamOperation list option" where
  "tryParseOperations E paramOverride =
     (case obj_get paramOverride (js ''operations'') of
        Some (JArr ops) \<Rightarrow> those (map (parse_operation E) ops)
      | _ \<Rightarrow> None)"

text \<open>
  The stored text of a channel (model/channel.go, \<open>GetParamOverride\<close>).  The error of decoding is
  only logged, so a text with a number out of range is used without that number; \<open>null\<close> gives a
  \<open>nil\<close> map, which counts as empty.
\<close>

definition GetParamOverride :: "gstr option \<Rightarrow> json jobj" where
  "GetParamOverride paramOverride =
     (case paramOverride of
        None \<Rightarrow> []
      | Some s \<Rightarrow> if s = [] then [] else (case decode s of Some (JObj ob, _) \<Rightarrow> ob | _ \<Rightarrow> []))"

section \<open>Custom errors\<close>

text \<open>
  A \<open>float64\<close> that is an integer in the range of \<open>int\<close>.  The conversion of a larger value is
  implementation-specific and does not give the value back.
\<close>

fun float_int :: "jsnum \<Rightarrow> int option" where
  "float_int (Fin m e) =
     (if 0 \<le> e then (let v = m * 2 ^ nat e in if - (2 ^ 63) \<le> v \<and> v < 2 ^ 63 then Some v else None) else None)"
| "float_int _ = None"

definition parseOverrideInt :: "json \<Rightarrow> int option" where
  "parseOverrideInt v = (case v of JNum x \<Rightarrow> float_int x | _ \<Rightarrow> None)"

definition error_base :: ParamOverrideReturnError where
  "error_base = \<lparr>er_Message = [], er_StatusCode = 400, er_Code = js ''invalid_request'',
     er_Type = js ''invalid_request_error'', er_SkipRetry = True\<rparr>"

definition error_message_of :: "json jobj \<Rightarrow> gstr" where
  "error_message_of raw =
     (let m = TrimSpace (or_zero_value [] (str_at raw ''message'')) in
      if m = [] then TrimSpace (or_zero_value [] (str_at raw ''msg'')) else m)"

definition error_code_of :: "json jobj \<Rightarrow> gstr" where
  "error_code_of raw =
     (case obj_get raw (js ''code'') of
        None \<Rightarrow> er_Code error_base
      | Some code \<Rightarrow> (let s = TrimSpace (Sprint code) in if s \<noteq> [] then s else er_Code error_base))"

definition error_type_of :: "json jobj \<Rightarrow> gstr" where
  "error_type_of raw =
     (let s = TrimSpace (or_zero_value [] (str_at raw ''type'')) in if s \<noteq> [] then s else er_Type error_base)"

definition error_status_of :: "json jobj \<Rightarrow> ov_error + int" where
  "error_status_of raw =
     (case obj_get raw (js ''status_code'') of
        Some v \<Rightarrow> (case parseOverrideInt v of
            Some i \<Rightarrow> Inr i | None \<Rightarrow> Inl (Errorf ''return_error status_code must be an integer'' []))
      | None \<Rightarrow> (case obj_get raw (js ''status'') of
            Some v \<Rightarrow> (case parseOverrideInt v of
                Some i \<Rightarrow> Inr i | None \<Rightarrow> Inl (Errorf ''return_error status must be an integer'' []))
          | None \<Rightarrow> Inr (er_StatusCode error_base)))"

definition error_fields :: "json \<Rightarrow> ov_error + ParamOverrideReturnError" where
  "error_fields value =
     (case value of
        JNull \<Rightarrow> Inl (Errorf ''return_error value is required'' [])
      | JStr raw \<Rightarrow> Inr (error_base\<lparr>er_Message := TrimSpace raw\<rparr>)
      | JObj raw \<Rightarrow>
          and_then (error_status_of raw) (\<lambda>status.
            Inr \<lparr>er_Message = error_message_of raw, er_StatusCode = status, er_Code = error_code_of raw,
              er_Type = error_type_of raw, er_SkipRetry = or_zero_value True (bool_at raw ''skip_retry'')\<rparr>)
      | _ \<Rightarrow> Inl (Errorf ''return_error value must be string or object'' []))"

definition parseParamOverrideReturnError :: "json \<Rightarrow> ov_error + ParamOverrideReturnError" where
  "parseParamOverrideReturnError value =
     and_then (error_fields value) (\<lambda>result.
       if er_Message result = [] then Inl (Errorf ''return_error message is required'' [])
       else if er_StatusCode result < 100 \<or> 511 < er_StatusCode result
       then Inl (Errorf ''return_error status code out of range: %d'' [int_str (er_StatusCode result)])
       else Inr result)"

section \<open>Header names and values\<close>

definition normalizeHeaderContextKey :: "go_env \<Rightarrow> gstr \<Rightarrow> gstr" where
  "normalizeHeaderContextKey E key = TrimSpace (ToLower E key)"

definition normalize_names :: "go_env \<Rightarrow> gstr list \<Rightarrow> gstr list" where
  "normalize_names E values = dedup (filter (\<lambda>n. n \<noteq> []) (map (normalizeHeaderContextKey E) values))"

definition valid_names :: "gstr list \<Rightarrow> ov_error + gstr list" where
  "valid_names names = (if names = [] then Inl (Errorf ''pass_headers value is invalid'' []) else Inr names)"

definition names_or_none :: "ov_error + gstr list \<Rightarrow> gstr list" where
  "names_or_none r = (case r of Inr names \<Rightarrow> names | Inl _ \<Rightarrow> [])"

text \<open>A text that starts like an array or an object and decodes.\<close>

definition decoded_text :: "gstr \<Rightarrow> json option" where
  "decoded_text raw =
     (if starts_with raw [91] \<or> starts_with raw [123]
      then (case (Unmarshal raw :: ov_error + json) of Inr v \<Rightarrow> Some v | Inl _ \<Rightarrow> None) else None)"

lemma decoded_text_weight: "decoded_text (TrimSpace s) = Some v \<Longrightarrow> jweight v < Suc (length s)"
  using gtrim.length_strip [of s]
  by (auto simp: decoded_text_def dest!: Unmarshal_weight split: if_splits sum.splits)

lemma jweight_member: "obj_get ob k = Some v \<Longrightarrow> jweight v \<le> oweight ob"
  unfolding obj_get_def by (induction ob) (auto split: if_splits prod.splits)

function parseHeaderPassThroughNames :: "go_env \<Rightarrow> json \<Rightarrow> ov_error + gstr list" where
  "parseHeaderPassThroughNames E value =
     (case value of
        JNull \<Rightarrow> Inl (Errorf ''pass_headers value is required'' [])
      | JStr raw \<Rightarrow>
          (if TrimSpace raw = [] then Inl (Errorf ''pass_headers value is required'' [])
           else (case decoded_text (TrimSpace raw) of
               Some parsed \<Rightarrow> parseHeaderPassThroughNames E parsed
             | None \<Rightarrow> valid_names (normalize_names E (split_char 44 (TrimSpace raw)))))
      | JArr raw \<Rightarrow> valid_names (normalize_names E (map Sprint raw))
      | JObj raw \<Rightarrow>
          (let names_at = (\<lambda>k. case obj_get raw k of
             None \<Rightarrow> [] | Some v \<Rightarrow> names_or_none (parseHeaderPassThroughNames E v)) in
           valid_names (normalize_names E (names_at (js ''headers'') @ names_at (js ''names'') @ names_at (js ''header''))))
      | _ \<Rightarrow> Inl (Errorf ''pass_headers value must be string, array or object'' []))"
  by pat_completeness auto
termination
  using le_imp_less_Suc [OF jweight_member] decoded_text_weight
  by (relation "measure (\<lambda>(E, v). jweight v)") auto

declare parseHeaderPassThroughNames.simps [simp del]

definition splitHeaderListValue :: "gstr \<Rightarrow> gstr list" where
  "splitHeaderListValue raw = filter (\<lambda>t. t \<noteq> []) (map TrimSpace (split_char 44 raw))"

fun parseHeaderReplacementTokens :: "json \<Rightarrow> ov_error + gstr list" where
  "parseHeaderReplacementTokens JNull = Inr []"
| "parseHeaderReplacementTokens (JStr raw) = Inr (splitHeaderListValue raw)"
| "parseHeaderReplacementTokens (JArr raw) =
     map_sum id (\<lambda>tokens. dedup (concat tokens)) (collect parseHeaderReplacementTokens raw)"
| "parseHeaderReplacementTokens (JObj _) = Inl (Errorf ''header replacement value must be string, array or null'' [])"
| "parseHeaderReplacementTokens v = (let token = TrimSpace (Sprint v) in Inr (if token = [] then [] else [token]))"

definition parseHeaderAppendTokens :: "json jobj \<Rightarrow> ov_error + gstr list" where
  "parseHeaderAppendTokens mapping =
     (case obj_get mapping (js ''$append'') of None \<Rightarrow> Inr [] | Some v \<Rightarrow> parseHeaderReplacementTokens v)"

definition parseHeaderKeepOnlyDeclared :: "json jobj \<Rightarrow> bool" where
  "parseHeaderKeepOnlyDeclared mapping = or_zero_value False (bool_at mapping ''$keep_only_declared'')"

section \<open>Synchronised fields\<close>

text \<open>A target is its kind and key.\<close>

type_synonym syncTarget = "gstr \<times> gstr"

definition parseSyncTarget :: "go_env \<Rightarrow> gstr \<Rightarrow> ov_error + syncTarget" where
  "parseSyncTarget E spec =
     (let raw = TrimSpace spec in
      if raw = [] then Inl (Errorf ''sync_fields target is required'' [])
      else (case index_of raw (js '':'') of
          None \<Rightarrow> Inr (js ''json'', raw)
        | Some idx \<Rightarrow>
            (let kind = ToLower E (TrimSpace (take idx raw)); key = TrimSpace (drop (idx + 1) raw) in
             if key = [] then Inl (Errorf ''sync_fields target key is required: %s'' [raw])
             else if kind = js ''json'' \<or> kind = js ''body'' then Inr (js ''json'', key)
             else if kind = js ''header'' then Inr (js ''header'', key)
             else Inl (Errorf ''sync_fields target prefix is invalid: %s'' [raw]))))"

section \<open>Object pruning\<close>

record pruneObjectsOptions =
  pr_conditions :: "ConditionOperation list"
  pr_logic :: gstr
  pr_recursive :: bool

definition where_conditions :: "go_env \<Rightarrow> json jobj \<Rightarrow> ov_error + ConditionOperation list" where
  "where_conditions E raw =
     (case obj_get raw (js ''where'') of
        None \<Rightarrow> Inr []
      | Some (JObj whereMap) \<Rightarrow> Inr (List.map_filter entry_condition (ge_range E whereMap))
      | Some _ \<Rightarrow> Inl (Errorf ''prune_objects where must be object'' []))"

definition prune_options_of :: "go_env \<Rightarrow> json jobj \<Rightarrow> ov_error + pruneObjectsOptions" where
  "prune_options_of E raw =
     and_then (case obj_get raw (js ''conditions'') of None \<Rightarrow> Inr [] | Some v \<Rightarrow> parseConditionOperations E v) (\<lambda>conditions.
     and_then (where_conditions E raw) (\<lambda>wheres.
       Inr \<lparr>pr_conditions = conditions @ wheres @
              (case obj_get raw (js ''type'') of None \<Rightarrow> [] | Some v \<Rightarrow> [full_condition (js ''type'') v]),
            pr_logic = (case str_at raw ''logic'' of
                Some logic \<Rightarrow> if TrimSpace logic \<noteq> [] then logic else js ''AND'' | None \<Rightarrow> js ''AND''),
            pr_recursive = or_zero_value True (bool_at raw ''recursive'')\<rparr>))"

definition parsePruneObjectsOptions :: "go_env \<Rightarrow> json \<Rightarrow> ov_error + pruneObjectsOptions" where
  "parsePruneObjectsOptions E value =
     and_then
       (case value of
          JNull \<Rightarrow> Inl (Errorf ''prune_objects value is required'' [])
        | JStr raw \<Rightarrow>
            (let v = TrimSpace raw in
             if v = [] then Inl (Errorf ''prune_objects value is required'' [])
             else Inr \<lparr>pr_conditions = [full_condition (js ''type'') (JStr v)], pr_logic = js ''AND'', pr_recursive = True\<rparr>)
        | JObj raw \<Rightarrow> prune_options_of E raw
        | _ \<Rightarrow> Inl (Errorf ''prune_objects value must be string or object'' []))
       (\<lambda>opts. if pr_conditions opts = [] then Inl (Errorf ''prune_objects conditions are required'' []) else Inr opts)"

end
