(* ===== verification/Override_Context.thy ===== *)
theory Override_Context
  imports Override_Parse
begin

text \<open>
  The context of a run of override rules (relay/common/override.go): the request's headers and the
  headers to send upstream live in two maps inside one context map, which conditions can read as
  JSON.  Go changes these maps in place; here every function that may change the context returns
  it.  A function with an error result returns the error, or \<open>None\<close>, beside the context, because
  some callers go on after an error.  The context is never \<open>nil\<close> here: \<open>applyOperations\<close> replaces
  \<open>nil\<close> by an empty map before anything else.
\<close>

section \<open>Maps inside the context\<close>

type_synonym ov_context = "json jobj"

definition REQUEST_HEADERS :: gstr where
  "REQUEST_HEADERS = js ''request_headers''"

definition HEADER_OVERRIDE :: gstr where
  "HEADER_OVERRIDE = js ''header_override''"

definition AUDIT_RECORDER :: gstr where
  "AUDIT_RECORDER = js ''__param_override_audit_recorder''"

definition ensureMapKeyInContext :: "ov_context \<Rightarrow> gstr \<Rightarrow> json jobj \<times> ov_context" where
  "ensureMapKeyInContext ctx key =
     (case obj_get ctx key of Some (JObj m) \<Rightarrow> (m, ctx) | _ \<Rightarrow> ([], obj_set key (JObj []) ctx))"

definition filled_header :: "json option \<Rightarrow> gstr option" where
  "filled_header raw =
     (case raw of
        None \<Rightarrow> None
      | Some r \<Rightarrow> (let value = TrimSpace (Sprint r) in if value \<noteq> [] then Some value else None))"

definition getHeaderValueFromContext :: "go_env \<Rightarrow> ov_context \<Rightarrow> gstr \<Rightarrow> gstr option \<times> ov_context" where
  "getHeaderValueFromContext E ctx headerName =
     (let name = normalizeHeaderContextKey E headerName in
      if name = [] then (None, ctx)
      else (case ensureMapKeyInContext ctx HEADER_OVERRIDE of
          (source, ctx1) \<Rightarrow>
            (case filled_header (obj_get source name) of
               Some value \<Rightarrow> (Some value, ctx1)
             | None \<Rightarrow>
                 (case ensureMapKeyInContext ctx1 REQUEST_HEADERS of
                    (source2, ctx2) \<Rightarrow> (filled_header (obj_get source2 name), ctx2)))))"

section \<open>Header values\<close>

text \<open>The tokens that replace one token of the header.\<close>

definition token_replacement :: "json jobj \<Rightarrow> bool \<Rightarrow> gstr \<Rightarrow> ov_error + gstr list" where
  "token_replacement mapping keepOnlyDeclared token =
     (let replacement = (case obj_get mapping token of
            Some v \<Rightarrow> Some v
          | None \<Rightarrow> if \<not> keepOnlyDeclared then obj_get mapping (js ''*'') else None) in
      case replacement of
        Some v \<Rightarrow> parseHeaderReplacementTokens v
      | None \<Rightarrow> Inr (if keepOnlyDeclared then [] else [token]))"

definition header_tokens :: "json jobj \<Rightarrow> gstr list \<Rightarrow> gstr list \<Rightarrow> ov_error + gstr list" where
  "header_tokens mapping appendTokens sourceTokens =
     map_sum id (\<lambda>tokens. dedup (concat tokens @ appendTokens))
       (collect (token_replacement mapping (parseHeaderKeepOnlyDeclared mapping)) sourceTokens)"

text \<open>The new value, \<open>None\<close> when the header is to be removed.\<close>

definition resolveHeaderOverrideValueByMapping ::
  "go_env \<Rightarrow> ov_context \<Rightarrow> gstr \<Rightarrow> json jobj \<Rightarrow> (ov_error + gstr option) \<times> ov_context" where
  "resolveHeaderOverrideValueByMapping E ctx headerName mapping =
     (if mapping = [] then (Inl (Errorf ''header value mapping cannot be empty'' []), ctx)
      else (case parseHeaderAppendTokens mapping of
          Inl e \<Rightarrow> (Inl e, ctx)
        | Inr appendTokens \<Rightarrow>
            (case getHeaderValueFromContext E ctx headerName of
               (source, ctx1) \<Rightarrow>
                 (map_sum id (\<lambda>tokens. if tokens = [] then None else Some (join [44] tokens))
                    (header_tokens mapping appendTokens
                      (case source of Some v \<Rightarrow> splitHeaderListValue v | None \<Rightarrow> [])), ctx1))))"

definition resolveHeaderOverrideValue ::
  "go_env \<Rightarrow> ov_context \<Rightarrow> gstr \<Rightarrow> json \<Rightarrow> (ov_error + gstr option) \<times> ov_context" where
  "resolveHeaderOverrideValue E ctx headerName value =
     (case value of
        JNull \<Rightarrow> (Inl (Errorf ''header value is required'' []), ctx)
      | JObj mapping \<Rightarrow> resolveHeaderOverrideValueByMapping E ctx headerName mapping
      | _ \<Rightarrow> (let s = TrimSpace (Sprint value) in (Inr (if s = [] then None else Some s), ctx)))"

section \<open>Changing the headers to send\<close>

definition header_map :: "ov_context \<Rightarrow> json jobj" where
  "header_map ctx = fst (ensureMapKeyInContext ctx HEADER_OVERRIDE)"

definition set_header_map :: "json jobj \<Rightarrow> ov_context \<Rightarrow> ov_context" where
  "set_header_map m ctx = obj_set HEADER_OVERRIDE (JObj m) ctx"

definition setHeaderOverrideInContext ::
  "go_env \<Rightarrow> ov_context \<Rightarrow> gstr \<Rightarrow> json \<Rightarrow> bool \<Rightarrow> ov_error option \<times> ov_context" where
  "setHeaderOverrideInContext E ctx headerName value keepOrigin =
     (let name = normalizeHeaderContextKey E headerName in
      if name = [] then (Some (Errorf ''header name is required'' []), ctx)
      else (case ensureMapKeyInContext ctx HEADER_OVERRIDE of
          (rawHeaders, ctx1) \<Rightarrow>
            if keepOrigin \<and> filled_header (obj_get rawHeaders name) \<noteq> None then (None, ctx1)
            else (case resolveHeaderOverrideValue E ctx1 name value of
                (Inl e, ctx2) \<Rightarrow> (Some e, ctx2)
              | (Inr None, ctx2) \<Rightarrow> (None, set_header_map (obj_delete name rawHeaders) ctx2)
              | (Inr (Some headerValue), ctx2) \<Rightarrow>
                  (None, set_header_map (obj_set name (JStr headerValue) rawHeaders) ctx2))))"

definition deleteHeaderOverrideInContext :: "go_env \<Rightarrow> ov_context \<Rightarrow> gstr \<Rightarrow> ov_error option \<times> ov_context" where
  "deleteHeaderOverrideInContext E ctx headerName =
     (let name = normalizeHeaderContextKey E headerName in
      if name = [] then (Some (Errorf ''header name is required'' []), ctx)
      else (case ensureMapKeyInContext ctx HEADER_OVERRIDE of
          (rawHeaders, ctx1) \<Rightarrow> (None, set_header_map (obj_delete name rawHeaders) ctx1)))"

definition SOURCE_MISSING :: string where
  "SOURCE_MISSING = ''source header does not exist''"

definition copyHeaderInContext ::
  "go_env \<Rightarrow> ov_context \<Rightarrow> gstr \<Rightarrow> gstr \<Rightarrow> bool \<Rightarrow> ov_error option \<times> ov_context" where
  "copyHeaderInContext E ctx fromHeader toHeader keepOrigin =
     (let from = normalizeHeaderContextKey E fromHeader; to = normalizeHeaderContextKey E toHeader in
      if from = [] \<or> to = [] then (Some (Errorf ''copy_header from/to is required'' []), ctx)
      else (case getHeaderValueFromContext E ctx from of
          (None, ctx1) \<Rightarrow> (Some (Errorw ''%w: %s'' [from] (Sentinel SOURCE_MISSING)), ctx1)
        | (Some value, ctx1) \<Rightarrow> setHeaderOverrideInContext E ctx1 to (JStr value) keepOrigin))"

definition moveHeaderInContext ::
  "go_env \<Rightarrow> ov_context \<Rightarrow> gstr \<Rightarrow> gstr \<Rightarrow> bool \<Rightarrow> ov_error option \<times> ov_context" where
  "moveHeaderInContext E ctx fromHeader toHeader keepOrigin =
     (let from = normalizeHeaderContextKey E fromHeader; to = normalizeHeaderContextKey E toHeader in
      if from = [] \<or> to = [] then (Some (Errorf ''move_header from/to is required'' []), ctx)
      else (case copyHeaderInContext E ctx from to keepOrigin of
          (Some e, ctx1) \<Rightarrow> (Some e, ctx1)
        | (None, ctx1) \<Rightarrow>
            if EqualFold E from to then (None, ctx1) else deleteHeaderOverrideInContext E ctx1 from))"

text \<open>The loop of \<open>pass_headers\<close>: a header the request does not have is skipped.\<close>

definition source_missing :: "ov_error option \<Rightarrow> bool" where
  "source_missing e = (case e of Some err \<Rightarrow> errors_Is err SOURCE_MISSING | None \<Rightarrow> False)"

fun pass_header_names :: "go_env \<Rightarrow> bool \<Rightarrow> gstr list \<Rightarrow> ov_context \<Rightarrow> ov_error option \<times> ov_context" where
  "pass_header_names E keepOrigin [] ctx = (None, ctx)"
| "pass_header_names E keepOrigin (h # hs) ctx =
     (case copyHeaderInContext E ctx h h keepOrigin of
        (e, ctx1) \<Rightarrow> if e \<noteq> None \<and> \<not> source_missing e then (e, ctx1) else pass_header_names E keepOrigin hs ctx1)"

section \<open>Building the context\<close>

definition isHeaderPassthroughRuleKeyForOverride :: "go_env \<Rightarrow> gstr \<Rightarrow> bool" where
  "isHeaderPassthroughRuleKeyForOverride E rawKey =
     (let key = TrimSpace (ToLower E rawKey) in
      key \<noteq> [] \<and> (key = js ''*'' \<or> starts_with key (js ''re:'') \<or> starts_with key (js ''regex:'')))"

definition sanitize_entry :: "go_env \<Rightarrow> gstr \<times> json \<Rightarrow> json jobj \<Rightarrow> json jobj" where
  "sanitize_entry E e target =
     (let key = normalizeHeaderContextKey E (fst e); value = TrimSpace (Sprint (snd e)) in
      if key = [] then target
      else if value = [] then (if isHeaderPassthroughRuleKeyForOverride E key then obj_set key (JStr []) target else target)
      else obj_set key (JStr value) target)"

definition sanitizeHeaderOverrideMap :: "go_env \<Rightarrow> json jobj \<Rightarrow> json jobj" where
  "sanitizeHeaderOverrideMap E source = fold (sanitize_entry E) (ge_range E source) []"

text \<open>The headers of the request, a \<open>map[string]string\<close>, as a map of string values.\<close>

definition request_header_entry :: "go_env \<Rightarrow> gstr \<times> json \<Rightarrow> (gstr \<times> json) option" where
  "request_header_entry E item =
     (let name = normalizeHeaderContextKey E (fst item); value = TrimSpace (Sprint (snd item)) in
      if name = [] \<or> value = [] then None else Some (name, JStr value))"

definition buildRequestHeadersContext :: "go_env \<Rightarrow> (gstr \<times> gstr) list \<Rightarrow> json jobj" where
  "buildRequestHeadersContext E headers =
     fold (\<lambda>(k, v). obj_set k v)
       (List.map_filter (request_header_entry E) (ge_range E (map (\<lambda>(k, v). (k, JStr v)) headers))) []"

text \<open>
  The fields of \<open>RelayInfo\<close> and \<open>ChannelMeta\<close> that overrides use.  The last error is what its
  methods \<open>GetErrorCode\<close>, \<open>GetErrorType\<close> and \<open>Error\<close> and the retry flag give.
\<close>

record last_error =
  le_StatusCode :: int
  le_Message :: gstr
  le_Code :: gstr
  le_Type :: gstr
  le_SkipRetry :: bool

record ChannelMeta =
  cm_ParamOverride :: "json jobj"
  cm_HeadersOverride :: "json jobj"
  cm_UpstreamModelName :: gstr

record RelayInfo =
  ri_ChannelMeta :: "ChannelMeta option"
  ri_OriginModelName :: gstr
  ri_RequestURLPath :: gstr
  ri_RequestHeaders :: "(gstr \<times> gstr) list"
  ri_RetryIndex :: int
  ri_LastError :: "last_error option"
  ri_IsChannelTest :: bool
  ri_RuntimeHeadersOverride :: "json jobj"
  ri_UseRuntimeHeadersOverride :: bool
  ri_ParamOverrideAudit :: "gstr list"

definition getParamOverrideMap :: "RelayInfo \<Rightarrow> json jobj" where
  "getParamOverrideMap info = (case ri_ChannelMeta info of None \<Rightarrow> [] | Some m \<Rightarrow> cm_ParamOverride m)"

definition getHeaderOverrideMap :: "RelayInfo \<Rightarrow> json jobj" where
  "getHeaderOverrideMap info = (case ri_ChannelMeta info of None \<Rightarrow> [] | Some m \<Rightarrow> cm_HeadersOverride m)"

definition GetEffectiveHeaderOverride :: "go_env \<Rightarrow> RelayInfo \<Rightarrow> json jobj" where
  "GetEffectiveHeaderOverride E info =
     sanitizeHeaderOverrideMap E
       (if ri_UseRuntimeHeadersOverride info then ri_RuntimeHeadersOverride info else getHeaderOverrideMap info)"

definition num_of_int :: "int \<Rightarrow> json" where
  "num_of_int i = JNum (to_double i 1)"

definition model_context :: "RelayInfo \<Rightarrow> ov_context" where
  "model_context info =
     (let upstream = (case ri_ChannelMeta info of None \<Rightarrow> [] | Some m \<Rightarrow> cm_UpstreamModelName m);
          ctx = (if upstream \<noteq> [] then [(js ''model'', JStr upstream), (js ''upstream_model'', JStr upstream)] else []) in
      if ri_OriginModelName info \<noteq> [] then
        (let ctx1 = obj_set (js ''original_model'') (JStr (ri_OriginModelName info)) ctx in
         if obj_has (js ''model'') ctx1 then ctx1 else obj_set (js ''model'') (JStr (ri_OriginModelName info)) ctx1)
      else ctx)"

definition last_error_context :: "last_error \<Rightarrow> ov_context \<Rightarrow> ov_context" where
  "last_error_context err ctx =
     obj_set (js ''last_error_type'') (JStr (le_Type err))
      (obj_set (js ''last_error_code'') (JStr (le_Code err))
       (obj_set (js ''last_error_message'') (JStr (le_Message err))
        (obj_set (js ''last_error_status_code'') (num_of_int (le_StatusCode err))
         (obj_set (js ''last_error'')
           (JObj [(js ''status_code'', num_of_int (le_StatusCode err)), (js ''message'', JStr (le_Message err)),
              (js ''code'', JStr (le_Code err)), (js ''error_code'', JStr (le_Code err)),
              (js ''type'', JStr (le_Type err)), (js ''error_type'', JStr (le_Type err)),
              (js ''skip_retry'', JBool (le_SkipRetry err))]) ctx))))"

definition BuildParamOverrideContext :: "go_env \<Rightarrow> RelayInfo \<Rightarrow> ov_context" where
  "BuildParamOverrideContext E info =
     (let ctx = model_context info;
          ctx1 = (if ri_RequestURLPath info \<noteq> [] then obj_set (js ''request_path'') (JStr (ri_RequestURLPath info)) ctx else ctx);
          ctx2 = obj_set REQUEST_HEADERS (JObj (buildRequestHeadersContext E (ri_RequestHeaders info))) ctx1;
          ctx3 = obj_set HEADER_OVERRIDE (JObj (sanitizeHeaderOverrideMap E (GetEffectiveHeaderOverride E info))) ctx2;
          ctx4 = obj_set (js ''retry'') (JObj [(js ''index'', num_of_int (ri_RetryIndex info)),
                   (js ''is_retry'', JBool (0 < ri_RetryIndex info))])
                  (obj_set (js ''is_retry'') (JBool (0 < ri_RetryIndex info))
                   (obj_set (js ''retry_index'') (num_of_int (ri_RetryIndex info)) ctx3));
          ctx5 = (case ri_LastError info of None \<Rightarrow> ctx4 | Some err \<Rightarrow> last_error_context err ctx4) in
      obj_set (js ''is_channel_test'') (JBool (ri_IsChannelTest info)) ctx5)"

definition syncRuntimeHeaderOverrideFromContext :: "go_env \<Rightarrow> ov_context \<Rightarrow> RelayInfo \<Rightarrow> RelayInfo" where
  "syncRuntimeHeaderOverrideFromContext E ctx info =
     (case obj_get ctx HEADER_OVERRIDE of
        Some (JObj m) \<Rightarrow> info\<lparr>ri_RuntimeHeadersOverride := sanitizeHeaderOverrideMap E m, ri_UseRuntimeHeadersOverride := True\<rparr>
      | _ \<Rightarrow> info)"

text \<open>An empty context is not marshalled.\<close>

definition marshalContextJSON :: "ov_context \<Rightarrow> ov_error + gstr" where
  "marshalContextJSON ctx = (if ctx = [] then Inr [] else Marshal (JObj ctx))"

end
