(* ===== verification/Override_Body.thy ===== *)
theory Override_Body
  imports Override_Context
begin

text \<open>
  What the server's override rules do to the request body (relay/common/override.go): conditions,
  paths with negative indices and wildcards, and one function per kind of change.  The body is
  JSON text, read with gjson and changed with sjson, both from the environment.
\<close>

section \<open>Conditions\<close>

definition compareEqual :: "go_env \<Rightarrow> gjson_result \<Rightarrow> gjson_result \<Rightarrow> ov_error + bool" where
  "compareEqual E jsonValue targetValue =
     (let a = gr_Type jsonValue; b = gr_Type targetValue in
      if a = GNull \<or> b = GNull then Inr (a = GNull \<and> b = GNull)
      else if (a = GTrue \<or> a = GFalse) \<and> (b = GTrue \<or> b = GFalse) then Inr (a = b)
      else if a \<noteq> b then Inl (Errorf ''compare for different types, got %v and %v'' [ge_type_name E a, ge_type_name E b])
      else if a = GNumber then Inr (gr_Num jsonValue = gr_Num targetValue)
      else Inr (gr_String jsonValue = gr_String targetValue))"

definition compareNumeric :: "go_env \<Rightarrow> gjson_result \<Rightarrow> gjson_result \<Rightarrow> string \<Rightarrow> ov_error + bool" where
  "compareNumeric E jsonValue targetValue operator =
     (if gr_Type jsonValue \<noteq> GNumber \<or> gr_Type targetValue \<noteq> GNumber
      then Inl (Errorf ''numeric comparison requires both values to be numbers, got %v and %v''
             [ge_type_name E (gr_Type jsonValue), ge_type_name E (gr_Type targetValue)])
      else (let x = gr_Num jsonValue; y = gr_Num targetValue in
        if operator = ''gt'' then Inr (num_less y x)
        else if operator = ''gte'' then Inr (num_less y x \<or> x = y)
        else if operator = ''lt'' then Inr (num_less x y)
        else if operator = ''lte'' then Inr (num_less x y \<or> x = y)
        else Inl (Errorf ''unsupported numeric operator: %s'' [js operator])))"

definition compareGjsonValues :: "go_env \<Rightarrow> gjson_result \<Rightarrow> gjson_result \<Rightarrow> gstr \<Rightarrow> ov_error + bool" where
  "compareGjsonValues E jsonValue targetValue mode =
     (if mode = js ''full'' then compareEqual E jsonValue targetValue
      else if mode = js ''prefix'' then Inr (starts_with (gr_String jsonValue) (gr_String targetValue))
      else if mode = js ''suffix'' then Inr (ends_with (gr_String jsonValue) (gr_String targetValue))
      else if mode = js ''contains'' then Inr (str_includes (gr_String jsonValue) (gr_String targetValue))
      else if mode = js ''gt'' then compareNumeric E jsonValue targetValue ''gt''
      else if mode = js ''gte'' then compareNumeric E jsonValue targetValue ''gte''
      else if mode = js ''lt'' then compareNumeric E jsonValue targetValue ''lt''
      else if mode = js ''lte'' then compareNumeric E jsonValue targetValue ''lte''
      else Inl (Errorf ''unsupported comparison mode: %s'' [mode]))"

text \<open>
  The matches of the expression \<open>\.(-\d+)\<close>, each the text of its group.  \<open>strconv.Atoi\<close> returns
  the least \<open>int\<close> beside the range error for a number below it.
\<close>

function neg_matches :: "gstr \<Rightarrow> gstr list" where
  "neg_matches (x # y # d # xs) =
     (if x = 46 \<and> y = 45 \<and> is_digit d
      then (45 # takeWhile is_digit (d # xs)) # neg_matches (dropWhile is_digit (d # xs))
      else neg_matches (y # d # xs))"
| "neg_matches [] = []"
| "neg_matches [x] = []"
| "neg_matches [x, y] = []"
  by pat_completeness auto
termination
  by (relation "measure length") (auto intro!: le_imp_less_Suc simp: length_dropWhile_le le_SucI)

definition neg_index :: "gstr \<Rightarrow> int" where
  "neg_index t = max (- (2 ^ 63)) (- int (digits_val (drop 1 t)))"

definition array_path :: "gstr \<Rightarrow> gstr \<Rightarrow> gstr" where
  "array_path path negIndex =
     (let p = split_head path negIndex in if ends_with p (js ''.'') then butlast p else p)"

definition resolve_index :: "go_env \<Rightarrow> gstr \<Rightarrow> gstr \<Rightarrow> gstr \<Rightarrow> gstr \<Rightarrow> gstr" where
  "resolve_index E jsonStr path negIndex result =
     (let arr = ge_gjson_Get E jsonStr (array_path path negIndex) in
      if gr_IsArray arr then
        (let len = int (length (gr_Array arr)); actualIndex = len + neg_index negIndex in
         if 0 \<le> actualIndex \<and> actualIndex < len
         then replace_first result (js ''.'' @ negIndex) (js ''.'' @ int_str actualIndex) else result)
      else result)"

definition processNegativeIndex :: "go_env \<Rightarrow> gstr \<Rightarrow> gstr \<Rightarrow> gstr" where
  "processNegativeIndex E jsonStr path = fold (resolve_index E jsonStr path) (neg_matches path) path"

definition condition_value :: "go_env \<Rightarrow> gstr \<Rightarrow> gstr \<Rightarrow> gstr \<Rightarrow> gjson_result" where
  "condition_value E jsonStr contextJSON path =
     (let value = ge_gjson_Get E jsonStr (processNegativeIndex E jsonStr path) in
      if \<not> gr_Exists value \<and> contextJSON \<noteq> [] then ge_gjson_Get E contextJSON path else value)"

definition inverted :: "bool \<Rightarrow> bool \<Rightarrow> bool" where
  "inverted invert b = (if invert then \<not> b else b)"

definition checkSingleCondition :: "go_env \<Rightarrow> gstr \<Rightarrow> gstr \<Rightarrow> ConditionOperation \<Rightarrow> ov_error + bool" where
  "checkSingleCondition E jsonStr contextJSON condition =
     (let value = condition_value E jsonStr contextJSON (co_Path condition) in
      if \<not> gr_Exists value then Inr (co_PassMissingKey condition)
      else (case (Marshal (co_Value condition) :: ov_error + gstr) of
          Inl err \<Rightarrow> Inl (Errorv ''failed to marshal condition value: %v'' [] err)
        | Inr targetBytes \<Rightarrow>
            (case compareGjsonValues E value (ge_gjson_Parse E targetBytes) (ToLower E (co_Mode condition)) of
               Inl err \<Rightarrow> Inl (Errorv ''comparison failed for path %s: %v'' [co_Path condition] err)
             | Inr result \<Rightarrow> Inr (inverted (co_Invert condition) result))))"

definition checkConditions :: "go_env \<Rightarrow> gstr \<Rightarrow> gstr \<Rightarrow> ConditionOperation list \<Rightarrow> gstr \<Rightarrow> ov_error + bool" where
  "checkConditions E jsonStr contextJSON conditions logic =
     (if conditions = [] then Inr True
      else and_then (collect (checkSingleCondition E jsonStr contextJSON) conditions) (\<lambda>results.
        Inr (if ToUpper E logic = js ''AND'' then list_all id results else list_ex id results)))"

section \<open>Paths\<close>

definition PATH_MODES :: "gstr list" where
  "PATH_MODES =
     map js [''delete'', ''set'', ''prepend'', ''append'', ''trim_prefix'', ''trim_suffix'', ''ensure_prefix'',
       ''ensure_suffix'', ''trim_space'', ''to_lower'', ''to_upper'', ''replace'', ''regex_replace'', ''prune_objects'']"

definition isPathBasedOperation :: "gstr \<Rightarrow> bool" where
  "isPathBasedOperation mode \<longleftrightarrow> mode \<in> set PATH_MODES"

text \<open>\<open>strconv.Atoi\<close>; \<open>None\<close> is an error.\<close>

definition Atoi :: "gstr \<Rightarrow> int option" where
  "Atoi s =
     (let neg = starts_with s [45]; ds = (if neg \<or> starts_with s [43] then drop 1 s else s);
          v = (if neg then - int (digits_val ds) else int (digits_val ds)) in
      if ds \<noteq> [] \<and> list_all is_digit ds \<and> - (2 ^ 63) \<le> v \<and> v < 2 ^ 63 then Some v else None)"

fun collectWildcardPaths :: "json \<Rightarrow> gstr list \<Rightarrow> gstr list \<Rightarrow> gstr list" where
  "collectWildcardPaths node [] prefix = [join [46] prefix]"
| "collectWildcardPaths node (s # rest) prefix =
     (let segment = TrimSpace s in
      if segment = [] then []
      else if segment = js ''*'' then
        (case node of
           JObj typed \<Rightarrow>
             concat (map (\<lambda>key. case obj_get typed key of
                 Some v \<Rightarrow> collectWildcardPaths v rest (prefix @ [key]) | None \<Rightarrow> []) (sort (obj_keys typed)))
         | JArr typed \<Rightarrow>
             concat (map (\<lambda>i. collectWildcardPaths (typed ! i) rest (prefix @ [nat_str i])) [0..<length typed])
         | _ \<Rightarrow> [])
      else
        (case node of
           JObj typed \<Rightarrow>
             if rest = [] then [join [46] (prefix @ [segment])]
             else (case obj_get typed segment of None \<Rightarrow> [] | Some v \<Rightarrow> collectWildcardPaths v rest (prefix @ [segment]))
         | JArr typed \<Rightarrow>
             (case Atoi segment of
                None \<Rightarrow> []
              | Some i \<Rightarrow>
                  if i < 0 \<or> int (length typed) \<le> i then []
                  else if rest = [] then [join [46] (prefix @ [segment])]
                  else collectWildcardPaths (typed ! nat i) rest (prefix @ [segment]))
         | _ \<Rightarrow> []))"

definition expandWildcardPaths :: "gstr \<Rightarrow> gstr \<Rightarrow> ov_error + gstr list" where
  "expandWildcardPaths jsonStr path =
     map_sum id (\<lambda>root. dedup (collectWildcardPaths root (split_char 46 path) [])) (Unmarshal jsonStr)"

definition resolveOperationPaths :: "gstr \<Rightarrow> gstr \<Rightarrow> ov_error + gstr list" where
  "resolveOperationPaths jsonStr path =
     (if \<not> str_includes path (js ''*'') then Inr [path] else expandWildcardPaths jsonStr path)"

section \<open>Changes of the body\<close>

definition unsupported_type :: "go_env \<Rightarrow> gjson_result \<Rightarrow> ov_error + 'b" where
  "unsupported_type E current = Inl (Errorf ''operation not supported for type: %v'' [ge_type_name E (gr_Type current)])"

definition copyValue :: "go_env \<Rightarrow> gstr \<Rightarrow> gstr \<Rightarrow> gstr \<Rightarrow> ov_error + gstr" where
  "copyValue E jsonStr fromPath toPath =
     (let sourceValue = ge_gjson_Get E jsonStr fromPath in
      if \<not> gr_Exists sourceValue then Inl (Errorf ''source path does not exist: %s'' [fromPath])
      else ge_sjson_Set E jsonStr toPath (gr_Value sourceValue))"

definition moveValue :: "go_env \<Rightarrow> gstr \<Rightarrow> gstr \<Rightarrow> gstr \<Rightarrow> ov_error + gstr" where
  "moveValue E jsonStr fromPath toPath =
     (let sourceValue = ge_gjson_Get E jsonStr fromPath in
      if \<not> gr_Exists sourceValue then Inl (Errorf ''source path does not exist: %s'' [fromPath])
      else and_then (ge_sjson_Set E jsonStr toPath (gr_Value sourceValue)) (\<lambda>result. ge_sjson_Delete E result fromPath))"

definition deleteValue :: "go_env \<Rightarrow> gstr \<Rightarrow> gstr \<Rightarrow> ov_error + gstr" where
  "deleteValue E jsonStr path = (if TrimSpace path = [] then Inr jsonStr else ge_sjson_Delete E jsonStr path)"

text \<open>A slice that nothing was appended to is still \<open>nil\<close>, which marshals as \<open>null\<close>.\<close>

definition slice_value :: "json list \<Rightarrow> json" where
  "slice_value vs = (if vs = [] then JNull else JArr vs)"

definition modifyArray :: "go_env \<Rightarrow> gstr \<Rightarrow> gstr \<Rightarrow> json \<Rightarrow> bool \<Rightarrow> ov_error + gstr" where
  "modifyArray E jsonStr path value isPrepend =
     (let original = gr_Array (ge_gjson_Get E jsonStr path);
          added = (case value of JArr arr \<Rightarrow> arr | _ \<Rightarrow> [value]) in
      ge_sjson_Set E jsonStr path (slice_value (if isPrepend then added @ original else original @ added)))"

definition modifyString :: "go_env \<Rightarrow> gstr \<Rightarrow> gstr \<Rightarrow> json \<Rightarrow> bool \<Rightarrow> ov_error + gstr" where
  "modifyString E jsonStr path value isPrepend =
     (let current = gr_String (ge_gjson_Get E jsonStr path) in
      ge_sjson_Set E jsonStr path (JStr (if isPrepend then Sprint value @ current else current @ Sprint value)))"

definition merged_value :: "bool \<Rightarrow> gstr \<times> json \<Rightarrow> json jobj \<Rightarrow> json jobj" where
  "merged_value keepOrigin e result =
     (if \<not> keepOrigin \<or> obj_get result (fst e) = None \<or> obj_get result (fst e) = Some JNull
      then obj_set (fst e) (snd e) result else result)"

definition merge_maps :: "bool \<Rightarrow> json jobj \<Rightarrow> json jobj \<Rightarrow> json jobj" where
  "merge_maps keepOrigin currentMap newMap = fold (merged_value keepOrigin) newMap currentMap"

definition new_map :: "json \<Rightarrow> ov_error + json jobj option" where
  "new_map value =
     (case value of
        JObj v \<Rightarrow> Inr (Some v)
      | _ \<Rightarrow> Unmarshal_map (case (Marshal value :: ov_error + gstr) of Inr t \<Rightarrow> t | Inl _ \<Rightarrow> []))"

definition mergeObjects :: "go_env \<Rightarrow> gstr \<Rightarrow> gstr \<Rightarrow> json \<Rightarrow> bool \<Rightarrow> ov_error + gstr" where
  "mergeObjects E jsonStr path value keepOrigin =
     and_then (Unmarshal_map (gr_Raw (ge_gjson_Get E jsonStr path))) (\<lambda>currentMap.
     and_then (new_map value) (\<lambda>newMap.
       ge_sjson_Set E jsonStr path
         (JObj (merge_maps keepOrigin (or_zero_value [] currentMap) (or_zero_value [] newMap)))))"

definition modifyValue :: "go_env \<Rightarrow> gstr \<Rightarrow> gstr \<Rightarrow> json \<Rightarrow> bool \<Rightarrow> bool \<Rightarrow> ov_error + gstr" where
  "modifyValue E jsonStr path value keepOrigin isPrepend =
     (let current = ge_gjson_Get E jsonStr path in
      if gr_IsArray current then modifyArray E jsonStr path value isPrepend
      else if gr_Type current = GString then modifyString E jsonStr path value isPrepend
      else if gr_Type current = GJSON then mergeObjects E jsonStr path value keepOrigin
      else unsupported_type E current)"

definition trimStringValue :: "go_env \<Rightarrow> gstr \<Rightarrow> gstr \<Rightarrow> json \<Rightarrow> bool \<Rightarrow> ov_error + gstr" where
  "trimStringValue E jsonStr path value isPrefix =
     (let current = ge_gjson_Get E jsonStr path in
      if gr_Type current \<noteq> GString then unsupported_type E current
      else if value = JNull then Inl (Errorf ''trim value is required'' [])
      else ge_sjson_Set E jsonStr path
        (JStr (if isPrefix then TrimPrefix (gr_String current) (Sprint value) else TrimSuffix (gr_String current) (Sprint value))))"

definition ensureStringAffix :: "go_env \<Rightarrow> gstr \<Rightarrow> gstr \<Rightarrow> json \<Rightarrow> bool \<Rightarrow> ov_error + gstr" where
  "ensureStringAffix E jsonStr path value isPrefix =
     (let current = ge_gjson_Get E jsonStr path; currentStr = gr_String current; valueStr = Sprint value in
      if gr_Type current \<noteq> GString then unsupported_type E current
      else if value = JNull \<or> valueStr = [] then Inl (Errorf ''ensure value is required'' [])
      else if isPrefix then
        (if starts_with currentStr valueStr then Inr jsonStr else ge_sjson_Set E jsonStr path (JStr (valueStr @ currentStr)))
      else if ends_with currentStr valueStr then Inr jsonStr
      else ge_sjson_Set E jsonStr path (JStr (currentStr @ valueStr)))"

definition transformStringValue :: "go_env \<Rightarrow> gstr \<Rightarrow> gstr \<Rightarrow> (gstr \<Rightarrow> gstr) \<Rightarrow> ov_error + gstr" where
  "transformStringValue E jsonStr path transform =
     (let current = ge_gjson_Get E jsonStr path in
      if gr_Type current \<noteq> GString then unsupported_type E current
      else ge_sjson_Set E jsonStr path (JStr (transform (gr_String current))))"

definition replaceStringValue :: "go_env \<Rightarrow> gstr \<Rightarrow> gstr \<Rightarrow> gstr \<Rightarrow> gstr \<Rightarrow> ov_error + gstr" where
  "replaceStringValue E jsonStr path from to =
     (let current = ge_gjson_Get E jsonStr path in
      if gr_Type current \<noteq> GString then unsupported_type E current
      else if from = [] then Inl (Errorf ''replace from is required'' [])
      else ge_sjson_Set E jsonStr path (JStr (ReplaceAll (gr_String current) from to)))"

definition regexReplaceStringValue :: "go_env \<Rightarrow> gstr \<Rightarrow> gstr \<Rightarrow> gstr \<Rightarrow> gstr \<Rightarrow> ov_error + gstr" where
  "regexReplaceStringValue E jsonStr path pattern replacement =
     (let current = ge_gjson_Get E jsonStr path in
      if gr_Type current \<noteq> GString then unsupported_type E current
      else if pattern = [] then Inl (Errorf ''regex pattern is required'' [])
      else (case ge_regexp E pattern of
          None \<Rightarrow> Inl (LibraryError pattern)
        | Some re \<Rightarrow> ge_sjson_Set E jsonStr path (JStr (re (gr_String current) replacement))))"

section \<open>Object pruning\<close>

definition shouldPruneObject :: "go_env \<Rightarrow> json jobj \<Rightarrow> pruneObjectsOptions \<Rightarrow> gstr \<Rightarrow> ov_error + bool" where
  "shouldPruneObject E node options contextJSON =
     and_then (Marshal (JObj node)) (\<lambda>nodeText. checkConditions E nodeText contextJSON (pr_conditions options) (pr_logic options))"

text \<open>
  The loop over the members of an object ends with the error of the first member, in the order
  \<open>keys\<close> of the loop, that has one; otherwise dropped members are deleted and the others replaced.
\<close>

definition member_error :: "(gstr \<times> (ov_error + json option)) list \<Rightarrow> gstr \<Rightarrow> ov_error + unit" where
  "member_error results key = (case map_of results key of Some (Inl e) \<Rightarrow> Inl e | _ \<Rightarrow> Inr ())"

definition kept_member :: "gstr \<times> (ov_error + json option) \<Rightarrow> (gstr \<times> json) option" where
  "kept_member r = (case snd r of Inr (Some v) \<Rightarrow> Some (fst r, v) | _ \<Rightarrow> None)"

definition members_result :: "gstr list \<Rightarrow> (gstr \<times> (ov_error + json option)) list \<Rightarrow> ov_error + json jobj" where
  "members_result keys results =
     and_then (collect (member_error results) keys) (\<lambda>_. Inr (List.map_filter kept_member results))"

text \<open>\<open>None\<close> is a dropped node.\<close>

fun pruneObjectsNode :: "go_env \<Rightarrow> pruneObjectsOptions \<Rightarrow> gstr \<Rightarrow> bool \<Rightarrow> json \<Rightarrow> ov_error + json option" where
  "pruneObjectsNode E options contextJSON isRoot (JArr vs) =
     and_then (collect (pruneObjectsNode E options contextJSON False) vs) (\<lambda>results.
       Inr (Some (JArr (List.map_filter id results))))"
| "pruneObjectsNode E options contextJSON isRoot (JObj ob) =
     and_then (shouldPruneObject E ob options contextJSON) (\<lambda>shouldDrop.
       if shouldDrop \<and> \<not> isRoot then Inr None
       else if \<not> pr_recursive options then Inr (Some (JObj ob))
       else and_then
         (members_result (obj_keys (ge_range E ob))
           (map (\<lambda>(k, v). (k, pruneObjectsNode E options contextJSON False v)) ob))
         (\<lambda>members. Inr (Some (JObj members))))"
| "pruneObjectsNode E options contextJSON isRoot v = Inr (Some v)"

definition cleaned_text :: "go_env \<Rightarrow> pruneObjectsOptions \<Rightarrow> gstr \<Rightarrow> json \<Rightarrow> ov_error + gstr" where
  "cleaned_text E options contextJSON root =
     and_then (pruneObjectsNode E options contextJSON True root) (\<lambda>cleaned. Marshal (or_zero_value JNull cleaned))"

definition pruneObjects :: "go_env \<Rightarrow> gstr \<Rightarrow> gstr \<Rightarrow> gstr \<Rightarrow> json \<Rightarrow> ov_error + gstr" where
  "pruneObjects E jsonStr path contextJSON value =
     and_then (parsePruneObjectsOptions E value) (\<lambda>options.
       if path = [] then and_then (Unmarshal jsonStr) (cleaned_text E options contextJSON)
       else (let target = ge_gjson_Get E jsonStr path in
         if \<not> gr_Exists target then Inr jsonStr
         else and_then (if gr_Type target = GJSON then Unmarshal (gr_Raw target) else Inr (gr_Value target)) (\<lambda>targetNode.
           and_then (cleaned_text E options contextJSON targetNode) (\<lambda>t. ge_sjson_SetRaw E jsonStr path t))))"

section \<open>Synchronised fields\<close>

definition readSyncTargetValue ::
  "go_env \<Rightarrow> gstr \<Rightarrow> ov_context \<Rightarrow> syncTarget \<Rightarrow> (ov_error + json option) \<times> ov_context" where
  "readSyncTargetValue E jsonStr ctx target =
     (if fst target = js ''json'' then
        (let value = ge_gjson_Get E jsonStr (processNegativeIndex E jsonStr (snd target)) in
         (Inr (if \<not> gr_Exists value \<or> gr_Type value = GNull then None
               else if gr_Type value = GString \<and> TrimSpace (gr_String value) = [] then None
               else Some (gr_Value value)), ctx))
      else if fst target = js ''header'' then
        (case getHeaderValueFromContext E ctx (snd target) of
           (value, ctx1) \<Rightarrow> (Inr (case value of Some v \<Rightarrow> if TrimSpace v = [] then None else Some (JStr v) | None \<Rightarrow> None), ctx1))
      else (Inl (Errorf ''unsupported sync_fields target kind: %s'' [fst target]), ctx))"

definition writeSyncTargetValue ::
  "go_env \<Rightarrow> gstr \<Rightarrow> ov_context \<Rightarrow> syncTarget \<Rightarrow> json \<Rightarrow> (ov_error + gstr) \<times> ov_context" where
  "writeSyncTargetValue E jsonStr ctx target value =
     (if fst target = js ''json'' then
        (ge_sjson_Set E jsonStr (processNegativeIndex E jsonStr (snd target)) value, ctx)
      else if fst target = js ''header'' then
        (case setHeaderOverrideInContext E ctx (snd target) value False of
           (Some e, ctx1) \<Rightarrow> (Inl e, ctx1)
         | (None, ctx1) \<Rightarrow> (Inr jsonStr, ctx1))
      else (Inl (Errorf ''unsupported sync_fields target kind: %s'' [fst target]), ctx))"

definition sync_values ::
  "go_env \<Rightarrow> gstr \<Rightarrow> ov_context \<Rightarrow> syncTarget \<Rightarrow> syncTarget \<Rightarrow> (ov_error + gstr) \<times> ov_context" where
  "sync_values E jsonStr ctx fromTarget toTarget =
     (case readSyncTargetValue E jsonStr ctx fromTarget of
        (Inl e, ctx1) \<Rightarrow> (Inl e, ctx1)
      | (Inr fromValue, ctx1) \<Rightarrow>
          (case readSyncTargetValue E jsonStr ctx1 toTarget of
             (Inl e, ctx2) \<Rightarrow> (Inl e, ctx2)
           | (Inr toValue, ctx2) \<Rightarrow>
               (case (fromValue, toValue) of
                  (Some v, None) \<Rightarrow> writeSyncTargetValue E jsonStr ctx2 toTarget v
                | (None, Some v) \<Rightarrow> writeSyncTargetValue E jsonStr ctx2 fromTarget v
                | _ \<Rightarrow> (Inr jsonStr, ctx2))))"

definition syncFieldsBetweenTargets ::
  "go_env \<Rightarrow> gstr \<Rightarrow> ov_context \<Rightarrow> gstr \<Rightarrow> gstr \<Rightarrow> (ov_error + gstr) \<times> ov_context" where
  "syncFieldsBetweenTargets E jsonStr ctx fromSpec toSpec =
     (case and_then (parseSyncTarget E fromSpec) (\<lambda>a. and_then (parseSyncTarget E toSpec) (\<lambda>b. Inr (a, b))) of
        Inl e \<Rightarrow> (Inl e, ctx)
      | Inr (fromTarget, toTarget) \<Rightarrow> sync_values E jsonStr ctx fromTarget toTarget)"

end
