(* ===== verification/Override_Engine.thy ===== *)
theory Override_Engine
  imports Override_Body
begin

text \<open>
  A run of the server's parameter override (relay/common/override.go): the audit log, the legacy
  form, the rules one after the other, and the entry points that the relay handlers call.
\<close>

section \<open>Audit\<close>

definition KEY_AUDIT_PATHS :: "gstr list" where
  "KEY_AUDIT_PATHS = map js [''model'', ''original_model'', ''upstream_model'', ''service_tier'', ''inference_geo'', ''speed'']"

definition shouldAuditParamPath :: "go_env \<Rightarrow> gstr \<Rightarrow> bool" where
  "shouldAuditParamPath E path \<longleftrightarrow>
     TrimSpace path \<noteq> [] \<and> (ge_DebugEnabled E \<or> TrimSpace path \<in> set KEY_AUDIT_PATHS)"

definition shouldAuditOperation :: "go_env \<Rightarrow> gstr \<Rightarrow> gstr \<Rightarrow> bool" where
  "shouldAuditOperation E path to \<longleftrightarrow> ge_DebugEnabled E \<or> shouldAuditParamPath E path \<or> shouldAuditParamPath E to"

text \<open>\<open>common.GetJsonString\<close> of a value that is not \<open>nil\<close>: the error of marshalling is ignored.\<close>

definition formatParamOverrideAuditValue :: "json \<Rightarrow> gstr" where
  "formatParamOverrideAuditValue value =
     (case value of
        JNull \<Rightarrow> js ''<empty>''
      | JStr s \<Rightarrow> s
      | _ \<Rightarrow> (case (Marshal value :: ov_error + gstr) of Inr t \<Rightarrow> t | Inl _ \<Rightarrow> []))"

definition mode_in :: "gstr \<Rightarrow> string list \<Rightarrow> bool" where
  "mode_in mode names \<longleftrightarrow> mode \<in> set (map js names)"

definition unless_empty :: "gstr list \<Rightarrow> gstr \<Rightarrow> gstr" where
  "unless_empty parts line = (if [] \<in> set parts then [] else line)"

definition audit_text :: "gstr \<Rightarrow> gstr \<Rightarrow> gstr \<Rightarrow> gstr \<Rightarrow> json \<Rightarrow> gstr" where
  "audit_text mode path from to value =
     (let v = formatParamOverrideAuditValue value; sp = js '' '' in
      if mode_in mode [''set'', ''set_header''] then unless_empty [path] (mode @ sp @ path @ js '' = '' @ v)
      else if mode_in mode [''delete'', ''trim_space'', ''to_lower'', ''to_upper'', ''delete_header'']
      then unless_empty [path] (mode @ sp @ path)
      else if mode_in mode [''copy'', ''move'', ''copy_header'', ''move_header'', ''sync_fields'']
      then unless_empty [from, to] (mode @ sp @ from @ js '' -> '' @ to)
      else if mode_in mode [''prepend'', ''append'', ''trim_prefix'', ''trim_suffix'', ''ensure_prefix'', ''ensure_suffix'']
      then unless_empty [path] (mode @ sp @ path @ js '' with '' @ v)
      else if mode_in mode [''replace'', ''regex_replace'']
      then unless_empty [path] (mode @ sp @ path @ js '' from '' @ from @ js '' to '' @ to)
      else if mode_in mode [''pass_headers'', ''return_error''] then mode @ sp @ v
      else if path = [] then mode else mode @ sp @ path)"

definition buildParamOverrideAuditLine :: "go_env \<Rightarrow> gstr \<Rightarrow> gstr \<Rightarrow> gstr \<Rightarrow> gstr \<Rightarrow> json \<Rightarrow> gstr" where
  "buildParamOverrideAuditLine E mode path from to value =
     (if \<not> shouldAuditOperation E (TrimSpace path) (TrimSpace to) then []
      else audit_text (TrimSpace mode) (TrimSpace path) (TrimSpace from) (TrimSpace to) value)"

text \<open>The lines of the recorder, \<open>None\<close> when there is no recorder.\<close>

type_synonym recorder = "gstr list option"

definition recordOperation :: "go_env \<Rightarrow> gstr \<Rightarrow> gstr \<Rightarrow> gstr \<Rightarrow> gstr \<Rightarrow> json \<Rightarrow> recorder \<Rightarrow> recorder" where
  "recordOperation E mode path from to value r =
     (case r of
        None \<Rightarrow> None
      | Some ls \<Rightarrow>
          (let line = buildParamOverrideAuditLine E mode path from to value in
           Some (if line = [] \<or> line \<in> set ls then ls else ls @ [line])))"

section \<open>The legacy form\<close>

definition buildLegacyParamOverride :: "go_env \<Rightarrow> json jobj \<Rightarrow> json jobj" where
  "buildLegacyParamOverride E paramOverride =
     filter (\<lambda>(key, _). \<not> EqualFold E (TrimSpace key) (js ''operations'')) paramOverride"

definition record_set :: "go_env \<Rightarrow> gstr \<times> json \<Rightarrow> recorder \<Rightarrow> recorder" where
  "record_set E e = recordOperation E (js ''set'') (fst e) [] [] (snd e)"

text \<open>Writing into the \<open>nil\<close> map that a body \<open>null\<close> decodes to is a panic.\<close>

definition applyOperationsLegacy ::
  "go_env \<Rightarrow> gstr \<Rightarrow> json jobj \<Rightarrow> recorder \<Rightarrow> ov_error + gstr \<times> recorder" where
  "applyOperationsLegacy E jsonData paramOverride r =
     and_then (Unmarshal_map jsonData) (\<lambda>reqMap.
       case reqMap of
         None \<Rightarrow> if paramOverride = [] then Inr (js ''null'', r) else Inl Panic
       | Some m \<Rightarrow>
           and_then (Marshal (JObj (fold (\<lambda>(k, v). obj_set k v) (ge_range E paramOverride) m))) (\<lambda>t.
             Inr (t, fold (record_set E) (ge_range E paramOverride) r)))"

section \<open>One rule\<close>

record ov_state =
  st_body :: gstr
  st_context :: ov_context
  st_contextJSON :: gstr
  st_recorder :: recorder

definition log_op :: "go_env \<Rightarrow> string \<Rightarrow> gstr \<Rightarrow> gstr \<Rightarrow> gstr \<Rightarrow> json \<Rightarrow> ov_state \<Rightarrow> ov_state" where
  "log_op E mode path from to value st =
     st\<lparr>st_recorder := recordOperation E (js mode) path from to value (st_recorder st)\<rparr>"

text \<open>A change of the body, recorded when it succeeds; the same at every path of a list.\<close>

definition change_body ::
  "go_env \<Rightarrow> string \<Rightarrow> gstr \<Rightarrow> gstr \<Rightarrow> gstr \<Rightarrow> json \<Rightarrow> (gstr \<Rightarrow> ov_error + gstr) \<Rightarrow> ov_state \<Rightarrow> ov_error + ov_state" where
  "change_body E mode path from to value f st =
     and_then (f (st_body st)) (\<lambda>b. Inr (log_op E mode path from to value (st\<lparr>st_body := b\<rparr>)))"

definition at_paths ::
  "go_env \<Rightarrow> string \<Rightarrow> gstr \<Rightarrow> gstr \<Rightarrow> json \<Rightarrow> (gstr \<Rightarrow> gstr \<Rightarrow> ov_error + gstr) \<Rightarrow> gstr list \<Rightarrow> ov_state \<Rightarrow> ov_error + ov_state" where
  "at_paths E mode from to value f paths st =
     each (\<lambda>path. change_body E mode path from to value (\<lambda>b. f b path)) paths st"

definition set_path :: "go_env \<Rightarrow> ParamOperation \<Rightarrow> gstr \<Rightarrow> ov_state \<Rightarrow> ov_error + ov_state" where
  "set_path E op path st =
     (if pa_KeepOrigin op \<and> gr_Exists (ge_gjson_Get E (st_body st) path) then Inr st
      else change_body E ''set'' path [] [] (pa_Value op) (\<lambda>b. ge_sjson_Set E b path (pa_Value op)) st)"

definition prune_path :: "go_env \<Rightarrow> ParamOperation \<Rightarrow> gstr \<Rightarrow> ov_state \<Rightarrow> ov_error + ov_state" where
  "prune_path E op path st =
     and_then (pruneObjects E (st_body st) path (st_contextJSON st) (pa_Value op)) (\<lambda>b. Inr (st\<lparr>st_body := b\<rparr>))"

text \<open>A change of the context: the error is checked, the change recorded, and the context marshalled again.\<close>

definition refresh_context :: "ov_state \<Rightarrow> ov_error + ov_state" where
  "refresh_context st = and_then (marshalContextJSON (st_context st)) (\<lambda>t. Inr (st\<lparr>st_contextJSON := t\<rparr>))"

definition change_context ::
  "go_env \<Rightarrow> string \<Rightarrow> gstr \<Rightarrow> gstr \<Rightarrow> gstr \<Rightarrow> json \<Rightarrow> (ov_context \<Rightarrow> ov_error option \<times> ov_context) \<Rightarrow> ov_state \<Rightarrow> ov_error + ov_state" where
  "change_context E mode path from to value f st =
     (case f (st_context st) of
        (Some e, _) \<Rightarrow> Inl e
      | (None, ctx) \<Rightarrow> refresh_context (log_op E mode path from to value (st\<lparr>st_context := ctx\<rparr>)))"

definition skip_missing :: "ov_error option \<times> ov_context \<Rightarrow> ov_error option \<times> ov_context" where
  "skip_missing r = (if source_missing (fst r) then (None, snd r) else r)"

definition header_end :: "gstr \<Rightarrow> gstr \<Rightarrow> gstr" where
  "header_end name path = (if TrimSpace name = [] then TrimSpace path else TrimSpace name)"

definition sync_fields :: "go_env \<Rightarrow> ParamOperation \<Rightarrow> ov_state \<Rightarrow> ov_error + ov_state" where
  "sync_fields E op st =
     (case syncFieldsBetweenTargets E (st_body st) (st_context st) (pa_From op) (pa_To op) of
        (Inl e, _) \<Rightarrow> Inl e
      | (Inr b, ctx) \<Rightarrow>
          refresh_context (log_op E ''sync_fields'' [] (pa_From op) (pa_To op) JNull (st\<lparr>st_body := b, st_context := ctx\<rparr>)))"

text \<open>The rules that change the body at the paths they name; \<open>None\<close> for another mode.\<close>

definition path_operation :: "go_env \<Rightarrow> ParamOperation \<Rightarrow> gstr list \<Rightarrow> ov_state \<Rightarrow> (ov_error + ov_state) option" where
  "path_operation E op paths st =
     (let mode = pa_Mode op; v = pa_Value op; from = pa_From op; to = pa_To op; keep = pa_KeepOrigin op in
      if mode = js ''delete'' then Some (at_paths E ''delete'' [] [] JNull (deleteValue E) paths st)
      else if mode = js ''set'' then Some (each (set_path E op) paths st)
      else if mode = js ''prepend'' then Some (at_paths E ''prepend'' [] [] v (\<lambda>b p. modifyValue E b p v keep True) paths st)
      else if mode = js ''append'' then Some (at_paths E ''append'' [] [] v (\<lambda>b p. modifyValue E b p v keep False) paths st)
      else if mode = js ''trim_prefix'' then Some (at_paths E ''trim_prefix'' [] [] v (\<lambda>b p. trimStringValue E b p v True) paths st)
      else if mode = js ''trim_suffix'' then Some (at_paths E ''trim_suffix'' [] [] v (\<lambda>b p. trimStringValue E b p v False) paths st)
      else if mode = js ''ensure_prefix'' then Some (at_paths E ''ensure_prefix'' [] [] v (\<lambda>b p. ensureStringAffix E b p v True) paths st)
      else if mode = js ''ensure_suffix'' then Some (at_paths E ''ensure_suffix'' [] [] v (\<lambda>b p. ensureStringAffix E b p v False) paths st)
      else if mode = js ''trim_space'' then Some (at_paths E ''trim_space'' [] [] JNull (\<lambda>b p. transformStringValue E b p TrimSpace) paths st)
      else if mode = js ''to_lower'' then Some (at_paths E ''to_lower'' [] [] JNull (\<lambda>b p. transformStringValue E b p (ToLower E)) paths st)
      else if mode = js ''to_upper'' then Some (at_paths E ''to_upper'' [] [] JNull (\<lambda>b p. transformStringValue E b p (ToUpper E)) paths st)
      else if mode = js ''replace'' then Some (at_paths E ''replace'' from to JNull (\<lambda>b p. replaceStringValue E b p from to) paths st)
      else if mode = js ''regex_replace'' then Some (at_paths E ''regex_replace'' from to JNull (\<lambda>b p. regexReplaceStringValue E b p from to) paths st)
      else if mode = js ''prune_objects'' then Some (each (prune_path E op) paths st)
      else None)"

text \<open>The rules that move values inside the body.\<close>

definition transfer_operation :: "go_env \<Rightarrow> ParamOperation \<Rightarrow> ov_state \<Rightarrow> (ov_error + ov_state) option" where
  "transfer_operation E op st =
     (let mode = pa_Mode op; b = st_body st;
          opFrom = processNegativeIndex E b (pa_From op); opTo = processNegativeIndex E b (pa_To op) in
      if mode = js ''move'' then Some (change_body E ''move'' [] opFrom opTo JNull (\<lambda>b. moveValue E b opFrom opTo) st)
      else if mode = js ''copy'' then Some (change_body E ''copy'' [] opFrom opTo JNull (\<lambda>b. copyValue E b opFrom opTo) st)
      else None)"

text \<open>The rules that change the headers to send.\<close>

definition header_operation :: "go_env \<Rightarrow> ParamOperation \<Rightarrow> gstr list \<Rightarrow> ov_state \<Rightarrow> (ov_error + ov_state) option" where
  "header_operation E op headerNames st =
     (let mode = pa_Mode op; path = pa_Path op; keep = pa_KeepOrigin op;
          source = header_end (pa_From op) path; target = header_end (pa_To op) path in
      if mode = js ''set_header'' then
        Some (change_context E ''set_header'' path [] [] (pa_Value op) (\<lambda>c. setHeaderOverrideInContext E c path (pa_Value op) keep) st)
      else if mode = js ''delete_header'' then
        Some (change_context E ''delete_header'' path [] [] JNull (\<lambda>c. deleteHeaderOverrideInContext E c path) st)
      else if mode = js ''copy_header'' then
        Some (change_context E ''copy_header'' [] source target JNull (\<lambda>c. skip_missing (copyHeaderInContext E c source target keep)) st)
      else if mode = js ''move_header'' then
        Some (change_context E ''move_header'' [] source target JNull (\<lambda>c. skip_missing (moveHeaderInContext E c source target keep)) st)
      else if mode = js ''pass_headers'' then
        Some (change_context E ''pass_headers'' [] [] [] (JArr (map JStr headerNames)) (pass_header_names E keep headerNames) st)
      else if mode = js ''sync_fields'' then Some (sync_fields E op st)
      else None)"

text \<open>The switch over the mode; an error here is reported with the mode.\<close>

definition first_some :: "'a option \<Rightarrow> 'a option \<Rightarrow> 'a option" where
  "first_some x y = (case x of Some _ \<Rightarrow> x | None \<Rightarrow> y)"

definition perform_operation :: "go_env \<Rightarrow> ParamOperation \<Rightarrow> gstr list \<Rightarrow> gstr list \<Rightarrow> ov_state \<Rightarrow> (ov_error + ov_state) option" where
  "perform_operation E op paths headerNames st =
     first_some (path_operation E op paths st)
       (first_some (transfer_operation E op st) (header_operation E op headerNames st))"

definition failed_operation :: "ParamOperation \<Rightarrow> ov_error + 'b \<Rightarrow> ov_error + 'b" where
  "failed_operation op r = map_sum (Errorw ''operation %s failed: %w'' [pa_Mode op]) id r"

text \<open>The paths of a rule, and the early returns before the switch or inside it, which are reported as they are.\<close>

definition operation_paths :: "go_env \<Rightarrow> ParamOperation \<Rightarrow> gstr \<Rightarrow> ov_error + gstr list option" where
  "operation_paths E op body =
     (if isPathBasedOperation (pa_Mode op)
      then map_sum id Some (resolveOperationPaths body (processNegativeIndex E body (pa_Path op))) else Inr None)"

definition header_names :: "go_env \<Rightarrow> ParamOperation \<Rightarrow> ov_error + gstr list" where
  "header_names E op =
     (if pa_Mode op = js ''pass_headers'' then parseHeaderPassThroughNames E (pa_Value op) else Inr [])"

definition early_return :: "ParamOperation \<Rightarrow> ov_error option" where
  "early_return op =
     (if pa_Mode op = js ''copy'' \<and> (pa_From op = [] \<or> pa_To op = []) then Some (Errorf ''copy from/to is required'' [])
      else if pa_Mode op = js ''return_error'' then
        Some (case parseParamOverrideReturnError (pa_Value op) of Inl e \<Rightarrow> e | Inr err \<Rightarrow> AppError err)
      else None)"

definition run_operation :: "go_env \<Rightarrow> ParamOperation \<Rightarrow> gstr list \<Rightarrow> ov_state \<Rightarrow> ov_error + ov_state" where
  "run_operation E op paths st =
     (case early_return op of
        Some e \<Rightarrow> Inl e
      | None \<Rightarrow> and_then (header_names E op) (\<lambda>names.
          case perform_operation E op paths names st of
            Some r \<Rightarrow> failed_operation op r
          | None \<Rightarrow> Inl (Errorf ''unknown operation: %s'' [pa_Mode op])))"

definition applyOperation :: "go_env \<Rightarrow> ParamOperation \<Rightarrow> ov_state \<Rightarrow> ov_error + ov_state" where
  "applyOperation E op st =
     and_then (checkConditions E (st_body st) (st_contextJSON st) (pa_Conditions op) (pa_Logic op)) (\<lambda>ok.
       if \<not> ok then Inr st
       else and_then (operation_paths E op (st_body st)) (\<lambda>paths.
         if paths = Some [] then Inr st else run_operation E op (or_zero_value [] paths) st))"

section \<open>A run\<close>

definition start_state :: "gstr \<Rightarrow> ov_context \<Rightarrow> recorder \<Rightarrow> ov_error + ov_state" where
  "start_state jsonStr ctx r =
     (case marshalContextJSON ctx of
        Inl e \<Rightarrow> Inl (Errorv ''failed to marshal condition context: %v'' [] e)
      | Inr t \<Rightarrow> Inr \<lparr>st_body = jsonStr, st_context = ctx, st_contextJSON = t, st_recorder = r\<rparr>)"

definition applyOperations :: "go_env \<Rightarrow> gstr \<Rightarrow> ParamOperation list \<Rightarrow> ov_context \<Rightarrow> recorder \<Rightarrow> ov_error + ov_state" where
  "applyOperations E jsonStr operations ctx r =
     and_then (start_state jsonStr ctx r) (each (applyOperation E) operations)"

text \<open>
  The new body, the context and the recorder.  With an error the caller gets no body, and the
  context and the recorder are not used any more.
\<close>

type_synonym ov_result = "gstr \<times> ov_context \<times> recorder"

definition run_result :: "ov_state \<Rightarrow> ov_result" where
  "run_result st = (st_body st, st_context st, st_recorder st)"

definition ApplyParamOverride :: "go_env \<Rightarrow> gstr \<Rightarrow> json jobj \<Rightarrow> ov_context \<Rightarrow> recorder \<Rightarrow> ov_error + ov_result" where
  "ApplyParamOverride E jsonData paramOverride ctx r =
     (if paramOverride = [] then Inr (jsonData, ctx, r)
      else (case tryParseOperations E paramOverride of
          Some operations \<Rightarrow>
            (let legacy = buildLegacyParamOverride E paramOverride in
             and_then (if legacy \<noteq> [] then applyOperationsLegacy E jsonData legacy r else Inr (jsonData, r)) (\<lambda>(body, r1).
             and_then (applyOperations E body operations ctx r1) (\<lambda>st. Inr (run_result st))))
        | None \<Rightarrow>
            and_then (applyOperationsLegacy E jsonData paramOverride r) (\<lambda>(body, r1). Inr (body, ctx, r1))))"

definition audit_paths :: "go_env \<Rightarrow> json jobj \<Rightarrow> gstr list" where
  "audit_paths E paramOverride =
     (case tryParseOperations E paramOverride of
        Some operations \<Rightarrow>
          concat (map (\<lambda>op. [pa_Path op, pa_To op]) operations) @ obj_keys (buildLegacyParamOverride E paramOverride)
      | None \<Rightarrow> obj_keys paramOverride)"

definition shouldEnableParamOverrideAudit :: "go_env \<Rightarrow> json jobj \<Rightarrow> bool" where
  "shouldEnableParamOverrideAudit E paramOverride \<longleftrightarrow>
     ge_DebugEnabled E \<or> list_ex (\<lambda>p. shouldAuditParamPath E (TrimSpace p)) (audit_paths E paramOverride)"

text \<open>The recorder in the context has no exported field and marshals as an empty object.\<close>

definition run_recorder :: "go_env \<Rightarrow> RelayInfo \<Rightarrow> recorder" where
  "run_recorder E info = (if shouldEnableParamOverrideAudit E (getParamOverrideMap info) then Some [] else None)"

definition run_context :: "go_env \<Rightarrow> RelayInfo \<Rightarrow> ov_context" where
  "run_context E info =
     (let ctx = BuildParamOverrideContext E info in
      if run_recorder E info \<noteq> None then obj_set AUDIT_RECORDER (JObj []) ctx else ctx)"

definition ApplyParamOverrideWithRelayInfo :: "go_env \<Rightarrow> gstr \<Rightarrow> RelayInfo \<Rightarrow> ov_error + gstr \<times> RelayInfo" where
  "ApplyParamOverrideWithRelayInfo E jsonData info =
     (let paramOverride = getParamOverrideMap info in
      if paramOverride = [] then Inr (jsonData, info)
      else and_then (ApplyParamOverride E jsonData paramOverride (run_context E info) (run_recorder E info))
        (\<lambda>(result, ctx, r).
          Inr (result, (syncRuntimeHeaderOverrideFromContext E ctx info)\<lparr>ri_ParamOverrideAudit := or_zero_value [] r\<rparr>)))"

section \<open>The error that the client gets\<close>

text \<open>types/error.go: the OpenAI form of an error, and the error of the relay with the fields set here.\<close>

record OpenAIError =
  oe_Message :: gstr
  oe_Type :: gstr
  oe_Code :: gstr

record NewAPIError =
  ae_RelayError :: "OpenAIError option"
  ae_errorType :: gstr
  ae_StatusCode :: int
  ae_Err :: ov_error
  ae_errorCode :: gstr
  ae_skipRetry :: bool

text \<open>For an error whose code is a string and that carries no metadata, as all errors here are.\<close>

definition WithOpenAIError :: "OpenAIError \<Rightarrow> int \<Rightarrow> bool \<Rightarrow> NewAPIError" where
  "WithOpenAIError openAIError statusCode skipRetry =
     (let e = (if oe_Type openAIError = [] then openAIError\<lparr>oe_Type := js ''upstream_error''\<rparr> else openAIError) in
      \<lparr>ae_RelayError = Some e, ae_errorType = js ''openai_error'', ae_StatusCode = statusCode,
       ae_Err = Errorf ''%s'' [oe_Message e], ae_errorCode = oe_Code e, ae_skipRetry = skipRetry\<rparr>)"

definition or_text :: "gstr \<Rightarrow> string \<Rightarrow> gstr" where
  "or_text s d = (if TrimSpace s = [] then js d else s)"

definition NewAPIErrorFromParamOverride :: "ParamOverrideReturnError \<Rightarrow> NewAPIError" where
  "NewAPIErrorFromParamOverride err =
     WithOpenAIError
       \<lparr>oe_Message = (let m = TrimSpace (er_Message err) in if m = [] then js ''request blocked by param override'' else m),
        oe_Type = or_text (er_Type err) ''invalid_request_error'', oe_Code = or_text (er_Code err) ''invalid_request''\<rparr>
       (if er_StatusCode err < 100 \<or> 511 < er_StatusCode err then 400 else er_StatusCode err) (er_SkipRetry err)"

text \<open>relay/param_override_error.go\<close>

definition newAPIErrorFromParamOverride :: "ov_error \<Rightarrow> NewAPIError" where
  "newAPIErrorFromParamOverride err =
     (case errors_As err of
        Some fixedErr \<Rightarrow> NewAPIErrorFromParamOverride fixedErr
      | None \<Rightarrow>
          \<lparr>ae_RelayError = None, ae_errorType = js ''new_api_error'', ae_StatusCode = 500, ae_Err = err,
           ae_errorCode = js ''channel:param_override_invalid'', ae_skipRetry = True\<rparr>)"


end
