(* ===== verification/Override_Headers.thy ===== *)
theory Override_Headers
  imports Override_Engine
begin

text \<open>
  What the header rules of the server can do to the context: every header operation, whether it
  succeeds or not, is a sequence of three kinds of elementary change (relation \<open>header_change\<close>), so
  that an invariant of the context is checked on these three only.
\<close>

section \<open>Trimmed text and tokens\<close>

text \<open>A token of a header: not blank, trimmed, without a comma.\<close>

definition token_ok :: "gstr \<Rightarrow> bool" where
  "token_ok t \<longleftrightarrow> t \<noteq> [] \<and> TrimSpace t = t \<and> 44 \<notin> set t"

lemma split_tokens: "list_all token_ok (splitHeaderListValue s)"
  using split_char_no_sep [of _ 44 s] gtrim.set_strip
  by (fastforce simp: splitHeaderListValue_def list_all_iff token_ok_def)

lemma split_join_tokens:
  assumes "list_all token_ok ts"
  shows "splitHeaderListValue (join [44] ts) = ts"
proof (cases "ts = []")
  case False
  then have "split_char 44 (join [44] ts) = ts"
    using assms by (intro split_join_char) (auto simp: list_all_iff token_ok_def)
  moreover have "map TrimSpace ts = ts" "filter (\<lambda>t. t \<noteq> []) ts = ts"
    using assms by (auto simp: list_all_iff token_ok_def intro: map_idI)
  ultimately show ?thesis by (simp add: splitHeaderListValue_def)
qed (simp add: splitHeaderListValue_def)

lemma token_ends: "token_ok t \<Longrightarrow> t \<noteq> [] \<and> \<not> go_space (hd t) \<and> \<not> go_space (last t)"
  using gtrim.strip_ends [of t] by (auto simp: token_ok_def)

lemma join_tokens_ends:
  "list_all token_ok ts \<Longrightarrow> ts \<noteq> [] \<Longrightarrow>
   join [44] ts \<noteq> [] \<and> \<not> go_space (hd (join [44] ts)) \<and> \<not> go_space (last (join [44] ts))"
proof (induction ts rule: induct_list012)
  case (3 x y zs)
  have "join [44] (x # y # zs) = x @ 44 # join [44] (y # zs)" by simp
  then show ?case using 3 token_ends [of x] by simp
qed (auto dest: token_ends)

lemma header_value_trimmed: "list_all token_ok ts \<Longrightarrow> ts \<noteq> [] \<Longrightarrow> join [44] ts \<noteq> [] \<and> TrimSpace (join [44] ts) = join [44] ts"
  using join_tokens_ends gtrim.strip_fixed by blast

lemma float_str_chars: "c \<in> set (float_str x) \<Longrightarrow> c \<noteq> 44"
proof -
  have d: "c \<in> set (nat_str n) \<Longrightarrow> c \<noteq> 44" for c n using nat_str_digits by (fastforce simp: is_digit_def)
  have l: "44 \<notin> set (layout (nat_str n) k)" for n k
    using d [of 44 n] set_take_subset set_drop_subset
    by (auto simp: layout_def exp_str_def js_lit dest: d in_set_takeD in_set_dropD)
  have g: "44 \<notin> set (g_layout r)" for r
    using l [of "fst r" "snd r"] by (auto simp: g_layout_def Let_def two_digits_def js_lit dest: d in_set_takeD in_set_dropD)
  have "44 \<notin> set (g_positive m e)" for m e unfolding g_positive_def Let_def by (rule g)
  then show "c \<in> set (float_str x) \<Longrightarrow> c \<noteq> 44"
    by (cases x) (auto simp: js_lit split: if_splits)
qed

lemma collect_set: "collect f xs = Inr ys \<Longrightarrow> y \<in> set ys \<Longrightarrow> \<exists>x \<in> set xs. f x = Inr y"
proof (induction xs arbitrary: ys)
  case (Cons x xs)
  then obtain z zs where "f x = Inr z" "collect f xs = Inr zs" "ys = z # zs"
    by (cases "f x"; cases "collect f xs") auto
  then show ?case using Cons by auto
qed simp

lemma replacement_tokens: "parseHeaderReplacementTokens v = Inr ts \<Longrightarrow> list_all token_ok ts"
proof (induction v arbitrary: ts)
  case (JBool b)
  have "token_ok (js ''true'')" "token_ok (js ''false'')" by code_simp+
  moreover have "TrimSpace (js ''true'') = js ''true''" "TrimSpace (js ''false'') = js ''false''" by code_simp+
  ultimately show ?case using JBool by (auto simp: Let_def split: if_splits)
next
  case (JNum x)
  then show ?case using float_str_chars gtrim.set_strip [of "float_str x"]
    by (fastforce simp: Let_def token_ok_def split: if_splits)
next
  case (JStr s)
  then show ?case using split_tokens by auto
next
  case (JArr vs)
  then obtain tss where tss: "collect parseHeaderReplacementTokens vs = Inr tss" "ts = dedup (concat tss)"
    by (cases "collect parseHeaderReplacementTokens vs") auto
  then show ?case using collect_set [OF tss(1)] JArr.IH by (fastforce simp: list_all_iff)
qed auto

lemma header_tokens_ok:
  assumes "header_tokens mapping app src = Inr ts" "list_all token_ok app" "list_all token_ok src"
  shows "list_all token_ok ts" "distinct ts"
proof -
  obtain tss where tss: "collect (token_replacement mapping (parseHeaderKeepOnlyDeclared mapping)) src = Inr tss"
    "ts = dedup (concat tss @ app)"
    using assms(1) by (cases "collect (token_replacement mapping (parseHeaderKeepOnlyDeclared mapping)) src") (auto simp: header_tokens_def)
  have "token_replacement mapping k t = Inr us \<Longrightarrow> t \<in> set src \<Longrightarrow> list_all token_ok us" for k t us
    using assms(3) replacement_tokens
    by (auto simp: token_replacement_def Let_def list_all_iff split: option.splits if_splits)
  then show "list_all token_ok ts" using collect_set [OF tss(1)] assms(2) tss(2) by (fastforce simp: list_all_iff)
  show "distinct ts" using tss(2) by simp
qed

lemma append_tokens: "parseHeaderAppendTokens mapping = Inr ts \<Longrightarrow> list_all token_ok ts"
  using replacement_tokens by (auto simp: parseHeaderAppendTokens_def split: option.splits)

section \<open>Elementary changes of the context\<close>

inductive header_change :: "go_env \<Rightarrow> ov_context \<Rightarrow> ov_context \<Rightarrow> bool" for E where
  make_map: "key \<in> {HEADER_OVERRIDE, REQUEST_HEADERS} \<Longrightarrow> (\<And>m. obj_get ctx key \<noteq> Some (JObj m)) \<Longrightarrow>
     header_change E ctx (obj_set key (JObj []) ctx)"
| put_header: "normalizeHeaderContextKey E h \<noteq> [] \<Longrightarrow> value \<noteq> [] \<Longrightarrow> TrimSpace value = value \<Longrightarrow>
     header_change E ctx (set_header_map (obj_set (normalizeHeaderContextKey E h) (JStr value) (header_map ctx)) ctx)"
| remove_header: "header_change E ctx (set_header_map (obj_delete name (header_map ctx)) ctx)"

inductive_cases header_changeE: "header_change E ctx ctx'"

abbreviation header_changes :: "go_env \<Rightarrow> ov_context \<Rightarrow> ov_context \<Rightarrow> bool" where
  "header_changes E \<equiv> (header_change E)\<^sup>*\<^sup>*"

lemma context_keys [simp]: "HEADER_OVERRIDE \<noteq> REQUEST_HEADERS" "REQUEST_HEADERS \<noteq> HEADER_OVERRIDE"
  by (simp_all add: HEADER_OVERRIDE_def REQUEST_HEADERS_def)

lemma ensure_snd:
  "snd (ensureMapKeyInContext ctx key) =
     (if \<exists>m. obj_get ctx key = Some (JObj m) then ctx else obj_set key (JObj []) ctx)"
  by (auto simp: ensureMapKeyInContext_def split: option.splits json.splits)

lemma header_map_eq: "header_map ctx = (case obj_get ctx HEADER_OVERRIDE of Some (JObj m) \<Rightarrow> m | _ \<Rightarrow> [])"
  by (simp add: header_map_def ensureMapKeyInContext_def split: option.split json.split)

lemma header_map_set [simp]: "header_map (set_header_map m ctx) = m"
  by (simp add: header_map_eq set_header_map_def obj_get_set)

lemma ensure_changes:
  assumes "key \<in> {HEADER_OVERRIDE, REQUEST_HEADERS}"
  shows "header_changes E ctx (snd (ensureMapKeyInContext ctx key))"
    and "header_map (snd (ensureMapKeyInContext ctx key)) = header_map ctx"
proof -
  show "header_changes E ctx (snd (ensureMapKeyInContext ctx key))"
    using make_map [OF assms, of ctx E] by (auto simp: ensure_snd)
  show "header_map (snd (ensureMapKeyInContext ctx key)) = header_map ctx"
    using assms by (auto simp: ensure_snd header_map_eq obj_get_set split: option.split json.split)
qed

lemma get_changes:
  "header_changes E ctx (snd (getHeaderValueFromContext E ctx h))"
  "header_map (snd (getHeaderValueFromContext E ctx h)) = header_map ctx"
proof -
  obtain s1 c1 where 1: "ensureMapKeyInContext ctx HEADER_OVERRIDE = (s1, c1)" by (cases "ensureMapKeyInContext ctx HEADER_OVERRIDE")
  obtain s2 c2 where 2: "ensureMapKeyInContext c1 REQUEST_HEADERS = (s2, c2)" by (cases "ensureMapKeyInContext c1 REQUEST_HEADERS")
  note e1 = ensure_changes(1) [of HEADER_OVERRIDE E ctx] ensure_changes(2) [of HEADER_OVERRIDE ctx]
  note e2 = ensure_changes(1) [of REQUEST_HEADERS E c1] ensure_changes(2) [of REQUEST_HEADERS c1]
  show "header_changes E ctx (snd (getHeaderValueFromContext E ctx h))"
    using 1 2 e1(1) e2(1) by (auto simp: getHeaderValueFromContext_def Let_def split: option.split)
  show "header_map (snd (getHeaderValueFromContext E ctx h)) = header_map ctx"
    using 1 2 e1(2) e2(2) by (auto simp: getHeaderValueFromContext_def Let_def split: option.split)
qed

lemma resolve_changes:
  assumes "resolveHeaderOverrideValue E ctx h value = (r, ctx')"
  shows "header_changes E ctx ctx'" "header_map ctx' = header_map ctx"
    and "r = Inr (Some v) \<Longrightarrow> v \<noteq> [] \<and> TrimSpace v = v"
proof -
  have m: "header_changes E ctx c \<and> header_map c = header_map ctx \<and> (q = Inr (Some v) \<longrightarrow> v \<noteq> [] \<and> TrimSpace v = v)"
    if "resolveHeaderOverrideValueByMapping E ctx h mapping = (q, c)" for mapping q c
  proof (cases "mapping = []")
    case True
    then show ?thesis using that by (auto simp: resolveHeaderOverrideValueByMapping_def)
  next
    case False
    show ?thesis
    proof (cases "parseHeaderAppendTokens mapping")
      case (Inl e)
      then show ?thesis using that False by (auto simp: resolveHeaderOverrideValueByMapping_def)
    next
      case (Inr app)
      obtain src c1 where g: "getHeaderValueFromContext E ctx h = (src, c1)" by (cases "getHeaderValueFromContext E ctx h")
      let ?src = "case src of Some v \<Rightarrow> splitHeaderListValue v | None \<Rightarrow> []"
      have "c = c1" and q: "q = map_sum id (\<lambda>tokens. if tokens = [] then None else Some (join [44] tokens)) (header_tokens mapping app ?src)"
        using that False Inr g by (auto simp: resolveHeaderOverrideValueByMapping_def)
      moreover have "list_all token_ok ?src" using split_tokens by (cases src) auto
      then have "q = Inr (Some v) \<Longrightarrow> v \<noteq> [] \<and> TrimSpace v = v"
        using header_tokens_ok(1) [OF _ append_tokens [OF Inr]] header_value_trimmed unfolding q
        by (cases "header_tokens mapping app ?src") (auto split: if_splits)
      ultimately show ?thesis using get_changes [of E ctx h] g by simp
    qed
  qed
  show "header_changes E ctx ctx'" "header_map ctx' = header_map ctx" "r = Inr (Some v) \<Longrightarrow> v \<noteq> [] \<and> TrimSpace v = v"
    using assms m by (cases "value"; fastforce simp: resolveHeaderOverrideValue_def Let_def split: if_splits)+
qed

lemma set_changes: "header_changes E ctx (snd (setHeaderOverrideInContext E ctx h value keep))"
proof -
  let ?n = "normalizeHeaderContextKey E h"
  obtain m c1 where 1: "ensureMapKeyInContext ctx HEADER_OVERRIDE = (m, c1)" by (cases "ensureMapKeyInContext ctx HEADER_OVERRIDE")
  obtain r c2 where 2: "resolveHeaderOverrideValue E c1 ?n value = (r, c2)" by (cases "resolveHeaderOverrideValue E c1 ?n value")
  have e: "header_changes E ctx c1" "header_map c1 = m"
    using ensure_changes(1) [of HEADER_OVERRIDE E ctx] ensure_changes(2) [of HEADER_OVERRIDE ctx] 1 by (simp_all add: header_map_def)
  note res = resolve_changes [OF 2]
  have c2: "header_changes E ctx c2" "header_map c2 = m" using e res(1,2) by auto
  have put: "header_changes E ctx (set_header_map (obj_set ?n (JStr v) m) c2)" if "?n \<noteq> []" "r = Inr (Some v)" for v
    using rtranclp.rtrancl_into_rtrancl [OF c2(1) put_header [OF that(1), of v]] res(3) [OF that(2)] c2(2) by simp
  have del: "header_changes E ctx (set_header_map (obj_delete ?n m) c2)"
    using rtranclp.rtrancl_into_rtrancl [OF c2(1) remove_header [of E c2 ?n]] c2(2) by simp
  show ?thesis
    using 1 2 e(1) c2(1) put del by (auto simp: setHeaderOverrideInContext_def Let_def split: sum.split option.split)
qed

lemma delete_changes: "header_changes E ctx (snd (deleteHeaderOverrideInContext E ctx h))"
proof -
  obtain m c1 where 1: "ensureMapKeyInContext ctx HEADER_OVERRIDE = (m, c1)" by (cases "ensureMapKeyInContext ctx HEADER_OVERRIDE")
  have e: "header_changes E ctx c1" "header_map c1 = m"
    using ensure_changes(1) [of HEADER_OVERRIDE E ctx] ensure_changes(2) [of HEADER_OVERRIDE ctx] 1 by (simp_all add: header_map_def)
  show ?thesis
    using 1 rtranclp.rtrancl_into_rtrancl [OF e(1) remove_header [of E c1]] e(2)
    by (simp add: deleteHeaderOverrideInContext_def Let_def)
qed

lemma copy_changes: "header_changes E ctx (snd (copyHeaderInContext E ctx from to keep))"
proof -
  obtain v c1 where g: "getHeaderValueFromContext E ctx (normalizeHeaderContextKey E from) = (v, c1)"
    by (cases "getHeaderValueFromContext E ctx (normalizeHeaderContextKey E from)")
  have c1: "header_changes E ctx c1" using get_changes(1) [of E ctx "normalizeHeaderContextKey E from"] g by simp
  show ?thesis
    using g c1 rtranclp_trans [OF c1 set_changes] by (auto simp: copyHeaderInContext_def Let_def split: option.split)
qed

lemma move_changes: "header_changes E ctx (snd (moveHeaderInContext E ctx from to keep))"
proof -
  let ?f = "normalizeHeaderContextKey E from" and ?t = "normalizeHeaderContextKey E to"
  obtain e c1 where c: "copyHeaderInContext E ctx ?f ?t keep = (e, c1)" by (cases "copyHeaderInContext E ctx ?f ?t keep")
  have c1: "header_changes E ctx c1" using copy_changes [of E ctx ?f ?t keep] c by simp
  show ?thesis
    using c c1 rtranclp_trans [OF c1 delete_changes] by (auto simp: moveHeaderInContext_def Let_def split: option.split)
qed

lemma pass_changes: "header_changes E ctx (snd (pass_header_names E keep hs ctx))"
proof (induction hs arbitrary: ctx)
  case (Cons h hs)
  obtain e c1 where c: "copyHeaderInContext E ctx h h keep = (e, c1)" by (cases "copyHeaderInContext E ctx h h keep")
  have c1: "header_changes E ctx c1" using copy_changes [of E ctx h h keep] c by simp
  show ?case using c c1 rtranclp_trans [OF c1 Cons.IH [of c1]] by simp
qed simp

lemma read_changes: "header_changes E ctx (snd (readSyncTargetValue E b ctx t))"
  using get_changes(1) [of E ctx "snd t"]
  by (cases "getHeaderValueFromContext E ctx (snd t)") (auto simp: readSyncTargetValue_def Let_def)

lemma write_changes: "header_changes E ctx (snd (writeSyncTargetValue E b ctx t v))"
  using set_changes [of E ctx "snd t" v False]
  by (cases "setHeaderOverrideInContext E ctx (snd t) v False") (auto simp: writeSyncTargetValue_def split: option.split)

lemma sync_changes: "header_changes E ctx (snd (syncFieldsBetweenTargets E b ctx from to))"
proof -
  have "header_changes E ctx (snd (sync_values E b ctx a t))" for a t
  proof -
    obtain r1 c1 where 1: "readSyncTargetValue E b ctx a = (r1, c1)" by (cases "readSyncTargetValue E b ctx a")
    obtain r2 c2 where 2: "readSyncTargetValue E b c1 t = (r2, c2)" by (cases "readSyncTargetValue E b c1 t")
    have c1: "header_changes E ctx c1" using read_changes [of E ctx b a] 1 by simp
    have c2: "header_changes E ctx c2" using rtranclp_trans [OF c1 read_changes [of E c1 b t]] 2 by simp
    show ?thesis
      using 1 2 c1 c2 rtranclp_trans [OF c2 write_changes] by (auto simp: sync_values_def split: sum.split option.split)
  qed
  then show ?thesis
    by (auto simp: syncFieldsBetweenTargets_def split: sum.split)
qed

lemmas header_operation_changes = set_changes delete_changes copy_changes move_changes pass_changes sync_changes

end
