(* ===== verification/Override_Sample.thy ===== *)
theory Override_Sample
  imports Override_Engine
begin

text \<open>
  A concrete environment for the override engine, in which examples are evaluated: paths are keys and
  indices separated by dots, a map is visited in its own order, letters outside ASCII have no case,
  and no regular expression compiles.
\<close>

section \<open>Paths\<close>

fun lookup_path :: "json \<Rightarrow> gstr list \<Rightarrow> json option" where
  "lookup_path v [] = Some v"
| "lookup_path (JObj ob) (k # ks) = (case obj_get ob k of Some v \<Rightarrow> lookup_path v ks | None \<Rightarrow> None)"
| "lookup_path (JArr vs) (k # ks) =
     (case Atoi k of
        Some i \<Rightarrow> if 0 \<le> i \<and> nat i < length vs then lookup_path (vs ! nat i) ks else None
      | None \<Rightarrow> None)"
| "lookup_path v (k # ks) = None"

fun store_path :: "gstr list \<Rightarrow> json \<Rightarrow> json \<Rightarrow> json" where
  "store_path [] new v = new"
| "store_path (k # ks) new (JObj ob) = JObj (obj_set k (store_path ks new (or_zero_value (JObj []) (obj_get ob k))) ob)"
| "store_path (k # ks) new (JArr vs) =
     (case Atoi k of
        Some i \<Rightarrow> JArr (if 0 \<le> i \<and> nat i < length vs then vs[nat i := store_path ks new (vs ! nat i)] else vs @ [store_path ks new (JObj [])])
      | None \<Rightarrow> JArr vs)"
| "store_path (k # ks) new v = JObj [(k, store_path ks new (JObj []))]"

fun remove_path :: "gstr list \<Rightarrow> json \<Rightarrow> json" where
  "remove_path [k] (JObj ob) = JObj (obj_delete k ob)"
| "remove_path (k # ks) (JObj ob) =
     (case obj_get ob k of Some v \<Rightarrow> JObj (obj_set k (remove_path ks v) ob) | None \<Rightarrow> JObj ob)"
| "remove_path ks v = v"

section \<open>Results\<close>

fun type_of :: "json \<Rightarrow> gjson_type" where
  "type_of JNull = GNull"
| "type_of (JBool b) = (if b then GTrue else GFalse)"
| "type_of (JNum _) = GNumber"
| "type_of (JStr _) = GString"
| "type_of _ = GJSON"

definition result_of :: "json option \<Rightarrow> gjson_result" where
  "result_of r =
     (let v = or_zero_value JNull r; raw = (if r = None then [] else marshal_text v) in
      \<lparr>gr_Exists = (r \<noteq> None), gr_Type = type_of v, gr_Raw = raw,
       gr_Num = (case v of JNum x \<Rightarrow> x | _ \<Rightarrow> Fin 0 0), gr_String = (case v of JStr s \<Rightarrow> s | JNull \<Rightarrow> [] | _ \<Rightarrow> raw),
       gr_Value = v, gr_IsArray = (case v of JArr _ \<Rightarrow> True | _ \<Rightarrow> False), gr_Array = (case v of JArr vs \<Rightarrow> vs | _ \<Rightarrow> [])\<rparr>)"

definition parsed :: "gstr \<Rightarrow> json option" where
  "parsed t = (case (Unmarshal t :: ov_error + json) of Inr v \<Rightarrow> Some v | Inl _ \<Rightarrow> None)"

definition changed :: "(json \<Rightarrow> json) \<Rightarrow> gstr \<Rightarrow> ov_error + gstr" where
  "changed f t = (case parsed t of Some v \<Rightarrow> Inr (marshal_text (f v)) | None \<Rightarrow> Inl (LibraryError t))"

definition sample_go :: go_env where
  "sample_go =
     \<lparr>ge_lower = (\<lambda>c. if 65 \<le> c \<and> c \<le> 90 then c + 32 else c),
      ge_upper = (\<lambda>c. if 97 \<le> c \<and> c \<le> 122 then c - 32 else c),
      ge_fold = (\<lambda>c d. c = d \<or> 65 \<le> c \<and> c \<le> 90 \<and> d = c + 32 \<or> 65 \<le> d \<and> d \<le> 90 \<and> c = d + 32),
      ge_range = (\<lambda>ob. ob),
      ge_regexp = (\<lambda>_. None),
      ge_DebugEnabled = False,
      ge_gjson_Get = (\<lambda>t p. result_of (case parsed t of Some v \<Rightarrow> lookup_path v (split_char 46 p) | None \<Rightarrow> None)),
      ge_gjson_Parse = (\<lambda>t. result_of (parsed t)),
      ge_type_name = (\<lambda>_. []),
      ge_sjson_Set = (\<lambda>t p v. changed (store_path (split_char 46 p) v) t),
      ge_sjson_SetRaw = (\<lambda>t p raw. changed (store_path (split_char 46 p) (or_zero_value JNull (parsed raw))) t),
      ge_sjson_Delete = (\<lambda>t p. changed (remove_path (split_char 46 p)) t)\<rparr>"

lemma sample_go_case: "ge_lower sample_go c = (if 65 \<le> c \<and> c \<le> 90 then c + 32 else c)" "ge_fold sample_go c c" "ge_range sample_go ob = ob"
  by (simp_all add: sample_go_def)

end
