(* ===== verification/Override_Runs.thy ===== *)
theory Override_Runs
  imports Override_Headers Override_Sample "HOL-Library.Multiset"
begin

text \<open>
  Whole runs of override rules.  What every rule keeps is stated once, in the locale
  \<open>run_invariant\<close>: a property that survives a change of the body, a line in the log, and a change of
  the headers followed by marshalling the context.  Three invariants are instances: the marshalled
  context is never stale, the headers to send stay clean, and the log has no repetitions.
\<close>

section \<open>Invariants of a run\<close>

lemma snd_skip_missing [simp]: "snd (skip_missing r) = snd r"
  by (simp add: skip_missing_def)

lemma failed_operation_Inr [simp]: "failed_operation op r = Inr y \<longleftrightarrow> r = Inr y"
  by (cases r) (auto simp: failed_operation_def)

locale run_invariant =
  fixes E :: go_env and I :: "ov_state \<Rightarrow> bool"
  assumes body_change: "I st \<Longrightarrow> I (st\<lparr>st_body := b\<rparr>)"
    and log_change: "I st \<Longrightarrow> I (log_op E mode path from to v st)"
    and context_change: "I st \<Longrightarrow> header_changes E (st_context st) ctx \<Longrightarrow> marshalContextJSON ctx = Inr t \<Longrightarrow>
      I (st\<lparr>st_context := ctx, st_contextJSON := t\<rparr>)"
begin

lemma change_body_inv: "I st \<Longrightarrow> change_body E mode path from to v f st = Inr st' \<Longrightarrow> I st'"
  by (cases "f (st_body st)") (auto simp: change_body_def intro: body_change log_change)

lemma at_paths_inv: "I st \<Longrightarrow> at_paths E mode from to v f paths st = Inr st' \<Longrightarrow> I st'"
  unfolding at_paths_def by (rule each_inv [where I = I]) (auto intro: change_body_inv)

lemma set_paths_inv: "I st \<Longrightarrow> each (set_path E op) paths st = Inr st' \<Longrightarrow> I st'"
  by (rule each_inv [where I = I]) (auto simp: set_path_def split: if_splits intro: change_body_inv)

lemma prune_path_inv: "I st \<Longrightarrow> prune_path E op path st = Inr st' \<Longrightarrow> I st'"
  by (cases "pruneObjects E (st_body st) path (st_contextJSON st) (pa_Value op)")
    (auto simp: prune_path_def intro: body_change)

lemma prune_paths_inv: "I st \<Longrightarrow> each (prune_path E op) paths st = Inr st' \<Longrightarrow> I st'"
  by (rule each_inv [where I = I]) (auto intro: prune_path_inv)

lemma refresh_inv:
  assumes "I st" "header_changes E (st_context st) ctx"
    and "refresh_context (log_op E mode path from to v (st\<lparr>st_context := ctx\<rparr>)) = Inr st'"
  shows "I st'"
proof -
  obtain t where t: "marshalContextJSON ctx = Inr t" "st' = (log_op E mode path from to v st)\<lparr>st_context := ctx, st_contextJSON := t\<rparr>"
    using assms(3) by (cases "marshalContextJSON ctx") (auto simp: refresh_context_def log_op_def)
  show ?thesis
    unfolding t(2) using assms(1,2) t(1) by (intro context_change log_change) (simp_all add: log_op_def)
qed

lemma change_context_inv:
  assumes "I st" "\<And>c. header_changes E c (snd (f c))" "change_context E mode path from to v f st = Inr st'"
  shows "I st'"
proof -
  obtain ctx where "f (st_context st) = (None, ctx)"
      "refresh_context (log_op E mode path from to v (st\<lparr>st_context := ctx\<rparr>)) = Inr st'"
    using assms(3) by (cases "f (st_context st)") (auto simp: change_context_def split: option.splits)
  then show ?thesis using refresh_inv [OF assms(1)] assms(2) [of "st_context st"] by simp
qed

lemma sync_fields_inv:
  assumes "I st" "sync_fields E op st = Inr st'"
  shows "I st'"
proof -
  obtain b ctx where f: "syncFieldsBetweenTargets E (st_body st) (st_context st) (pa_From op) (pa_To op) = (Inr b, ctx)"
    "refresh_context (log_op E ''sync_fields'' [] (pa_From op) (pa_To op) JNull (st\<lparr>st_body := b\<rparr>\<lparr>st_context := ctx\<rparr>)) = Inr st'"
    using assms(2)
    by (cases "syncFieldsBetweenTargets E (st_body st) (st_context st) (pa_From op) (pa_To op)")
      (auto simp: sync_fields_def split: sum.splits)
  show ?thesis
    using refresh_inv [OF body_change [OF assms(1)] _ f(2)]
      sync_changes [of E "st_context st" "st_body st" "pa_From op" "pa_To op"] f(1) by simp
qed

lemma perform_inv: "I st \<Longrightarrow> perform_operation E op paths names st = Some (Inr st') \<Longrightarrow> I st'"
proof -
  assume I: "I st" and p: "perform_operation E op paths names st = Some (Inr st')"
  have "path_operation E op paths st = Some (Inr st') \<or> transfer_operation E op st = Some (Inr st') \<or>
      header_operation E op names st = Some (Inr st')"
    using p by (auto simp: perform_operation_def first_some_def split: option.splits)
  then show ?thesis
  proof (elim disjE)
    assume "path_operation E op paths st = Some (Inr st')"
    then show ?thesis
      using at_paths_inv [OF I] set_paths_inv [OF I] prune_paths_inv [OF I]
      by (simp add: path_operation_def Let_def split: if_splits)
  next
    assume "transfer_operation E op st = Some (Inr st')"
    then show ?thesis
      using change_body_inv [OF I] by (simp add: transfer_operation_def Let_def split: if_splits)
  next
    assume h: "header_operation E op names st = Some (Inr st')"
    show ?thesis
      using h by (auto simp: header_operation_def Let_def header_operation_changes split: if_splits
        dest: change_context_inv [OF I, rotated] sync_fields_inv [OF I])
  qed
qed

lemma step_inv: "I st \<Longrightarrow> applyOperation E op st = Inr st' \<Longrightarrow> I st'"
proof -
  assume I: "I st" and a: "applyOperation E op st = Inr st'"
  then have "st' = st \<or> (\<exists>paths. run_operation E op paths st = Inr st')"
    by (auto simp: applyOperation_def and_then_Inr split: if_splits)
  then show ?thesis
    using I perform_inv [OF I]
    by (auto simp: run_operation_def and_then_Inr split: option.splits)
qed

lemma run_inv: "I st \<Longrightarrow> each (applyOperation E) ops st = Inr st' \<Longrightarrow> I st'"
  by (rule each_inv [where I = I]) (auto intro: step_inv)

end

section \<open>The marshalled context is current\<close>

definition context_current :: "ov_state \<Rightarrow> bool" where
  "context_current st \<longleftrightarrow> marshalContextJSON (st_context st) = Inr (st_contextJSON st)"

interpretation cur: run_invariant E context_current for E
  by unfold_locales (simp_all add: context_current_def log_op_def)

lemma start_current: "start_state b ctx r = Inr st \<Longrightarrow> context_current st"
  by (auto simp: start_state_def context_current_def split: sum.splits)

lemma restart_current: "context_current st \<Longrightarrow> start_state (st_body st) (st_context st) (st_recorder st) = Inr st"
  by (simp add: start_state_def context_current_def)

text \<open>C10: Running a list of rules equals running a first part and then, with the body, the context and the log it left, the
  rest.  Nothing else is carried from rule to rule: the JSON text of the context that conditions read is always the one of
  the current context.\<close>

theorem runs_compose:
  "applyOperations E body (xs @ ys) ctx r =
     and_then (applyOperations E body xs ctx r) (\<lambda>st. applyOperations E (st_body st) ys (st_context st) (st_recorder st))"
proof (cases "start_state body ctx r")
  case (Inr st0)
  show ?thesis
  proof (cases "each (applyOperation E) xs st0")
    case (Inr st)
    then have "context_current st" using cur.run_inv start_current \<open>start_state body ctx r = Inr st0\<close> by blast
    then show ?thesis
      using \<open>start_state body ctx r = Inr st0\<close> Inr by (simp add: applyOperations_def each_append restart_current)
  qed (simp add: applyOperations_def each_append Inr)
qed (simp add: applyOperations_def)

section \<open>The log\<close>

definition log_ok :: "recorder \<Rightarrow> bool" where
  "log_ok r = (case r of None \<Rightarrow> True | Some ls \<Rightarrow> distinct ls \<and> [] \<notin> set ls)"

lemma record_ok: "log_ok r \<Longrightarrow> log_ok (recordOperation E mode path from to v r)"
  by (auto simp: log_ok_def recordOperation_def Let_def split: option.splits)

interpretation aud: run_invariant E "\<lambda>st. log_ok (st_recorder st)" for E
  by unfold_locales (simp_all add: log_op_def record_ok)

section \<open>The headers to send\<close>

text \<open>What is used of the case tables of package unicode: lower case is stable and keeps white space.\<close>

definition unicode_ok :: "go_env \<Rightarrow> bool" where
  "unicode_ok E \<longleftrightarrow> (\<forall>c. ge_lower E (ge_lower E c) = ge_lower E c \<and> go_space (ge_lower E c) = go_space c)"

text \<open>A loop over a map visits every entry once.\<close>

definition map_order_ok :: "go_env \<Rightarrow> bool" where
  "map_order_ok E \<longleftrightarrow> (\<forall>ob. mset (ge_range E ob) = mset ob)"

lemma TrimSpace_map: "(\<And>c. go_space (f c) = go_space c) \<Longrightarrow> TrimSpace (map f s) = map f (TrimSpace s)"
  by (simp add: TrimSpace_def dropWhile_map o_def rev_map)

lemma normalize_twice: "unicode_ok E \<Longrightarrow> normalizeHeaderContextKey E (normalizeHeaderContextKey E s) = normalizeHeaderContextKey E s"
  by (simp add: normalizeHeaderContextKey_def ToLower_def TrimSpace_map unicode_ok_def)

fun clean_entry :: "go_env \<Rightarrow> gstr \<times> json \<Rightarrow> bool" where
  "clean_entry E (k, JStr s) \<longleftrightarrow>
     k \<noteq> [] \<and> normalizeHeaderContextKey E k = k \<and> TrimSpace s = s \<and> (s = [] \<longrightarrow> isHeaderPassthroughRuleKeyForOverride E k)"
| "clean_entry E _ = False"

definition clean_headers :: "go_env \<Rightarrow> json jobj \<Rightarrow> bool" where
  "clean_headers E m \<longleftrightarrow> distinct (map fst m) \<and> list_all (clean_entry E) m"

lemma clean_set: "clean_headers E m \<Longrightarrow> clean_entry E (k, v) \<Longrightarrow> clean_headers E (obj_set k v m)"
  using set_obj_set [of k v m] distinct_obj_set [of m k v] by (auto simp: clean_headers_def list_all_iff)

lemma clean_delete: "clean_headers E m \<Longrightarrow> clean_headers E (obj_delete k m)"
  using distinct_obj_delete [of m k] by (auto simp: clean_headers_def list_all_iff obj_delete_def)

definition headers_ok :: "go_env \<Rightarrow> ov_context \<Rightarrow> bool" where
  "headers_ok E ctx \<longleftrightarrow> unicode_ok E \<and> clean_headers E (header_map ctx)"

lemma change_headers_ok: "header_change E ctx ctx' \<Longrightarrow> headers_ok E ctx \<Longrightarrow> headers_ok E ctx'"
proof (induction rule: header_change.induct)
  case (make_map key ctx)
  then show ?case by (auto simp: headers_ok_def header_map_eq obj_get_set clean_headers_def split: option.splits json.splits)
next
  case (put_header h v ctx)
  then show ?case using clean_set [of E "header_map ctx" "normalizeHeaderContextKey E h" "JStr v"]
    by (auto simp: headers_ok_def normalize_twice)
next
  case (remove_header ctx name)
  then show ?case using clean_delete by (simp add: headers_ok_def)
qed

lemma changes_headers_ok: "header_changes E ctx ctx' \<Longrightarrow> headers_ok E ctx \<Longrightarrow> headers_ok E ctx'"
  by (induction rule: rtranclp_induct) (auto intro: change_headers_ok)

interpretation hdr: run_invariant E "\<lambda>st. headers_ok E (st_context st)" for E
  by unfold_locales (auto simp: log_op_def intro: changes_headers_ok)

lemma sanitize_entry_clean: "unicode_ok E \<Longrightarrow> clean_headers E m \<Longrightarrow> clean_headers E (sanitize_entry E e m)"
  by (auto simp: sanitize_entry_def Let_def normalize_twice intro!: clean_set)

lemma sanitize_clean: "unicode_ok E \<Longrightarrow> clean_headers E (sanitizeHeaderOverrideMap E m)"
proof -
  assume u: "unicode_ok E"
  have "clean_headers E acc \<Longrightarrow> clean_headers E (fold (sanitize_entry E) xs acc)" for xs acc
    by (induction xs arbitrary: acc) (auto intro: sanitize_entry_clean [OF u])
  then show ?thesis by (simp add: sanitizeHeaderOverrideMap_def clean_headers_def)
qed

lemma sanitize_entry_id: "clean_entry E (k, v) \<Longrightarrow> sanitize_entry E (k, v) m = obj_set k v m"
  by (cases v) (auto simp: sanitize_entry_def Let_def)

lemma fold_sets:
  "distinct (map fst xs) \<Longrightarrow>
   obj_get (fold (\<lambda>(k, v). obj_set k v) xs acc) k = (case map_of xs k of Some v \<Rightarrow> Some v | None \<Rightarrow> obj_get acc k)"
proof (induction xs arbitrary: acc)
  case (Cons x xs)
  obtain k' v' where x: "x = (k', v')" by (cases x)
  have "map_of xs k' = None" using Cons.prems by (simp add: x map_of_eq_None_iff)
  then show ?case using Cons by (simp add: x obj_get_set split: option.split)
qed simp

lemma map_of_perm: "distinct (map fst xs) \<Longrightarrow> mset ys = mset xs \<Longrightarrow> map_of ys = map_of xs \<and> distinct (map fst ys)"
proof -
  assume d: "distinct (map fst xs)" and m: "mset ys = mset xs"
  have "distinct (map fst ys)" using d m by (metis mset_eq_imp_distinct_iff mset_map)
  moreover have "set ys = set xs" using m by (rule mset_eq_setD)
  ultimately show ?thesis using d map_of_eq_Some_iff by (metis (no_types, lifting) option.exhaust ext)
qed

lemma range_sets:
  assumes "map_order_ok E" "distinct (map fst m)"
  shows "obj_get (fold (\<lambda>(k, v). obj_set k v) (ge_range E m) acc) k = (case obj_get m k of Some v \<Rightarrow> Some v | None \<Rightarrow> obj_get acc k)"
  using assms map_of_perm [OF assms(2), of "ge_range E m"] fold_sets [of "ge_range E m" acc k]
  by (simp add: map_order_ok_def obj_get_def)

text \<open>Sanitising headers that are clean changes nothing.\<close>

lemma sanitize_same:
  assumes "map_order_ok E" "clean_headers E m"
  shows "obj_get (sanitizeHeaderOverrideMap E m) k = obj_get m k"
proof -
  have "set (ge_range E m) = set m" using assms(1) mset_eq_setD by (auto simp: map_order_ok_def)
  then have "fold (sanitize_entry E) (ge_range E m) acc = fold (\<lambda>(k, v). obj_set k v) (ge_range E m) acc" for acc
    using assms(2) by (intro fold_cong) (auto simp: clean_headers_def list_all_iff sanitize_entry_id)
  then show ?thesis
    using range_sets [OF assms(1), of m "[]" k] assms(2)
    by (simp add: sanitizeHeaderOverrideMap_def clean_headers_def obj_get_def split: option.splits)
qed

section \<open>The entry points\<close>

lemma fold_record_ok: "log_ok r \<Longrightarrow> log_ok (fold (record_set E) es r)"
  by (induction es arbitrary: r) (auto simp: record_set_def record_ok)

lemma legacy_log: "applyOperationsLegacy E b po r = Inr (b', r') \<Longrightarrow> log_ok r \<Longrightarrow> log_ok r'"
  by (auto simp: applyOperationsLegacy_def and_then_Inr fold_record_ok split: option.splits if_splits)

text \<open>A successful call is a run of rules, or leaves the context as it is.\<close>

lemma apply_cases:
  assumes "ApplyParamOverride E b po ctx r = Inr (b', ctx', r')"
  obtains (same) "ctx' = ctx" "log_ok r \<Longrightarrow> log_ok r'"
  | (run) b1 ops r1 st where "applyOperations E b1 ops ctx r1 = Inr st" "ctx' = st_context st" "r' = st_recorder st" "log_ok r \<Longrightarrow> log_ok r1"
proof (cases "po = []")
  case True
  then show ?thesis using assms that(1) by (simp add: ApplyParamOverride_def)
next
  case False
  show ?thesis
  proof (cases "tryParseOperations E po")
    case None
    then show ?thesis
      using assms False that(1) legacy_log by (auto simp: ApplyParamOverride_def and_then_Inr)
  next
    case (Some ops)
    then obtain b1 r1 st where "(if buildLegacyParamOverride E po \<noteq> [] then applyOperationsLegacy E b (buildLegacyParamOverride E po) r else Inr (b, r)) = Inr (b1, r1)"
        "applyOperations E b1 ops ctx r1 = Inr st" "run_result st = (b', ctx', r')"
      using assms False by (auto simp: ApplyParamOverride_def Let_def and_then_Inr)
    then show ?thesis using that(2) [of b1 ops r1 st] legacy_log by (auto simp: run_result_def split: if_splits)
  qed
qed

context run_invariant
begin

lemma apply_inv:
  assumes "applyOperations E b ops ctx r = Inr st" "\<And>t. marshalContextJSON ctx = Inr t \<Longrightarrow> I \<lparr>st_body = b, st_context = ctx, st_contextJSON = t, st_recorder = r\<rparr>"
  shows "I st"
  using assms run_inv by (auto simp: applyOperations_def start_state_def and_then_Inr split: sum.splits)

end

definition has_header_map :: "ov_context \<Rightarrow> bool" where
  "has_header_map ctx = (case obj_get ctx HEADER_OVERRIDE of Some (JObj _) \<Rightarrow> True | _ \<Rightarrow> False)"

lemma changes_keep_map: "header_changes E ctx ctx' \<Longrightarrow> has_header_map ctx \<Longrightarrow> has_header_map ctx'"
  by (induction rule: rtranclp_induct)
    (auto simp: has_header_map_def set_header_map_def obj_get_set elim!: header_changeE split: option.splits json.splits)

interpretation pre: run_invariant E "\<lambda>st. has_header_map (st_context st)" for E
  by unfold_locales (auto simp: log_op_def intro: changes_keep_map)

lemma apply_headers:
  assumes "ApplyParamOverride E b po ctx r = Inr (b', ctx', r')"
  shows "headers_ok E ctx \<Longrightarrow> headers_ok E ctx'" "has_header_map ctx \<Longrightarrow> has_header_map ctx'" "log_ok r \<Longrightarrow> log_ok r'"
  using assms
  by (cases rule: apply_cases; auto dest: hdr.apply_inv pre.apply_inv aud.apply_inv)+

lemma start_headers:
  assumes "unicode_ok E"
  shows "headers_ok E (run_context E info)" "has_header_map (run_context E info)"
proof -
  have k: "obj_get (run_context E info) HEADER_OVERRIDE = Some (JObj (sanitizeHeaderOverrideMap E (GetEffectiveHeaderOverride E info)))"
    by (simp add: run_context_def BuildParamOverrideContext_def last_error_context_def HEADER_OVERRIDE_def REQUEST_HEADERS_def
        AUDIT_RECORDER_def Let_def obj_get_set split: option.split)
  then show "headers_ok E (run_context E info)" "has_header_map (run_context E info)"
    using assms sanitize_clean by (simp_all add: headers_ok_def header_map_eq has_header_map_def)
qed

text \<open>C4: The headers that a run of override rules leaves in its context are the ones the request is sent with.  After a
  successful call every header name has the value that the rules gave it, names are lower case and trimmed, values are
  trimmed and only empty for pass-through patterns, and the audit log contains no line twice.\<close>

theorem headers_reach_request:
  assumes "unicode_ok E" "map_order_ok E" "getParamOverrideMap info \<noteq> []"
    and run: "ApplyParamOverrideWithRelayInfo E body info = Inr (b, info')"
  shows "\<exists>ctx r. ApplyParamOverride E body (getParamOverrideMap info) (run_context E info) (run_recorder E info) = Inr (b, ctx, r) \<and>
     clean_headers E (header_map ctx) \<and>
     (\<forall>k. obj_get (GetEffectiveHeaderOverride E info') k = obj_get (header_map ctx) k) \<and>
     distinct (ri_ParamOverrideAudit info')"
proof -
  obtain ctx r where a: "ApplyParamOverride E body (getParamOverrideMap info) (run_context E info) (run_recorder E info) = Inr (b, ctx, r)"
    and i: "info' = (syncRuntimeHeaderOverrideFromContext E ctx info)\<lparr>ri_ParamOverrideAudit := or_zero_value [] r\<rparr>"
    using run assms(3) by (auto simp: ApplyParamOverrideWithRelayInfo_def Let_def and_then_Inr)
  have h: "headers_ok E ctx" "has_header_map ctx" "log_ok r"
    using apply_headers [OF a] start_headers [OF assms(1)] by (simp_all add: run_recorder_def log_ok_def)
  have c: "clean_headers E (header_map ctx)" using h(1) by (simp add: headers_ok_def)
  have "info' = info\<lparr>ri_RuntimeHeadersOverride := sanitizeHeaderOverrideMap E (header_map ctx), ri_UseRuntimeHeadersOverride := True,
      ri_ParamOverrideAudit := or_zero_value [] r\<rparr>"
    using h(2) by (auto simp: i syncRuntimeHeaderOverrideFromContext_def has_header_map_def header_map_eq split: option.splits json.splits)
  then have "obj_get (GetEffectiveHeaderOverride E info') k = obj_get (header_map ctx) k" for k
    using sanitize_same [OF assms(2) sanitize_clean [OF assms(1)]] sanitize_same [OF assms(2) c]
    by (simp add: GetEffectiveHeaderOverride_def)
  moreover have "distinct (ri_ParamOverrideAudit info')" using h(3) by (auto simp: i log_ok_def or_zero_value_def split: option.splits)
  ultimately show ?thesis using a c by blast
qed

lemma sample_env_ok: "unicode_ok sample_go" "map_order_ok sample_go"
  by (auto simp: unicode_ok_def map_order_ok_def sample_go_case go_space_def)

definition sample_info :: RelayInfo where
  "sample_info =
     \<lparr>ri_ChannelMeta = Some \<lparr>cm_ParamOverride = [(js ''operations'', JArr [JObj [(js ''mode'', JStr (js ''set_header'')),
          (js ''path'', JStr (js ''X-Model'')), (js ''value'', JStr (js '' gpt''))]])],
        cm_HeadersOverride = [], cm_UpstreamModelName = js ''gpt-4''\<rparr>,
      ri_OriginModelName = [], ri_RequestURLPath = [], ri_RequestHeaders = [], ri_RetryIndex = 0, ri_LastError = None,
      ri_IsChannelTest = False, ri_RuntimeHeadersOverride = [], ri_UseRuntimeHeadersOverride = False, ri_ParamOverrideAudit = []\<rparr>"

theorem headers_reach_request_witness:
  "\<exists>b info'. ApplyParamOverrideWithRelayInfo sample_go (js ''{}'') sample_info = Inr (b, info') \<and>
     obj_get (GetEffectiveHeaderOverride sample_go info') (js ''x-model'') = Some (JStr (js ''gpt'')) \<and> distinct (ri_ParamOverrideAudit info')"
proof -
  obtain b info' where r: "ApplyParamOverrideWithRelayInfo sample_go (js ''{}'') sample_info = Inr (b, info')"
    "obj_get (GetEffectiveHeaderOverride sample_go info') (js ''x-model'') = Some (JStr (js ''gpt''))"
  proof -
    have "case ApplyParamOverrideWithRelayInfo sample_go (js ''{}'') sample_info of
        Inr (b, info') \<Rightarrow> obj_get (GetEffectiveHeaderOverride sample_go info') (js ''x-model'') = Some (JStr (js ''gpt'')) | Inl _ \<Rightarrow> False"
      by code_simp
    then show ?thesis using that by (auto split: sum.splits prod.splits)
  qed
  have "getParamOverrideMap sample_info \<noteq> []" by code_simp
  from headers_reach_request [OF sample_env_ok this r(1)] r show ?thesis by blast
qed

end
