(* ===== verification/Override_Bridge.thy ===== *)
theory Override_Bridge
  imports Param_Override_Drafts Override_Runs
begin

text \<open>
  From the parameter override editor of the browser to the override engine of the server: the text
  the editor saves, as the server decodes and runs it.
\<close>

section \<open>Text on both sides\<close>

text \<open>
  Both sides trim the same characters except U+0085, which only the server trims, and U+FEFF, which
  only the browser trims.  A text without surrogates and without U+0085 arrives as it was written.
\<close>

definition server_text :: "jstr \<Rightarrow> bool" where
  "server_text s \<longleftrightarrow> list_all (\<lambda>c. \<not> hi_surr c \<and> \<not> lo_surr c \<and> c \<noteq> 0x85) s"

fun server_json :: "json \<Rightarrow> bool" where
  "server_json (JStr s) = server_text s"
| "server_json (JArr vs) = list_all server_json vs"
| "server_json (JObj ob) = list_all (\<lambda>(k, v). server_text k \<and> server_json v) ob"
| "server_json v = True"

lemma runes_server: "server_text s \<Longrightarrow> runes s = s"
  by (rule runes_plain) (auto simp: server_text_def list_all_iff)

lemma server_text_sub: "server_text s \<Longrightarrow> set t \<subseteq> set s \<Longrightarrow> server_text t"
  by (auto simp: server_text_def list_all_iff)

lemma server_text_trim: "server_text s \<Longrightarrow> server_text (trim s)"
  using server_text_sub set_trim by blast

lemma space_server: "go_space c \<Longrightarrow> c \<noteq> 0x85 \<Longrightarrow> is_ws c"
  by (auto simp: go_space_def is_ws_def)

lemma TrimSpace_trimmed:
  assumes "trimmed s" "server_text s"
  shows "TrimSpace s = s"
proof (cases "s = []")
  case False
  then have "hd s \<noteq> 0x85" "last s \<noteq> 0x85"
    using assms(2) hd_in_set [OF False] last_in_set [OF False] by (auto simp: server_text_def list_all_iff)
  then show ?thesis using assms(1) False space_server by (intro gtrim.strip_fixed) (auto simp: trimmed_def)
qed simp

lemma TrimSpace_trim: "server_text s \<Longrightarrow> TrimSpace (trim s) = trim s"
  by (simp add: TrimSpace_trimmed server_text_trim)

subsection \<open>Printed text\<close>

definition simple_chars :: "jstr \<Rightarrow> bool" where
  "simple_chars s \<longleftrightarrow> list_all (\<lambda>c. \<not> hi_surr c \<and> \<not> lo_surr c) s"

lemma simple_append [simp]: "simple_chars (s @ t) \<longleftrightarrow> simple_chars s \<and> simple_chars t"
  by (simp add: simple_chars_def)

lemma simple_Cons [simp]: "simple_chars (c # s) \<longleftrightarrow> \<not> hi_surr c \<and> \<not> lo_surr c \<and> simple_chars s"
  by (auto simp: simple_chars_def)

lemma simple_Nil [simp]: "simple_chars []"
  by (simp add: simple_chars_def)

lemma simple_sub: "simple_chars s \<Longrightarrow> set t \<subseteq> set s \<Longrightarrow> simple_chars t"
  by (auto simp: simple_chars_def list_all_iff)

lemma simple_js [simp]: "simple_chars (js s)"
proof -
  have "\<not> hi_surr (of_char c) \<and> \<not> lo_surr (of_char c)" for c
    unfolding hi_surr_def lo_surr_def using nat_of_char_less_256 [of c] by linarith
  then show ?thesis by (simp add: simple_chars_def list_all_iff js_def)
qed

lemma simple_nat_str [simp]: "simple_chars (nat_str n)"
  using nat_str_digits by (fastforce simp: simple_chars_def list_all_iff hi_surr_def lo_surr_def is_digit_def)

lemma simple_join: "simple_chars sep \<Longrightarrow> list_all simple_chars xs \<Longrightarrow> simple_chars (join sep xs)"
  by (induction sep xs rule: join.induct) auto

lemma simple_layout: "simple_chars ds \<Longrightarrow> simple_chars (layout ds n)"
proof -
  assume ds: "simple_chars ds"
  have "simple_chars (take k ds)" "simple_chars (drop k ds)" for k
    using simple_sub [OF ds] set_take_subset set_drop_subset by metis+
  moreover have "simple_chars (replicate k 48)" for k
    by (simp add: simple_chars_def list_all_iff hi_surr_def lo_surr_def)
  ultimately show ?thesis using ds by (simp add: layout_def exp_str_def)
qed

lemma simple_num_str [simp]: "simple_chars (num_str x)"
proof -
  have d: "simple_chars (digits_layout r)" for r by (cases r) (simp add: simple_layout)
  then have "simple_chars (pos_str m e)" for m e by (simp add: pos_str_def d split: prod.splits) (cases "frac m e"; simp add: d)
  then show ?thesis by (cases x) auto
qed

lemma simple_quote_char: "\<not> hi_surr c \<Longrightarrow> \<not> lo_surr c \<Longrightarrow> simple_chars (quote_char c)"
  by (auto simp: quote_char_def unicode_escape_def hex_digit_def hi_surr_def lo_surr_def)

lemma simple_quote: "server_text s \<Longrightarrow> simple_chars (json_quote s)"
proof -
  have "simple_chars (quote_body s)" if "server_text s"
    using that by (induction s rule: quote_body.induct) (auto simp: server_text_def simple_quote_char)
  then show "server_text s \<Longrightarrow> simple_chars (json_quote s)" by (simp add: json_quote_def)
qed

lemma simple_pretty: "server_json v \<Longrightarrow> simple_chars ind \<Longrightarrow> simple_chars (pretty ind v)"
proof (induction v arbitrary: ind)
  case (JArr vs)
  then show ?case
    by (auto simp: block_def deeper_def list_all_iff hi_surr_def lo_surr_def intro!: simple_join)
next
  case (JObj ob)
  then show ?case
    by (fastforce simp: block_def deeper_def list_all_iff hi_surr_def lo_surr_def simple_quote prod_set_simps intro!: simple_join)
qed (auto simp: simple_quote simp del: num_str.simps)

lemma runes_pretty: "server_json v \<Longrightarrow> runes (JSON_pretty v) = JSON_pretty v"
  using simple_pretty [of v "[]"] by (intro runes_plain) (simp add: JSON_pretty_def simple_chars_def)

lemma json_runes_id: "json_wf v \<Longrightarrow> server_json v \<Longrightarrow> json_runes v = v"
proof (induction v)
  case (JArr vs)
  then show ?case by (simp add: list_all_iff map_idI)
next
  case (JObj ob)
  have "map (\<lambda>(k, v). (runes k, json_runes v)) ob = ob"
    using JObj by (intro map_idI) (fastforce simp: list_all_iff prod_set_simps runes_server)
  then show ?case using JObj.prems by (simp add: obj_wf_def)
qed (auto simp: runes_server)

lemma in_range: "json_wf v \<Longrightarrow> \<not> out_of_range v \<and> drop_out_of_range v = v"
proof (induction v)
  case (JArr vs)
  then show ?case by (auto simp: list_all_iff list_ex_iff map_idI)
next
  case (JObj ob)
  then show ?case by (auto simp: list_all_iff list_ex_iff prod_set_simps intro!: map_idI)
qed (auto simp: num_ok_def)

lemma decode_pretty:
  assumes "json_wf v" "server_json v" "json_depth v \<le> 10000"
  shows "decode (runes (JSON_pretty v)) = Some (v, False)"
  using indented.parse_print [OF assms(1)] json_runes_id [OF assms(1,2)] in_range [OF assms(1)] assms(2,3)
  by (simp add: decode_def runes_pretty)

section \<open>Saved rules\<close>

text \<open>The rule that the server runs for a rule of the editor.\<close>

definition served_condition :: "po_condition \<Rightarrow> ConditionOperation" where
  "served_condition c =
     \<lparr>co_Path = trim (c_path c), co_Mode = c_mode c, co_Value = parseLooseValue (c_value_text c),
      co_Invert = c_invert c, co_PassMissingKey = c_pass_missing_key c\<rparr>"

definition served_conditions :: "po_operation \<Rightarrow> ConditionOperation list" where
  "served_conditions x = map served_condition (filter (\<lambda>c. trim (c_path c) \<noteq> []) (o_conditions x))"

definition served_rule :: "po_operation \<Rightarrow> ParamOperation" where
  "served_rule x =
     (let meta = meta_of (o_mode x) in
      \<lparr>pa_Path = (if m_path meta \<or> m_pathOptional meta then trim (o_path x) else []),
       pa_Mode = o_mode x,
       pa_Value = (if m_value meta then parseLooseValue (o_value_text x) else JNull),
       pa_KeepOrigin = (m_keepOrigin meta \<and> o_keep_origin x),
       pa_From = (if m_from meta then alias_end x (o_from x) else []),
       pa_To = alias_end x (o_to x),
       pa_Conditions = served_conditions x,
       pa_Logic = (if served_conditions x = [] then js ''OR'' else o_logic x)\<rparr>)"

lemma server_json_get: "obj_get ob k = Some v \<Longrightarrow> server_json (JObj ob) \<Longrightarrow> server_json v"
  unfolding obj_get_def using map_of_SomeD by (fastforce simp: list_all_iff)

lemma condition_parsed:
  assumes m: "c_mode c \<in> set CONDITION_MODE_VALUES" and p: "buildConditionPayload c = Some v" and s: "server_json v"
  shows "parse_condition v = Inr (served_condition c)"
proof -
  have ne: "c_mode c \<noteq> []" using m by (auto simp: CONDITION_MODE_VALUES_def CONDITION_MODE_OPTIONS_def js_def)
  obtain Q where Q: "v = JObj Q" "trim (c_path c) \<noteq> []"
    "obj_get Q (js ''path'') = Some (JStr (trim (c_path c)))" "obj_get Q (js ''mode'') = Some (JStr (c_mode c))"
    "obj_get Q (js ''value'') = Some (parseLooseValue (c_value_text c))"
    "obj_get Q (js ''invert'') = (if c_invert c then Some (JBool True) else None)"
    "obj_get Q (js ''pass_missing_key'') = (if c_pass_missing_key c then Some (JBool True) else None)"
    using p m by (auto simp: buildConditionPayload_def Let_def obj_gets ne
        split: if_splits)
  have "TrimSpace (trim (c_path c)) = trim (c_path c)"
    using server_json_get [OF Q(3)] s Q(1) by (intro TrimSpace_trimmed) auto
  moreover have "list_all (\<lambda>m. TrimSpace m \<noteq> []) CONDITION_MODE_VALUES" by code_simp
  then have "TrimSpace (c_mode c) \<noteq> []" using m by (simp add: list_all_iff)
  ultimately show ?thesis
    using Q by (simp add: parse_condition_def str_at_def bool_at_def or_zero_value_def served_condition_def)
qed

lemma conditions_parsed:
  "list_all (\<lambda>c. c_mode c \<in> set CONDITION_MODE_VALUES) cs \<Longrightarrow> list_all server_json (List.map_filter buildConditionPayload cs) \<Longrightarrow>
   collect parse_condition (List.map_filter buildConditionPayload cs) = Inr (map served_condition (filter (\<lambda>c. trim (c_path c) \<noteq> []) cs))"
proof (induction cs)
  case (Cons c cs)
  show ?case
  proof (cases "buildConditionPayload c")
    case None
    then have "trim (c_path c) = []" by (auto simp: buildConditionPayload_def Let_def split: if_splits)
    then show ?thesis using Cons None by (simp add: List.map_filter_simps)
  next
    case (Some v)
    then have "trim (c_path c) \<noteq> []" by (auto simp: buildConditionPayload_def Let_def)
    then show ?thesis using Cons Some condition_parsed [OF _ Some] by (simp add: List.map_filter_simps)
  qed
qed (simp add: List.map_filter_simps)

lemma no_conditions: "List.map_filter buildConditionPayload cs = [] \<longleftrightarrow> filter (\<lambda>c. trim (c_path c) \<noteq> []) cs = []"
  by (induction cs) (auto simp: List.map_filter_simps buildConditionPayload_def Let_def)

lemma rule_parsed:
  assumes x: "op_wf x" and s: "server_json (operation_payload x)"
  shows "parse_operation E (operation_payload x) = Some (served_rule x)"
proof -
  let ?cs = "List.map_filter buildConditionPayload (o_conditions x)"
  obtain Q where Q: "operation_payload x = JObj Q" by (simp add: operation_payload_eq)
  have other: "obj_get Q k = obj_get (payload_of x) k" if "k \<noteq> js ''logic''" "k \<noteq> js ''conditions''" for k
    using operation_payload_gets [OF that, of x] Q by (simp add: prop_of_def)
  have base: "obj_get Q k = obj_get (base_payload x) k" if "k \<noteq> js ''from''" "k \<noteq> js ''to''" "k \<noteq> js ''logic''" "k \<noteq> js ''conditions''" for k
    using other [OF that(3,4)] payload_gets(3) [OF x that(1,2)] by simp
  have c: "obj_get Q (js ''conditions'') = (if ?cs = [] then None else Some (JArr ?cs))"
    "obj_get Q (js ''logic'') = (if ?cs = [] then None else Some (JStr (o_logic x)))"
    using Q x payload_gets(3) [OF x, of "js ''conditions''"] payload_gets(3) [OF x, of "js ''logic''"] base_gets(8,9) [OF x]
    by (auto simp: operation_payload_eq Let_def obj_gets op_wf_def)
  have modes: "list_all (\<lambda>c. c_mode c \<in> set CONDITION_MODE_VALUES) (o_conditions x)" using x by (simp add: op_wf_def)
  have "?cs \<noteq> [] \<Longrightarrow> server_json (JArr ?cs)" using server_json_get [of Q "js ''conditions''"] c s Q by simp
  then have "collect parse_condition ?cs = Inr (served_conditions x)"
    using conditions_parsed [OF modes] no_conditions [of "o_conditions x"] by (cases "?cs = []") (simp_all add: served_conditions_def)
  then have "parsed_conditions E Q = Some (served_conditions x)"
    using no_conditions [of "o_conditions x"]
    by (auto simp: parsed_conditions_def c parseConditionOperations_def served_conditions_def)
  moreover have "obj_get Q (js ''from'') = (if m_from (meta_of (o_mode x)) then Some (JStr (alias_end x (o_from x))) else None)"
    "obj_get Q (js ''to'') = (if m_to (meta_of (o_mode x)) = Some True \<or> trim (o_to x) \<noteq> [] then Some (JStr (alias_end x (o_to x))) else None)"
    using payload_gets(1,2) [OF x] by (simp_all add: other)
  moreover have "m_to (meta_of (o_mode x)) \<noteq> Some True \<Longrightarrow> trim (o_to x) = [] \<Longrightarrow> alias_end x (o_to x) = []"
    using meta_alias [of "o_mode x"] by (auto simp: alias_end_def)
  moreover have "(?cs = []) = (served_conditions x = [])" using no_conditions by (simp add: served_conditions_def)
  ultimately show ?thesis
    using Q by (simp add: parse_operation_def base base_gets [OF x] c str_at_def bool_at_def or_zero_value_def served_rule_def Let_def)
qed

lemma those_map: "(\<And>x. x \<in> set xs \<Longrightarrow> f x = Some (g x)) \<Longrightarrow> those (map f xs) = Some (map g xs)"
  by (induction xs) auto

text \<open>C3: What the visual editor saves is what the server runs.  The stored text decodes to a list of rules, one for every
  rule that is not blank, with the mode, trimmed path, ends, value, options and conditions the editor shows, and no part of
  it is applied in the legacy form; the request is changed by running exactly these rules in order.  The text must not
  contain surrogates or U+0085, and not nest deeper than the server decodes.\<close>

theorem saved_rules_served:
  assumes "reachable env st" and "editMode st = Visual" "visualMode st = Operations"
    and "\<And>k l. tr env k l \<noteq> []" and "save_result env st = Inr s" "s \<noteq> []"
    and wf: "json_wf (operations_json (filled_operations (operations st)))"
    and sj: "server_json (operations_json (filled_operations (operations st)))"
    and d: "json_depth (operations_json (filled_operations (operations st))) \<le> 10000"
    and refl: "\<And>c. ge_fold E c c"
  shows "tryParseOperations E (GetParamOverride (Some (runes s))) = Some (map served_rule (filled_operations (operations st))) \<and>
    ApplyParamOverride E body (GetParamOverride (Some (runes s))) ctx r =
       and_then (applyOperations E body (map served_rule (filled_operations (operations st))) ctx r) (\<lambda>st'. Inr (run_result st'))"
proof -
  let ?ops = "filled_operations (operations st)" and ?J = "operations_json (filled_operations (operations st))"
  note sv = saved_rules [OF assms(1-6)]
  have "decode (runes s) = Some (?J, False)" using decode_pretty [OF wf sj d] sv(1) by simp
  moreover have "runes s \<noteq> []" using indented.print_ne [OF wf] runes_pretty [OF sj] sv(1) by simp
  ultimately have g: "GetParamOverride (Some (runes s)) = [(js ''operations'', JArr (map operation_payload ?ops))]"
    by (simp add: GetParamOverride_def operations_json_def)
  have "x \<in> set ?ops \<Longrightarrow> server_json (operation_payload x)" for x
    using sj by (simp add: operations_json_def list_all_iff)
  then have p: "tryParseOperations E (GetParamOverride (Some (runes s))) = Some (map served_rule ?ops)"
    using those_map [of ?ops "\<lambda>x. parse_operation E (operation_payload x)" served_rule] rule_parsed sv(3)
    by (simp add: g tryParseOperations_def obj_get_def o_def)
  have "TrimSpace (js ''operations'') = js ''operations''" by code_simp
  then have "buildLegacyParamOverride E (GetParamOverride (Some (runes s))) = []"
    using refl by (simp add: g buildLegacyParamOverride_def EqualFold_def list_all2_same)
  then have "ApplyParamOverride E body (GetParamOverride (Some (runes s))) ctx r =
       and_then (applyOperations E body (map served_rule ?ops) ctx r) (\<lambda>st'. Inr (run_result st'))"
    using p by (simp add: ApplyParamOverride_def g)
  with p show ?thesis ..
qed

lemma sample_served:
  "server_json (operations_json (filled_operations (operations sample_rule_state)))"
  "json_depth (operations_json (filled_operations (operations sample_rule_state))) \<le> 10000"
  by code_simp+

theorem saved_rules_served_witness:
  "tryParseOperations sample_go (GetParamOverride (Some (runes sample_saved))) =
     Some (map served_rule (filled_operations (operations sample_rule_state))) \<and>
   length (filled_operations (operations sample_rule_state)) = 1"
proof -
  have "length (filled_operations (operations sample_rule_state)) = 1" by code_simp
  moreover have "\<And>k l. tr sample_env k l \<noteq> []" by (simp add: sample_env_def js_def)
  ultimately show ?thesis
    using saved_rules_served [OF sample_facts(1-3) _ sample_facts(4-6) sample_served sample_go_case(2)] by blast
qed

section \<open>Modes\<close>

lemma mode_cases:
  "perform_operation E op paths names st = None \<longleftrightarrow> pa_Mode op \<notin> set OPERATION_MODE_VALUES - {js ''return_error''}"
  by (simp add: perform_operation_def first_some_def path_operation_def transfer_operation_def header_operation_def Let_def
      OPERATION_MODE_VALUES_def OPERATION_MODE_OPTIONS_def)

lemma pass_names_error: "parseHeaderPassThroughNames E v = Inl e \<Longrightarrow> e \<noteq> Errorf ''unknown operation: %s'' as"
proof (induction E v rule: parseHeaderPassThroughNames.induct)
  case (1 E v)
  show ?case
  proof (cases v)
    case (JStr raw)
    then show ?thesis
      using "1.prems" "1.IH"(1) [OF JStr]
      by (subst (asm) parseHeaderPassThroughNames.simps) (auto simp: valid_names_def split: if_splits option.splits)
  qed (use "1.prems" in \<open>subst (asm) parseHeaderPassThroughNames.simps, auto simp: valid_names_def Let_def split: if_splits\<close>)+
qed

lemma early_return_error: "early_return op = Some e \<Longrightarrow> e \<noteq> Errorf ''unknown operation: %s'' as"
  by (auto simp: early_return_def parseParamOverrideReturnError_def error_fields_def error_status_of_def
      split: if_splits sum.splits json.splits option.splits elim!: and_then.elims)

text \<open>C36: The editor offers exactly the modes that the server knows: a rule whose conditions hold is refused as unknown if and
  only if its mode is not in the editor's list.\<close>

theorem modes_agree:
  "run_operation E op paths st = Inl (Errorf ''unknown operation: %s'' [pa_Mode op]) \<longleftrightarrow> pa_Mode op \<notin> set OPERATION_MODE_VALUES"
proof (cases "pa_Mode op \<in> set OPERATION_MODE_VALUES")
  case False
  then have "early_return op = None" "header_names E op = Inr []"
    by (auto simp: early_return_def header_names_def OPERATION_MODE_VALUES_def OPERATION_MODE_OPTIONS_def)
  then show ?thesis using False mode_cases [of E op paths "[]" st] by (simp add: run_operation_def)
next
  case True
  have "run_operation E op paths st \<noteq> Inl (Errorf ''unknown operation: %s'' [pa_Mode op])"
  proof (cases "early_return op")
    case None
    then have m: "perform_operation E op paths names st \<noteq> None" for names
      using True mode_cases [of E op paths names st] by (auto simp: early_return_def split: if_splits)
    show ?thesis
    proof (cases "header_names E op")
      case (Inl e)
      then show ?thesis
        using None pass_names_error by (auto simp: run_operation_def header_names_def split: if_splits)
    next
      case (Inr names)
      then obtain r where "perform_operation E op paths names st = Some r" using m [of names] by auto
      then show ?thesis using None Inr by (cases r) (auto simp: run_operation_def failed_operation_def)
    qed
  qed (use early_return_error in \<open>simp add: run_operation_def\<close>)
  then show ?thesis using True by simp
qed

end
