(* ===== verification/Override_Drafts.thy ===== *)
theory Override_Drafts
  imports Override_Bridge
begin

text \<open>
  The special editors of the parameter override dialog and what the server makes of the values they
  write: custom errors up to the response the client gets, synchronised fields, passed headers and
  object pruning.
\<close>

section \<open>Custom errors\<close>

definition draft_status :: "ReturnErrorDraft \<Rightarrow> int" where
  "draft_status d = (case float_int (status_or_400 (re_statusCode d)) of Some i \<Rightarrow> i | None \<Rightarrow> 0)"

lemma num_100: "num_of_nat 100 = Fin 25 2" and num_599: "num_of_nat 599 = Fin 599 0" and num_400: "num_of_nat 400 = Fin 25 4"
  by code_simp+

lemma status_int: "float_int (status_or_400 x) = Some i \<Longrightarrow> 100 \<le> i \<and> i \<le> 599" "\<exists>i. float_int (status_or_400 x) = Some i"
proof -
  have "\<exists>i. float_int (status_or_400 x) = Some i \<and> 100 \<le> i \<and> i \<le> 599"
  proof (cases "num_isInteger x \<and> \<not> num_less x (num_of_nat 100) \<and> \<not> num_less (num_of_nat 599) x")
    case True
    then obtain m e where x: "x = Fin m e" "0 \<le> e" by (cases x) auto
    let ?v = "m * 2 ^ nat e"
    have hi: "?v \<le> 599" using True x by (simp add: num_599 over2_def)
    have lo: "100 \<le> ?v"
    proof (cases "e \<le> 2")
      case True': True
      have "25 * 2 ^ nat (2 - e) \<le> m" using True x True' by (simp add: num_100 over2_def)
      then have "25 * 2 ^ nat (2 - e) * 2 ^ nat e \<le> ?v" by (intro mult_right_mono) auto
      moreover have "(2 :: int) ^ nat (2 - e) * 2 ^ nat e = 2 ^ 2"
      proof -
        have "nat (2 - e) + nat e = 2" using True' x(2) by simp
        then show ?thesis by (metis power_add)
      qed
      ultimately show ?thesis by (simp add: mult.assoc)
    next
      case False
      then have "25 \<le> m * 2 ^ nat (e - 2)" using True x by (simp add: num_100 over2_def)
      moreover have "(2 :: int) ^ nat e = 2 ^ nat (e - 2) * 4"
      proof -
        have "nat e = nat (e - 2) + 2" using False by simp
        then show ?thesis by (simp add: power_add)
      qed
      ultimately show ?thesis by simp
    qed
    have "status_or_400 x = x" using True by (simp add: status_or_400_def)
    then show ?thesis using x lo hi by (auto simp: Let_def)
  next
    case False
    then have "status_or_400 x = num_of_nat 400" unfolding status_or_400_def by (rule if_not_P)
    then show ?thesis by (simp add: num_400 Let_def)
  qed
  then show "float_int (status_or_400 x) = Some i \<Longrightarrow> 100 \<le> i \<and> i \<le> 599" "\<exists>i. float_int (status_or_400 x) = Some i" by auto
qed

lemma draft_status_int: "float_int (status_or_400 (re_statusCode d)) = Some (draft_status d)" "100 \<le> draft_status d" "draft_status d \<le> 599"
  using status_int [of "re_statusCode d"] by (auto simp: draft_status_def)

definition text_or :: "jstr \<Rightarrow> string \<Rightarrow> jstr" where
  "text_or s d = (if trim s = [] then js d else trim s)"

definition served_error :: "ReturnErrorDraft \<Rightarrow> ParamOverrideReturnError" where
  "served_error d =
     (if re_simpleMode d then error_base\<lparr>er_Message := trim (re_message d)\<rparr>
      else \<lparr>er_Message = trim (re_message d), er_StatusCode = draft_status d,
        er_Code = text_or (re_code d) ''invalid_request'', er_Type = text_or (re_type d) ''invalid_request_error'',
        er_SkipRetry = re_skipRetry d\<rparr>)"

definition draft_text_ok :: "ReturnErrorDraft \<Rightarrow> bool" where
  "draft_text_ok d \<longleftrightarrow> server_text (re_message d) \<and> server_text (re_code d) \<and> server_text (re_type d) \<and> trim (re_message d) \<noteq> []"

lemma error_payload_served:
  assumes "draft_text_ok d" "\<not> re_simpleMode d"
  shows "error_fields (JObj (error_payload d)) = Inr (served_error d)"
proof -
  note t = TrimSpace_trim [of "re_message d"] TrimSpace_trim [of "re_code d"] TrimSpace_trim [of "re_type d"]
  have "error_status_of (error_payload d) = Inr (draft_status d)"
    by (simp add: error_status_of_def error_payload_def Let_def obj_gets parseOverrideInt_def draft_status_int)
  moreover have "error_message_of (error_payload d) = trim (re_message d)"
    using assms t by (simp add: error_message_of_def str_at_def or_zero_value_def error_payload_def Let_def obj_gets draft_text_ok_def)
  moreover have "error_code_of (error_payload d) = text_or (re_code d) ''invalid_request''"
    using assms t by (simp add: error_code_of_def error_base_def text_or_def error_payload_def Let_def obj_gets draft_text_ok_def)
  moreover have "error_type_of (error_payload d) = text_or (re_type d) ''invalid_request_error''"
    using assms t by (simp add: error_type_of_def str_at_def or_zero_value_def error_base_def text_or_def error_payload_def Let_def obj_gets draft_text_ok_def)
  moreover have "or_zero_value True (bool_at (error_payload d) ''skip_retry'') = re_skipRetry d"
    by (simp add: bool_at_def or_zero_value_def error_payload_def Let_def obj_gets)
  ultimately show ?thesis using assms(2) by (simp add: error_fields_def served_error_def)
qed

lemma served_value:
  assumes "draft_text_ok d" and "re_simpleMode d \<Longrightarrow> JSON_parse (trim (re_message d)) = None"
    and "\<not> re_simpleMode d \<Longrightarrow> json_wf (JObj (error_payload d))"
  shows "parseParamOverrideReturnError (parseLooseValue (buildReturnErrorValueText d)) =
     (if 511 < er_StatusCode (served_error d)
      then Inl (Errorf ''return_error status code out of range: %d'' [int_str (er_StatusCode (served_error d))])
      else Inr (served_error d))"
proof -
  have "error_fields (parseLooseValue (buildReturnErrorValueText d)) = Inr (served_error d)"
  proof (cases "re_simpleMode d")
    case True
    then have "parseLooseValue (buildReturnErrorValueText d) = JStr (trim (re_message d))"
      using assms(2) by (simp add: buildReturnErrorValueText_def parseLooseValue_def Let_def)
    then show ?thesis
      using True assms(1) TrimSpace_trim [of "re_message d"] by (simp add: error_fields_def served_error_def draft_text_ok_def)
  next
    case False
    then have "parseLooseValue (buildReturnErrorValueText d) = JObj (error_payload d)"
      using assms(3) loose_printed [of "JObj (error_payload d)"] by (simp add: buildReturnErrorValueText_def del: JSON_stringify.simps)
    then show ?thesis using error_payload_served [OF assms(1) False] by simp
  qed
  moreover have "er_Message (served_error d) \<noteq> []" "100 \<le> er_StatusCode (served_error d)"
    using assms(1) draft_status_int [of d] by (simp_all add: served_error_def error_base_def draft_text_ok_def)
  ultimately show ?thesis by (simp add: parseParamOverrideReturnError_def)
qed

lemma or_text_served:
  assumes "server_text s"
  shows "or_text (text_or s ''invalid_request'') ''invalid_request'' = text_or s ''invalid_request''"
    and "or_text (text_or s ''invalid_request_error'') ''invalid_request_error'' = text_or s ''invalid_request_error''"
proof -
  have "TrimSpace (js ''invalid_request'') \<noteq> []" "TrimSpace (js ''invalid_request_error'') \<noteq> []" by code_simp+
  then show "or_text (text_or s ''invalid_request'') ''invalid_request'' = text_or s ''invalid_request''"
    "or_text (text_or s ''invalid_request_error'') ''invalid_request_error'' = text_or s ''invalid_request_error''"
    using TrimSpace_trim [OF assms] by (simp_all add: or_text_def text_or_def)
qed


definition sample_error_draft :: ReturnErrorDraft where
  "sample_error_draft = \<lparr>re_message = js ''no quota '', re_statusCode = num_of_nat 520, re_code = [], re_type = js ''limit'',
     re_skipRetry = False, re_simpleMode = False\<rparr>"

definition sample_error_rule :: "ReturnErrorDraft \<Rightarrow> ParamOperation" where
  "sample_error_rule d = \<lparr>pa_Path = [], pa_Mode = js ''return_error'', pa_Value = parseLooseValue (buildReturnErrorValueText d),
     pa_KeepOrigin = False, pa_From = [], pa_To = [], pa_Conditions = [], pa_Logic = js ''OR''\<rparr>"

definition sample_override_state :: ov_state where
  "sample_override_state = \<lparr>st_body = js ''{}'', st_context = [], st_contextJSON = [], st_recorder = None\<rparr>"


section \<open>Synchronised fields\<close>

text \<open>What is used of lower case for the two kinds of target.\<close>

definition lower_ascii :: "go_env \<Rightarrow> bool" where
  "lower_ascii E \<longleftrightarrow> (\<forall>c < 128. ge_lower E c = (if 65 \<le> c \<and> c \<le> 90 then c + 32 else c))"

lemma lower_kinds:
  assumes "lower_ascii E"
  shows "ToLower E (js ''json'') = js ''json''" "ToLower E (js ''header'') = js ''header''"
  using assms by (simp_all add: ToLower_def js_lit lower_ascii_def)

text \<open>C39: A synchronisation target that the editor builds is read by the server as the type chosen and the trimmed key, the way
  the editor reads it back; without a key the server refuses the rule.\<close>

theorem sync_target_served:
  assumes "lower_ascii E" "server_text key"
  shows "parseSyncTarget E (buildSyncTargetSpec type key) =
     (if trim key = [] then Inl (Errorf ''sync_fields target is required'' [])
      else Inr (if type = js ''header'' then js ''header'' else js ''json'', trim key))"
proof (cases "trim key = []")
  case True
  then show ?thesis by (simp add: buildSyncTargetSpec_def parseSyncTarget_def TrimSpace_def)
next
  case False
  let ?t = "if type = js ''header'' then js ''header'' else js ''json''" and ?s = "buildSyncTargetSpec type key"
  have s: "?s = ?t @ 58 # trim key" using False by (simp add: buildSyncTargetSpec_def js_lit)
  have k: "TrimSpace (trim key) = trim key" by (rule TrimSpace_trim [OF assms(2)])
  then have "\<not> go_space (last (trim key))" using gtrim.strip_ends [of key] gtrim.strip_ends [of "trim key"] False by simp
  then have "\<not> go_space (hd ?s) \<and> \<not> go_space (last ?s)" using False by (simp add: s js_lit go_space_def hd_append)
  then have raw: "TrimSpace ?s = ?s" by (simp add: gtrim.strip_fixed)
  have "58 \<notin> set ?t" by (simp add: js_lit)
  then have i: "index_of ?s (js '':'') = Some (length ?t)" unfolding s using index_of_first [of 58 ?t "trim key"] by (simp add: js_lit)
  have t: "TrimSpace ?t = ?t" by (rule gtrim.strip_fixed) (simp add: js_lit go_space_def)
  have "take (length ?t) ?s = ?t" "drop (length ?t + 1) ?s = trim key" by (simp_all add: s)
  then show ?thesis
    using raw i t k False lower_kinds [OF assms(1)] by (simp add: parseSyncTarget_def Let_def s)
qed

theorem sync_target_served_witness:
  "parseSyncTarget sample_go (buildSyncTargetSpec (js ''header'') (js '' session_id'')) = Inr (js ''header'', js ''session_id'')"
proof -
  have "lower_ascii sample_go" by (simp add: lower_ascii_def sample_go_case)
  moreover have "server_text (js '' session_id'')" "trim (js '' session_id'') = js ''session_id''" by code_simp+
  ultimately show ?thesis using sync_target_served [of sample_go "js '' session_id''" "js ''header''"] by (simp add: js_lit)
qed

end
