(* ===== verification/Override_Prune.thy ===== *)
theory Override_Prune
  imports Override_Drafts
begin

text \<open>
  Object pruning: the walk of the server is the plain filter that removes the objects that satisfy
  the conditions, whatever order it visits the members in; and a pruning draft of the editor
  means for the server what the editor shows.
\<close>

section \<open>The filter\<close>

fun dropped :: "(json jobj \<Rightarrow> bool) \<Rightarrow> json \<Rightarrow> bool" where
  "dropped matching (JObj ob) = matching ob"
| "dropped matching _ = False"

fun pruned :: "(json jobj \<Rightarrow> bool) \<Rightarrow> bool \<Rightarrow> json \<Rightarrow> json" where
  "pruned matching recursive (JArr vs) = JArr (map (pruned matching recursive) (filter (\<lambda>v. \<not> dropped matching v) vs))"
| "pruned matching recursive (JObj ob) =
     (if recursive then JObj (map (\<lambda>(k, v). (k, pruned matching recursive v)) (filter (\<lambda>(k, v). \<not> dropped matching v) ob))
      else JObj ob)"
| "pruned matching recursive v = v"

fun objects_of :: "json \<Rightarrow> json jobj list" where
  "objects_of (JArr vs) = concat (map objects_of vs)"
| "objects_of (JObj ob) = ob # concat (map (\<lambda>(k, v). objects_of v) ob)"
| "objects_of _ = []"

lemma collect_Inl: "collect f xs = Inl e \<Longrightarrow> \<exists>x \<in> set xs. f x = Inl e"
proof (induction xs)
  case (Cons x xs)
  then show ?case by (cases "f x"; cases "collect f xs") auto
qed simp

lemma collect_Inr: "collect f xs = Inr ys \<Longrightarrow> list_all2 (\<lambda>x y. f x = Inr y) xs ys"
proof (induction xs arbitrary: ys)
  case (Cons x xs)
  then show ?case by (cases "f x"; cases "collect f xs") auto
qed simp

lemma kept_items:
  "list_all2 (\<lambda>x y. y = (if d x then None else Some (g x))) xs ys \<Longrightarrow>
   List.map_filter id ys = map g (filter (\<lambda>x. \<not> d x) xs)"
  by (induction xs ys rule: list_all2_induct) (auto simp: List.map_filter_simps)

lemma kept_members:
  "(\<And>k v. (k, v) \<in> set ob \<Longrightarrow> f v = Inr (if d v then None else Some (g v))) \<Longrightarrow>
   List.map_filter kept_member (map (\<lambda>(k, v). (k, f v)) ob) = map (\<lambda>(k, v). (k, g v)) (filter (\<lambda>(k, v). \<not> d v) ob)"
proof (induction ob)
  case (Cons p ob)
  obtain k v where p: "p = (k, v)" by (cases p)
  have "f v = Inr (if d v then None else Some (g v))" using Cons.prems [of k v] by (simp add: p)
  then have "kept_member (k, f v) = (if d v then None else Some (k, g v))" by (simp add: kept_member_def)
  moreover have "List.map_filter kept_member (map (\<lambda>(k, v). (k, f v)) ob) = map (\<lambda>(k, v). (k, g v)) (filter (\<lambda>(k, v). \<not> d v) ob)"
    by (rule Cons.IH, rule Cons.prems, auto)
  ultimately show ?case by (simp add: p List.map_filter_simps)
qed (simp add: List.map_filter_simps)

text \<open>The members are all visited, in any order.\<close>

lemma members_cases:
  assumes "mset ks = mset (map fst ob)" "distinct (map fst ob)"
  shows "case members_result ks (map (\<lambda>(k, v). (k, f v)) ob) of
     Inl e \<Rightarrow> \<exists>(k, v) \<in> set ob. f v = Inl e
   | Inr out \<Rightarrow> (\<forall>(k, v) \<in> set ob. \<exists>y. f v = Inr y) \<and> out = List.map_filter kept_member (map (\<lambda>(k, v). (k, f v)) ob)"
proof (cases "collect (member_error (map (\<lambda>(k, v). (k, f v)) ob)) ks")
  case (Inl e)
  then obtain k where "member_error (map (\<lambda>(k, v). (k, f v)) ob) k = Inl e" using collect_Inl by metis
  then have "(k, Inl e) \<in> set (map (\<lambda>(k, v). (k, f v)) ob)"
    by (auto simp: member_error_def split: option.splits sum.splits dest!: map_of_SomeD)
  then obtain v where "(k, v) \<in> set ob" "f v = Inl e" by auto
  then show ?thesis using Inl by (auto simp: members_result_def intro!: bexI [of _ "(k, v)"])
next
  case (Inr us)
  have "\<exists>y. f v = Inr y" if "(k, v) \<in> set ob" for k v
  proof -
    have "k \<in> set ks" using that mset_eq_setD [OF assms(1)] by force
    then have "member_error (map (\<lambda>(k, v). (k, f v)) ob) k = Inr ()"
      using collect_Inr [OF Inr] by (auto simp: list_all2_conv_all_nth in_set_conv_nth)
    moreover have "map_of (map (\<lambda>(k, v). (k, f v)) ob) k = Some (f v)"
      using that assms(2) by (simp add: map_of_map)
    ultimately show ?thesis by (cases "f v") (auto simp: member_error_def)
  qed
  then show ?thesis using Inr by (auto simp: members_result_def)
qed

fun keys_distinct :: "json \<Rightarrow> bool" where
  "keys_distinct (JArr vs) = list_all keys_distinct vs"
| "keys_distinct (JObj ob) = (distinct (map fst ob) \<and> list_all (\<lambda>(k, v). keys_distinct v) ob)"
| "keys_distinct _ = True"

text \<open>What the walk does with one node.\<close>

definition node_result_ok :: "(json jobj \<Rightarrow> ov_error + bool) \<Rightarrow> bool \<Rightarrow> bool \<Rightarrow> json \<Rightarrow> ov_error + json option \<Rightarrow> bool" where
  "node_result_ok check recursive isRoot v r =
     (let d = (\<lambda>ob. check ob = Inr True) in
      case r of
        Inl e \<Rightarrow> \<exists>ob \<in> set (objects_of v). check ob = Inl e
      | Inr x \<Rightarrow> x = (if \<not> isRoot \<and> dropped d v then None else Some (pruned d recursive v)))"

lemma node_result_Inl: "node_result_ok check r isRoot v (Inl e) \<longleftrightarrow> (\<exists>ob \<in> set (objects_of v). check ob = Inl e)"
  by (simp add: node_result_ok_def)

lemma node_result_Inr:
  "node_result_ok check r isRoot v (Inr x) \<longleftrightarrow>
     x = (if \<not> isRoot \<and> dropped (\<lambda>ob. check ob = Inr True) v then None else Some (pruned (\<lambda>ob. check ob = Inr True) r v))"
  by (simp add: node_result_ok_def)

lemma array_result_ok:
  assumes "\<And>v. v \<in> set vs \<Longrightarrow> node_result_ok check r False v (f v)"
  shows "node_result_ok check r isRoot (JArr vs) (and_then (collect f vs) (\<lambda>results. Inr (Some (JArr (List.map_filter id results)))))"
proof (cases "collect f vs")
  case (Inl e)
  then obtain v where "v \<in> set vs" "f v = Inl e" using collect_Inl by metis
  then show ?thesis using assms [of v] Inl by (auto simp: node_result_Inl)
next
  case (Inr ys)
  let ?d = "\<lambda>ob. check ob = Inr True"
  have "y = (if dropped ?d v then None else Some (pruned ?d r v))" if "v \<in> set vs" "f v = Inr y" for v y
    using assms [OF that(1)] that(2) by (simp add: node_result_Inr)
  then have "list_all2 (\<lambda>v y. y = (if dropped ?d v then None else Some (pruned ?d r v))) vs ys"
    using collect_Inr [OF Inr] by (simp add: list_all2_conv_all_nth)
  then show ?thesis using Inr kept_items by (fastforce simp: node_result_Inr)
qed

lemma object_result_ok:
  assumes "\<And>k v. (k, v) \<in> set ob \<Longrightarrow> node_result_ok check True False v (f v)"
    and "mset ks = mset (map fst ob)" "distinct (map fst ob)" "\<not> (\<not> isRoot \<and> check ob = Inr True)"
  shows "node_result_ok check True isRoot (JObj ob)
     (and_then (members_result ks (map (\<lambda>(k, v). (k, f v)) ob)) (\<lambda>members. Inr (Some (JObj members))))"
proof (cases "members_result ks (map (\<lambda>(k, v). (k, f v)) ob)")
  case (Inl e)
  then obtain k v where "(k, v) \<in> set ob" "f v = Inl e" using members_cases [OF assms(2,3), of f] by auto
  then show ?thesis using assms(1) [of k v] Inl by (force simp: node_result_Inl)
next
  case (Inr out)
  let ?d = "\<lambda>ob. check ob = Inr True"
  have ok: "\<exists>y. f v = Inr y" if "(k, v) \<in> set ob" for k v
    using members_cases [OF assms(2,3), of f] Inr that by auto
  have "f v = Inr (if dropped ?d v then None else Some (pruned ?d True v))" if "(k, v) \<in> set ob" for k v
    using assms(1) [OF that] ok [OF that] by (auto simp: node_result_Inr)
  then have "out = map (\<lambda>(k, v). (k, pruned ?d True v)) (filter (\<lambda>(k, v). \<not> dropped ?d v) ob)"
    using members_cases [OF assms(2,3), of f] Inr kept_members [of ob f "dropped ?d" "pruned ?d True"] by auto
  then show ?thesis using Inr assms(4) by (auto simp: node_result_Inr)
qed

lemma prune_node:
  assumes "map_order_ok E"
  shows "keys_distinct v \<Longrightarrow>
     node_result_ok (\<lambda>ob. shouldPruneObject E ob options contextJSON) (pr_recursive options) isRoot v
       (pruneObjectsNode E options contextJSON isRoot v)"
proof (induction v arbitrary: isRoot)
  case (JArr vs)
  then show ?case by (simp add: array_result_ok list_all_iff)
next
  case (JObj ob)
  let ?c = "\<lambda>ob. shouldPruneObject E ob options contextJSON"
  have IH: "node_result_ok ?c (pr_recursive options) False v (pruneObjectsNode E options contextJSON False v)" if "(k, v) \<in> set ob" for k v
    using JObj.IH [of "(k, v)" v False] JObj.prems that by (auto simp: list_all_iff)
  have ks: "mset (obj_keys (ge_range E ob)) = mset (map fst ob)" using assms by (simp add: map_order_ok_def obj_keys_def)
  show ?case
  proof (cases "?c ob")
    case (Inl e)
    then show ?thesis by (simp add: node_result_Inl)
  next
    case (Inr b)
    show ?thesis
    proof (cases "b \<and> \<not> isRoot \<or> \<not> pr_recursive options")
      case True
      then show ?thesis using Inr by (auto simp: node_result_Inr)
    next
      case False
      then show ?thesis using Inr object_result_ok [OF _ ks, of ?c _ isRoot] IH JObj.prems by auto
    qed
  qed
qed (simp_all add: node_result_Inr)

section \<open>The whole body\<close>

lemma keys_distinct_runes: "keys_distinct (json_runes v)"
proof (induction v)
  case (JObj ob)
  let ?ps = "map (\<lambda>(k, v). (runes k, json_runes v)) ob"
  have "distinct (map fst m) \<Longrightarrow> list_all (\<lambda>(k, v). keys_distinct v) m \<Longrightarrow> list_all (\<lambda>(k, v). keys_distinct v) ps \<Longrightarrow>
     distinct (map fst (fold (\<lambda>(k, v). obj_set k v) ps m)) \<and> list_all (\<lambda>(k, v). keys_distinct v) (fold (\<lambda>(k, v). obj_set k v) ps m)" for ps m
  proof (induction ps arbitrary: m)
    case (Cons p ps)
    obtain k v where p: "p = (k, v)" by (cases p)
    have "list_all (\<lambda>(k, v). keys_distinct v) (obj_set k v m)"
      using Cons.prems set_obj_set [of k v m] by (auto simp: p list_all_iff)
    then show ?case using Cons distinct_obj_set [of m k v] by (simp add: p)
  qed simp
  moreover have "list_all (\<lambda>(k, v). keys_distinct v) ?ps" using JObj by (fastforce simp: list_all_iff)
  ultimately show ?case by simp
qed (simp_all add: list_all_iff)

lemma keys_distinct_drop: "keys_distinct (drop_out_of_range v) = keys_distinct v"
proof (induction v)
  case (JObj ob)
  then show ?case by (fastforce simp: list_all_iff o_def case_prod_beta)
qed (auto simp: list_all_iff)

lemma drop_in_range: "\<not> out_of_range (drop_out_of_range v)"
proof (induction v)
  case (JObj ob)
  then show ?case by (fastforce simp: list_ex_iff)
qed (auto simp: list_ex_iff)

lemma Unmarshal_ok:
  assumes "Unmarshal s = Inr v"
  shows "keys_distinct v" "\<not> out_of_range v"
proof -
  obtain w where "v = drop_out_of_range (json_runes w)"
    using assms by (auto simp: Unmarshal_def decode_def split: option.splits if_splits)
  then show "keys_distinct v" "\<not> out_of_range v" by (simp_all add: keys_distinct_drop keys_distinct_runes drop_in_range)
qed

lemma pruned_in_range: "\<not> out_of_range v \<Longrightarrow> \<not> out_of_range (pruned d r v)"
proof (induction v)
  case (JObj ob)
  then have "\<not> out_of_range (pruned d r v)" if "(k, v) \<in> set ob" for k v
    using that by (auto simp: list_ex_iff prod_set_simps)
  then show ?case using JObj.prems by (auto simp: list_ex_iff)
qed (auto simp: list_ex_iff)

text \<open>C8: Pruning the whole body removes exactly the objects that satisfy the conditions: every object held by an array or, when
  pruning is recursive, by another object, but never the body itself; everything else keeps its place and value, whatever
  order Go visits the members of an object in.  When a condition cannot be evaluated on some object of the body, that
  error is the result.\<close>

theorem pruning_is_filter:
  assumes "map_order_ok E" "(Unmarshal body :: ov_error + json) = Inr root" "parsePruneObjectsOptions E v = Inr options"
  shows "case pruneObjects E body [] contextJSON v of
     Inl e \<Rightarrow> \<exists>ob \<in> set (objects_of root). shouldPruneObject E ob options contextJSON = Inl e
   | Inr t \<Rightarrow> t = marshal_text (pruned (\<lambda>ob. shouldPruneObject E ob options contextJSON = Inr True) (pr_recursive options) root)"
proof -
  note u = Unmarshal_ok [OF assms(2)]
  note n = prune_node [OF assms(1) u(1), of options contextJSON True]
  have run: "pruneObjects E body [] contextJSON v = cleaned_text E options contextJSON root"
    using assms(2,3) by (simp add: pruneObjects_def)
  show ?thesis
  proof (cases "pruneObjectsNode E options contextJSON True root")
    case (Inl e)
    then show ?thesis using n by (simp add: run cleaned_text_def node_result_Inl)
  next
    case (Inr r)
    then show ?thesis
      using n pruned_in_range [OF u(2)] by (simp add: run cleaned_text_def node_result_Inr Marshal_def or_zero_value_def)
  qed
qed

definition sample_prune_body :: gstr where
  "sample_prune_body = js ''[{\"type\":\"a\"},{\"b\":{\"type\":\"a\"}}]''"

definition sample_prune_root :: json where
  "sample_prune_root = JArr [JObj [(js ''type'', JStr (js ''a''))], JObj [(js ''b'', JObj [(js ''type'', JStr (js ''a''))])]]"

definition sample_prune_options :: pruneObjectsOptions where
  "sample_prune_options = \<lparr>pr_conditions = [full_condition (js ''type'') (JStr (js ''a''))], pr_logic = js ''AND'', pr_recursive = True\<rparr>"

theorem pruning_is_filter_witness:
  "pruned (\<lambda>ob. shouldPruneObject sample_go ob sample_prune_options [] = Inr True) True sample_prune_root = JArr [JObj []] \<and>
   pruneObjects sample_go sample_prune_body [] [] (JStr (js ''a'')) = Inr (js ''[{}]'')"
proof -
  let ?o = "sample_prune_options" and ?p = "\<lambda>ob. shouldPruneObject sample_go ob sample_prune_options [] = Inr True"
  have "map_order_ok sample_go" using sample_env_ok by simp
  moreover have "(Unmarshal sample_prune_body :: ov_error + json) = Inr sample_prune_root"
    "parsePruneObjectsOptions sample_go (JStr (js ''a'')) = Inr ?o"
    by code_simp+
  ultimately have c: "case pruneObjects sample_go sample_prune_body [] [] (JStr (js ''a'')) of
       Inl e \<Rightarrow> \<exists>ob \<in> set (objects_of sample_prune_root). shouldPruneObject sample_go ob ?o [] = Inl e
     | Inr t \<Rightarrow> t = marshal_text (pruned ?p (pr_recursive ?o) sample_prune_root)"
    using pruning_is_filter by blast
  have s: "shouldPruneObject sample_go [(js ''type'', JStr (js ''a''))] ?o [] = Inr True"
    "shouldPruneObject sample_go [(js ''b'', JObj [(js ''type'', JStr (js ''a''))])] ?o [] = Inr False"
    by code_simp+
  have p: "pruned ?p True sample_prune_root = JArr [JObj []]" using s by (simp add: sample_prune_root_def)
  have "\<not> (\<exists>ob \<in> set (objects_of sample_prune_root). shouldPruneObject sample_go ob ?o [] = Inl e)" for e
    using s by (simp add: sample_prune_root_def)
  then show ?thesis using c p by (auto simp: sample_prune_options_def js_lit split: sum.splits)
qed

section \<open>Drafts of the editor\<close>

definition served_prune_condition :: "PruneRule \<Rightarrow> ConditionOperation" where
  "served_prune_condition c =
     \<lparr>co_Path = trim (c_path c), co_Mode = (if c_mode c \<in> set CONDITION_MODE_VALUES then c_mode c else js ''full''),
      co_Value = (if trim (c_value_text c) = [] then JNull else parseLooseValue (trim (c_value_text c))),
      co_Invert = c_invert c, co_PassMissingKey = c_pass_missing_key c\<rparr>"

definition served_prune_options :: "PruneObjectsDraft \<Rightarrow> pruneObjectsOptions" where
  "served_prune_options d =
     \<lparr>pr_conditions =
        (if pd_simpleMode d then [] else map served_prune_condition (filter (\<lambda>c. trim (c_path c) \<noteq> []) (pd_rules d))) @
        (if trim (pd_typeText d) = [] then [] else [full_condition (js ''type'') (JStr (trim (pd_typeText d)))]),
      pr_logic = js (if \<not> pd_simpleMode d \<and> ascii_upper (pd_logic d) = js ''OR'' then ''OR'' else ''AND''),
      pr_recursive = (pd_simpleMode d \<or> pd_recursive d)\<rparr>"

definition prune_text_ok :: "PruneObjectsDraft \<Rightarrow> bool" where
  "prune_text_ok d \<longleftrightarrow> server_text (pd_typeText d) \<and> list_all (\<lambda>c. server_text (c_path c)) (pd_rules d)"

lemma collect_mapped: "collect f (map g xs) = collect (\<lambda>x. f (g x)) xs"
  by (induction xs) auto

lemma rule_payload_parsed:
  assumes "server_text (c_path c)" "trim (c_path c) \<noteq> []"
  shows "parse_condition (rule_payload c) = Inr (served_prune_condition c)"
proof -
  let ?m = "if c_mode c \<in> set CONDITION_MODE_VALUES then c_mode c else js ''full''"
  have "list_all (\<lambda>m. TrimSpace m \<noteq> []) CONDITION_MODE_VALUES" "TrimSpace (js ''full'') \<noteq> []" by code_simp+
  then have m: "TrimSpace ?m \<noteq> []" by (simp add: list_all_iff)
  obtain Q where "rule_payload c = JObj Q"
    "obj_get Q (js ''path'') = Some (JStr (trim (c_path c)))" "obj_get Q (js ''mode'') = Some (JStr ?m)"
    "obj_get Q (js ''value'') = (if trim (c_value_text c) = [] then None else Some (parseLooseValue (trim (c_value_text c))))"
    "obj_get Q (js ''invert'') = (if c_invert c then Some (JBool True) else None)"
    "obj_get Q (js ''pass_missing_key'') = (if c_pass_missing_key c then Some (JBool True) else None)"
    by (simp add: rule_payload_def Let_def obj_gets)
  then show ?thesis
    using m assms TrimSpace_trim [OF assms(1)]
    by (simp add: parse_condition_def str_at_def bool_at_def or_zero_value_def served_prune_condition_def)
qed

lemma prune_payload_parsed:
  assumes "prune_text_ok d"
  shows "prune_options_of E (prune_payload d) = Inr (served_prune_options (d\<lparr>pd_simpleMode := False\<rparr>))"
proof -
  let ?cs = "filter (\<lambda>c. trim (c_path c) \<noteq> []) (pd_rules d)"
  have cs: "collect parse_condition (prune_conditions (pd_rules d)) = Inr (map served_prune_condition ?cs)"
    unfolding prune_conditions_def collect_mapped using assms
    by (intro collect_map rule_payload_parsed) (auto simp: prune_text_ok_def list_all_iff)
  have l: "ascii_upper (js ''AND'') \<noteq> js ''OR''" "ascii_upper [] \<noteq> js ''OR''" "TrimSpace (js ''OR'') \<noteq> []" by code_simp+
  have g: "obj_get (prune_payload d) (js ''conditions'') = (if ?cs = [] then None else Some (JArr (prune_conditions (pd_rules d))))"
    "obj_get (prune_payload d) (js ''recursive'') = (if pd_recursive d then None else Some (JBool False))"
    "obj_get (prune_payload d) (js ''logic'') = (if ascii_upper (pd_logic d) = js ''OR'' then Some (JStr (js ''OR'')) else None)"
    "obj_get (prune_payload d) (js ''type'') = (if trim (pd_typeText d) = [] then None else Some (JStr (trim (pd_typeText d))))"
    "obj_get (prune_payload d) (js ''where'') = None"
    using l by (auto simp: prune_payload_def Let_def obj_gets prune_conditions_def)
  show ?thesis
    by (simp add: prune_options_of_def where_conditions_def served_prune_options_def str_at_def bool_at_def or_zero_value_def
        parseConditionOperations_def g cs l(3))
qed


definition sample_prune_draft :: "jstr \<Rightarrow> PruneObjectsDraft" where
  "sample_prune_draft path = \<lparr>pd_simpleMode = False, pd_typeText = [], pd_logic = js ''or'', pd_recursive = False,
     pd_rules = [\<lparr>c_id = [], c_path = path, c_mode = js ''prefix'', c_value_text = js ''red'', c_invert = True, c_pass_missing_key = False\<rparr>]\<rparr>"


end
