(* ===== verification/Spec2Isabelle.thy ===== *)
theory Spec2Isabelle
  imports Http_Status_Rules Billing_Rules Tier_Logs Status_Code_Guard Model_Mapping Playground_Stream Channel_Utils
    Channel_Form_Rules Sidebar_Config Override_Prune
begin

text \<open>
  \<^bold>\<open>The program.\<close>  deeprouter is a gateway in front of providers of language models.  A server written in Go relays
  requests, counts usage and keeps channels (one account at one provider), users and settings; web/default is the
  administration and chat interface in TypeScript; web/classic is an older interface.  What the administrator edits is
  mostly small languages stored as text: status code rules, billing expressions, model mappings, JSON settings and
  parameter override rules.  The interface parses such a text into a form, edits the form and prints it again, and the
  server reads the text.  This development models these parsers, printers, editors and state machines and proves that
  they fit together, and where they do not.

  \<^bold>\<open>Foundations.\<close>
  \<^item> Js_Prelude: strings as lists of UTF-16 code units, trimming, splitting, joining, sets in insertion order, decimal
    printing.
  \<^item> Js_Number: IEEE 754 binary64 numbers with exact rounding, reading and shortest printing.
  \<^item> Js_Json: JSON values, \<open>JSON.parse\<close> and \<open>JSON.stringify\<close>, properties in enumeration order; the locale
    \<open>property_map\<close> is the contract of objects and \<open>JSON_roundtrip\<close> that of the printer.
  \<^item> Js_Values: \<open>String\<close>, \<open>Number\<close>, \<open>parseInt\<close>, object spread, indented printing; the locale \<open>json_printer\<close> is what
    the editors need of a printer, and both printers are instances.
  \<^item> Js_Regex: regular expressions as data with the backtracking matcher, and the first-match calculus by which the
    component theories compute what a pattern captures.
  \<^item> Js_Expr: the JavaScript expressions that the price estimator compiles: tokens, operator precedence, conditional,
    evaluation; and how texts, tokens and expressions compose.
  \<^item> Go_Values: Go strings as code points, trimming, printing of values, \<open>encoding/json\<close> in both directions, errors that
    wrap other errors, loops that stop at the first error.  The locale \<open>trimming\<close> of Js_Prelude serves both languages.

  \<^bold>\<open>Components\<close> (paths below src/web/default/src/ unless they name a Go file).
  \<^item> Http_Status_Rules: lib/http-status-code-rules.ts and the scan of setting/operation_setting/status_code_ranges.go.
    A rule text is accepted exactly when its tokens are, the ranges are canonical, and the server's scan agrees.
  \<^item> Billing_Expr, Billing_Match, Billing_Rules: request rules of features/pricing/lib/billing-expr.ts.  The parser
    inverts the printer on the groups the editor builds, joining and splitting base and rules are inverse, and the
    texts the parser refuses or throws on are described.
  \<^item> Billing_Tiers, Tier_Match, Tier_Rules: tiers of billing-expr.ts and the visual editor of tier-expr.ts.  Printed
    tiers are read back with all prices, and an accepted expression is reproduced.
  \<^item> Tier_Eval: the estimator of tier-expr.ts.  On what the visual editor prints it shows the label and the cost of the
    first tier whose conditions hold; the configurations whose text does not compile are named.
  \<^item> Tier_Logs: features/usage-logs/lib/format.ts.  The tier a log shows has the prices with which the cost was computed,
    as long as normalised labels differ.
  \<^item> Status_Code_Guard, Model_Mapping: features/channels/lib/status-code-risk-guard.ts and
    model-mapping-validation.ts.  What the guard accepts; missing and exposed models are closed under the repair
    that the editor offers.
  \<^item> Playground_Messages: features/playground/lib/message-utils.ts and payload-builder.ts.  Think tags are separated
    from visible text, chunks and whole answers agree, and the request has the fields that are switched on.
  \<^item> Playground_Stream: features/playground/index.tsx with use-chat-handler.ts and use-stream-request.ts as a record of
    the session and a step relation over user actions and server events.  Invariants by rule induction, a whole
    exchange, how every ending settles the session, and the overlap that does not.
  \<^item> Channel_Types, Channel_Form, Channel_Form_Rules: features/channels/lib/channel-form.ts.  Settings that are saved
    are shown again, unknown keys survive, and which cleared fields the server keeps.
  \<^item> Channel_Utils: features/channels/lib/channel-utils.ts, multi-key-utils.ts and upstream-update-utils.ts.  The tree
    by tag equals grouping; keys are masked within bounds.
  \<^item> Sidebar_Config: hooks/use-sidebar-config.ts.  When an entry is shown, and that the user's layer only narrows.
  \<^item> Param_Override, Param_Override_Editor: features/channels/components/dialogs/param-override-editor-dialog.tsx, the
    data and the dialog; a record for the state, one function per handler and a step relation over user actions.
    Param_Override_Rules has the invariants of all reachable states, Param_Override_Text what is stored and read
    back, what validation guarantees and which texts cannot be opened, Param_Override_Drafts the special editors
    and the copy of a rule.
  \<^item> Override_Parse, Override_Context, Override_Body, Override_Engine: the server side of these rules, relay/common/override.go
    with GetParamOverride of model/channel.go, WithOpenAIError of types/error.go and relay/param_override_error.go.
    Parsing of the stored text; the context with the request headers and the headers to send; conditions, paths and
    every change of the body; the loop over the rules, the audit log and the error for the client.  \<open>applyOperation\<close> is one
    turn of the loop on the record \<open>ov_state\<close>.
  \<^item> Override_Headers, Override_Runs: what every header operation does, invariants of a run proved once in the locale
    \<open>run_invariant\<close> and interpreted for four invariants; runs compose, and the headers of the context are those the
    request is sent with.
  \<^item> Override_Bridge, Override_Drafts, Override_Prune: the two sides together.  What the dialog saves is what the server
    runs, both know the same modes; custom errors, synchronisation targets and pruning drafts mean on the server what
    the editor shows, and where they do not; pruning is a filter whatever the order of a range over a map.
  \<^item> Override_Sample: a small path reader and writer with which the witnesses run the server.

  \<^bold>\<open>Conventions.\<close>  A record is a TypeScript object type, a datatype a union.  Exceptions are \<open>Inl\<close> of a sum or \<open>None\<close>.
  State is passed explicitly.  Anything outside the repository is an argument: identifiers of nanoid, the clock, the
  translation function, the events that the sse.js package delivers, the collation of the browser, and the rule of the
  database library that nil fields are not written; what is relied on is a hypothesis of the theorem that uses it.  On
  the server these arguments are the fields of the record \<open>go_env\<close>: the packages gjson and sjson, the regular expressions
  and case tables of Go, the order in which a map is visited, and the debug switch.  Panics are errors of their own.

  \<^bold>\<open>Fuel.\<close>  \<open>JSON_parse\<close> starts its recursive descent with twice the length of the text plus one; every call consumes
  input or opens at most one more level per character, and \<open>p_val_fuel\<close> shows that more never changes the result.
  The shortest decimal of a number is searched among 1 to 17 digits, which always suffice for binary64.  The matcher of
  Js_Regex recurs on the pattern and on the remaining text.  All other loops are structural or have a measure.

  \<^bold>\<open>Not modelled.\<close>  The Go server apart from override rules and the status code scan (relay handlers, provider adapters,
  controllers, middleware, database, payments): it is input/output, concurrency and adapters around third-party
  packages, and its billing expressions are compiled by such a package.  web/classic, an older copy of the same editors,
  and the desktop shell.  Markup, styles, toasts and data fetching of the React components, the generated route tree and
  the translation files.  Badge styles and the formatting of money and dates by other packages.  Of JavaScript the
  estimator's compiler covers literals, names, calls, arithmetic, comparison, logic and the conditional.
\<close>

end
